(* ===== verification/Prelude.thy ===== *)
theory Prelude
  imports Main "HOL-Library.Word"
begin

unbundle bit_operations_syntax

text \<open>
  Shared vocabulary of the development: results of C statements that can fail, sequences of
  statements, single bits and low fields of 32-bit registers, byte-addressed memory and the
  little-endian view of its words.  The lemmas of the collections \<open>stmt\<close> (evaluation of
  statement sequences), \<open>regs\<close> (bits of registers) and \<open>mems\<close> (memory) are what the component
  proofs hand to the simplifier.
\<close>

named_theorems stmt
named_theorems regs
named_theorems mems

section \<open>Statements that can fail\<close>

text \<open>
  A C statement over a state \<open>'s\<close> either ends in a new state (\<open>Inr\<close>) or does not end
  normally (\<open>Inl\<close> the reason).  \<open>bindr\<close> sequences a failing result with its continuation and
  \<open>exec\<close> runs a list of statements in order.
\<close>

type_synonym ('e, 's) step = "'s \<Rightarrow> 'e + 's"

definition bindr :: "'e + 'a \<Rightarrow> ('a \<Rightarrow> 'e + 'b) \<Rightarrow> 'e + 'b" where
  "bindr r f = (case r of Inl e \<Rightarrow> Inl e | Inr x \<Rightarrow> f x)"

primrec exec :: "('e, 's) step list \<Rightarrow> ('e, 's) step" where
  "exec [] s = Inr s"
| "exec (c # cs) s = bindr (c s) (exec cs)"

declare exec.simps [stmt]

lemma bindr_simps [simp]: "bindr (Inl e) f = Inl e" "bindr (Inr x) f = f x"
  by (simp_all add: bindr_def)

lemma bindr_assoc: "bindr (bindr r f) g = bindr r (\<lambda>x. bindr (f x) g)"
  by (cases r) simp_all

lemma bindr_Inr_right [simp]: "bindr r Inr = r"
  by (cases r) simp_all

lemma bindr_eq_Inr_iff: "bindr r f = Inr y \<longleftrightarrow> (\<exists>x. r = Inr x \<and> f x = Inr y)"
  by (cases r) auto

lemma bindr_eq_Inl_iff: "bindr r f = Inl e \<longleftrightarrow> r = Inl e \<or> (\<exists>x. r = Inr x \<and> f x = Inl e)"
  by (cases r) auto

lemma exec_Nil_fun [simp]: "exec [] = Inr"
  by (rule ext) simp

lemma exec_Cons_fun: "exec (c # cs) = (\<lambda>s. bindr (c s) (exec cs))"
  by (rule ext) simp

lemma exec_append: "exec (cs @ ds) s = bindr (exec cs s) (exec ds)"
proof (induction cs arbitrary: s)
  case Nil
  then show ?case by simp
next
  case (Cons c cs)
  have "exec (cs @ ds) = (\<lambda>s. bindr (exec cs s) (exec ds))"
    by (rule ext) (rule Cons.IH)
  then show ?case by (simp add: bindr_assoc)
qed

lemma exec_single [simp]: "exec [c] = c"
  by (rule ext) simp

lemma exec_then: "exec cs s = Inr t \<Longrightarrow> exec (cs @ ds) s = exec ds t"
  by (simp add: exec_append)

text \<open>A property every statement of a sequence keeps is kept by the sequence.\<close>

lemma exec_invariant:
  assumes "\<And>c s t. c \<in> set cs \<Longrightarrow> P s \<Longrightarrow> c s = Inr t \<Longrightarrow> P t"
    and "P s" and "exec cs s = Inr t"
  shows "P t"
  using assms
proof (induction cs arbitrary: s)
  case Nil
  then show ?case by simp
next
  case (Cons c cs)
  from Cons.prems(3) obtain u where "c s = Inr u" and "exec cs u = Inr t"
    by (auto simp: bindr_eq_Inr_iff)
  with Cons.prems(1) [of c s u] Cons.prems(1,2) show ?case
    by (intro Cons.IH [of u]) auto
qed

section \<open>Bits and fields of registers\<close>

definition put_bit :: "nat \<Rightarrow> bool \<Rightarrow> 32 word \<Rightarrow> 32 word" where
  "put_bit i b w = (if b then set_bit i w else unset_bit i w)"

definition put_low :: "nat \<Rightarrow> 32 word \<Rightarrow> 32 word \<Rightarrow> 32 word" where
  \<comment> \<open>assignment to the bit-field made of the \<open>k\<close> lowest bits: the value is truncated\<close>
  "put_low k v w = (w AND NOT (mask k)) OR (v AND mask k)"

definition get_low :: "nat \<Rightarrow> 32 word \<Rightarrow> 32 word" where
  "get_low k w = w AND mask k"

lemma bit_put_bit [regs]:
  "bit (put_bit i b w) j \<longleftrightarrow> (if i = j \<and> i < 32 then b else bit w j)"
  for w :: "32 word"
  by (auto simp: put_bit_def bit_set_bit_iff bit_unset_bit_iff dest: bit_imp_le_length)

lemma put_bit_same: "put_bit i b (put_bit i c w) = put_bit i b w"
  by (rule bit_word_eqI) (simp add: bit_put_bit)

lemma put_bit_commute: "i \<noteq> j \<Longrightarrow> put_bit i b (put_bit j c w) = put_bit j c (put_bit i b w)"
  by (rule bit_word_eqI) (auto simp: bit_put_bit)

lemma bit_put_low [regs]:
  "bit (put_low k v w) j \<longleftrightarrow> (if j < k then bit v j else bit w j)"
  by (auto simp: put_low_def bit_simps dest: bit_imp_le_length)

lemma bit_get_low [regs]: "bit (get_low k w) j \<longleftrightarrow> j < k \<and> bit w j"
  by (auto simp: get_low_def bit_simps dest: bit_imp_le_length)

lemma bit_and_not: "bit (v AND NOT w) j \<longleftrightarrow> bit v j \<and> \<not> bit w j" for v w :: "32 word"
  by (auto simp: bit_and_iff bit_not_iff dest: bit_imp_le_length)

lemma get_low_put_low [regs]: "get_low k (put_low k v w) = get_low k v"
  by (rule bit_word_eqI) (simp add: regs)

lemma get_low_0 [simp]: "get_low k 0 = 0"
  by (simp add: get_low_def)

lemma unat_get_low: "unat (get_low k v) = unat v mod 2 ^ k"
proof -
  have "unat (get_low k v) = unat (take_bit k v)"
    by (simp only: get_low_def take_bit_eq_mask)
  also have "\<dots> = take_bit k (unat v)"
    by (rule unsigned_take_bit_eq)
  finally show ?thesis by (simp only: take_bit_eq_mod)
qed

section \<open>Memory\<close>

text \<open>
  Memory is a total function from addresses to bytes.  A pointer is \<open>None\<close> (NULL) or an address;
  address arithmetic is on natural numbers, that is, buffers do not wrap around the end of the
  address space.  The processor is little-endian.
\<close>

type_synonym byte = "8 word"
type_synonym memory = "nat \<Rightarrow> byte"
type_synonym ptr = "nat option"

definition word_bytes :: "32 word \<Rightarrow> byte list" where
  "word_bytes w = map (\<lambda>i. ucast (drop_bit (8 * i) w)) [0..<4]"

definition bytes_word :: "byte list \<Rightarrow> 32 word" where
  "bytes_word bs = ucast (bs ! 0) OR push_bit 8 (ucast (bs ! 1))
     OR push_bit 16 (ucast (bs ! 2)) OR push_bit 24 (ucast (bs ! 3))"

definition mem_bytes :: "memory \<Rightarrow> nat \<Rightarrow> nat \<Rightarrow> byte list" where
  "mem_bytes m a k = map (\<lambda>i. m (a + i)) [0..<k]"

definition mem_word :: "memory \<Rightarrow> nat \<Rightarrow> 32 word" where
  "mem_word m a = bytes_word (mem_bytes m a 4)"

fun mem_store :: "memory \<Rightarrow> nat \<Rightarrow> byte list \<Rightarrow> memory" where
  "mem_store m a [] = m"
| "mem_store m a (b # bs) = mem_store (m(a := b)) (Suc a) bs"

lemma length_word_bytes [simp]: "length (word_bytes w) = 4"
  by (simp add: word_bytes_def)

lemma length_mem_bytes [simp]: "length (mem_bytes m a k) = k"
  by (simp add: mem_bytes_def)

lemma word_bytes_expand:
  "word_bytes w = [ucast w, ucast (drop_bit 8 w), ucast (drop_bit 16 w), ucast (drop_bit 24 w)]"
  by (simp add: word_bytes_def upt_rec numeral_eq_Suc)

lemma nth_word_bytes: "i < 4 \<Longrightarrow> word_bytes w ! i = ucast (drop_bit (8 * i) w)"
  by (simp add: word_bytes_def)

lemma bit_ucast_byte: "bit (ucast (b :: byte) :: 32 word) n \<longleftrightarrow> n < 8 \<and> bit b n"
  by (auto simp: bit_simps dest: bit_imp_le_length)

lemma bit_bytes_word:
  "bit (bytes_word bs) n \<longleftrightarrow> n < 32 \<and> bit (bs ! (n div 8)) (n mod 8)"
proof -
  have "n < 8 \<or> (8 \<le> n \<and> n < 16) \<or> (16 \<le> n \<and> n < 24) \<or> (24 \<le> n \<and> n < 32) \<or> 32 \<le> n"
    by arith
  moreover have "8 \<le> n \<and> n < 16 \<Longrightarrow> n div 8 = 1 \<and> n mod 8 = n - 8"
    "16 \<le> n \<and> n < 24 \<Longrightarrow> n div 8 = 2 \<and> n mod 8 = n - 16"
    "24 \<le> n \<and> n < 32 \<Longrightarrow> n div 8 = 3 \<and> n mod 8 = n - 24"
    by presburger+
  ultimately show ?thesis
    by (auto simp: bytes_word_def bit_or_iff bit_push_bit_iff bit_ucast_byte dest: bit_imp_le_length)
qed

lemma bit_word_bytes:
  "i < 4 \<Longrightarrow> bit (word_bytes w ! i) n \<longleftrightarrow> n < 8 \<and> bit w (8 * i + n)"
  by (auto simp: nth_word_bytes bit_simps dest: bit_imp_le_length)

lemma bytes_word_inverse [mems]: "bytes_word (word_bytes w) = w"
proof (rule bit_word_eqI)
  fix n
  assume "n < LENGTH(32)"
  then have "n div 8 < 4" by simp
  then show "bit (bytes_word (word_bytes w)) n = bit w n"
    using \<open>n < LENGTH(32)\<close> by (simp add: bit_bytes_word bit_word_bytes)
qed

lemma word_bytes_inverse [mems]:
  assumes "length bs = 4"
  shows "word_bytes (bytes_word bs) = bs"
proof (rule nth_equalityI)
  fix i
  assume "i < length (word_bytes (bytes_word bs))"
  then have i: "i < 4" by simp
  show "word_bytes (bytes_word bs) ! i = bs ! i"
  proof (rule bit_word_eqI)
    fix n
    assume "n < LENGTH(8)"
    with i show "bit (word_bytes (bytes_word bs) ! i) n = bit (bs ! i) n"
      by (auto simp: bit_word_bytes bit_bytes_word)
  qed
qed (simp add: assms)

lemma mem_store_apply [mems]:
  "mem_store m a bs x = (if a \<le> x \<and> x < a + length bs then bs ! (x - a) else m x)"
proof (induction bs arbitrary: m a)
  case Nil
  then show ?case by auto
next
  case (Cons b bs)
  then show ?case by (auto simp: Suc_diff_le nth_Cons' le_Suc_eq)
qed

lemma mem_bytes_store [mems]: "mem_bytes (mem_store m a bs) a (length bs) = bs"
  by (rule nth_equalityI) (simp_all add: mem_bytes_def mem_store_apply)

lemma mem_bytes_cong:
  "(\<And>x. a \<le> x \<Longrightarrow> x < a + k \<Longrightarrow> m x = m' x) \<Longrightarrow> mem_bytes m a k = mem_bytes m' a k"
  by (simp add: mem_bytes_def)

lemma mem_bytes_add: "mem_bytes m a (j + k) = mem_bytes m a j @ mem_bytes m (a + j) k"
  by (rule nth_equalityI) (auto simp: mem_bytes_def nth_append)

lemma take_mem_bytes [simp]: "take j (mem_bytes m a k) = mem_bytes m a (min j k)"
  by (rule nth_equalityI) (auto simp: mem_bytes_def)

lemma word_bytes_mem_word [mems]: "word_bytes (mem_word m a) = mem_bytes m a 4"
  by (simp add: mem_word_def word_bytes_inverse)

definition words_bytes :: "32 word list \<Rightarrow> byte list" where
  "words_bytes ws = concat (map word_bytes ws)"

lemma words_bytes_simps [simp]:
  "words_bytes [] = []" "words_bytes (w # ws) = word_bytes w @ words_bytes ws"
  "words_bytes (vs @ ws) = words_bytes vs @ words_bytes ws"
  by (simp_all add: words_bytes_def)

lemma length_words_bytes [simp]: "length (words_bytes ws) = 4 * length ws"
  by (induction ws) simp_all

lemma words_bytes_mem_words [mems]:
  "words_bytes (map (\<lambda>i. mem_word m (a + 4 * i)) [0..<k]) = mem_bytes m a (4 * k)"
proof (induction k)
  case 0
  then show ?case by (simp add: mem_bytes_def)
next
  case (Suc k)
  have "mem_bytes m a (4 * Suc k) = mem_bytes m a (4 * k + 4)" by (simp add: add.commute)
  with Suc show ?case by (simp add: mem_bytes_add word_bytes_mem_word)
qed

end
