(* ===== verification/Gpio.thy ===== *)
theory Gpio
  imports Prelude
begin

text \<open>
  The GPIO chip (\<^verbatim>\<open>esp32/esp32gpiochip.cpp\<close>, \<^verbatim>\<open>esp32/esp32gpio.h\<close>): pin modes, level writes, the
  C entry point \<open>pinMode\<close> that the SPI driver calls, and the interrupt side: registration of
  handlers, enabling and disabling a pin's interrupt, and the service routine that reads the status
  registers and calls the handlers.  Calls into ESP-IDF are recorded in order in \<open>idf_calls\<close>;
  the CPU an interrupt is allocated on, the pin count of the SDK and the effect of a user handler
  are parameters.
\<close>

section \<open>Data\<close>

text \<open>\<open>PinMode\<close> and \<open>IrqEdge\<close> are enums of the core library; the last constructor stands for every
  enumerator that the code handles in its \<open>default\<close> branch.\<close>

datatype pin_mode = INPUT | INPUT_PULLUP | INPUT_NOPULLUP | OUTPUT | OUTPUT_OPEN_DRAIN
  | PinMode_other nat

datatype irq_edge = IrqNone | IrqRising | IrqFalling | IrqRisingFalling | IrqEdge_other nat

datatype gpio_dir = GPIO_MODE_INPUT | GPIO_MODE_OUTPUT | GPIO_MODE_INPUT_OUTPUT_OD

datatype gpio_call =
    gpio_set_direction int gpio_dir
  | gpio_pullup_en int
  | gpio_pullup_dis int
  | gpio_pulldown_dis int
  | gpio_set_pull_floating int
  | gpio_set_level int nat
  | gpio_matrix_out "32 word" "32 word" bool bool
  | gpio_matrix_in "32 word" "32 word" bool

datatype gpio_fault = GpioOutOfBounds

record pin_reg =
  int_ena :: nat
  int_type :: int

record ('h, 'w) gpio_soc =
  status :: "32 word"
  status1 :: "32 word"
  status_w1tc :: "32 word"
  status1_w1tc :: "32 word"
  pin_regs :: "nat \<Rightarrow> pin_reg"
  isr_handlers :: "nat \<Rightarrow> 'h option"
  initialized_irqs :: bool
  intr_allocs :: nat
  intr_enabled :: bool
  idf_calls :: "gpio_call list"
  ext_world :: 'w

definition PINS :: nat where
  "PINS = 40"

definition LEVEL_HIGH :: nat where "LEVEL_HIGH = 1"
definition LEVEL_LOW :: nat where "LEVEL_LOW = 0"

definition RAW_INPUT :: int where "RAW_INPUT = 1"
definition RAW_OUTPUT :: int where "RAW_OUTPUT = 2"
definition RAW_OUTPUT_OPENDRAIN :: int where "RAW_OUTPUT_OPENDRAIN = 3"

section \<open>Pin modes and levels\<close>

text \<open>\<open>GpioChip::mode\<close>: the calls made for each mode, in order; an unknown mode only prints.\<close>

fun mode_calls :: "int \<Rightarrow> pin_mode \<Rightarrow> gpio_call list" where
  "mode_calls pin INPUT_PULLUP = [gpio_set_direction pin GPIO_MODE_INPUT, gpio_pullup_en pin]"
| "mode_calls pin INPUT_NOPULLUP = [gpio_set_direction pin GPIO_MODE_INPUT, gpio_pullup_dis pin]"
| "mode_calls pin INPUT = [gpio_set_direction pin GPIO_MODE_INPUT, gpio_set_pull_floating pin]"
| "mode_calls pin OUTPUT =
     [gpio_set_direction pin GPIO_MODE_OUTPUT, gpio_pullup_dis pin, gpio_pulldown_dis pin]"
| "mode_calls pin OUTPUT_OPEN_DRAIN =
     [gpio_set_direction pin GPIO_MODE_INPUT_OUTPUT_OD, gpio_set_pull_floating pin]"
| "mode_calls pin (PinMode_other k) = []"

definition gpio_mode :: "int \<Rightarrow> pin_mode \<Rightarrow> ('h, 'w) gpio_soc \<Rightarrow> ('h, 'w) gpio_soc" where
  "gpio_mode pin m s = s\<lparr>idf_calls := idf_calls s @ mode_calls pin m\<rparr>"

definition write_calls :: "int \<Rightarrow> bool \<Rightarrow> gpio_call list" where
  "write_calls pin value = [gpio_set_level pin (if value then LEVEL_HIGH else LEVEL_LOW)]"

definition gpio_write :: "int \<Rightarrow> bool \<Rightarrow> ('h, 'w) gpio_soc \<Rightarrow> ('h, 'w) gpio_soc" where
  "gpio_write pin value s = s\<lparr>idf_calls := idf_calls s @ write_calls pin value\<rparr>"

definition gpio_read :: "(int \<Rightarrow> nat) \<Rightarrow> int \<Rightarrow> bool" where
  \<comment> \<open>the argument \<open>get_level\<close> is \<open>gpio_get_level\<close>\<close>
  "gpio_read get_level pin \<longleftrightarrow> get_level pin = 1"

definition setOpenDrain :: "int \<Rightarrow> ('h, 'w) gpio_soc \<Rightarrow> ('h, 'w) gpio_soc" where
  "setOpenDrain pin s = gpio_write pin True (gpio_mode pin OUTPUT_OPEN_DRAIN s)"

definition odWrite :: "int \<Rightarrow> bool \<Rightarrow> ('h, 'w) gpio_soc \<Rightarrow> ('h, 'w) gpio_soc" where
  "odWrite pin value s =
     s\<lparr>idf_calls := idf_calls s @ [gpio_set_level pin (if value then LEVEL_HIGH else LEVEL_LOW)]\<rparr>"

text \<open>The C function \<open>pinMode\<close>: the calls it makes for a raw mode.\<close>

definition pinMode_calls :: "int \<Rightarrow> int \<Rightarrow> gpio_call list" where
  "pinMode_calls pin m =
     (if m = RAW_INPUT then mode_calls pin INPUT
      else if m = RAW_OUTPUT then mode_calls pin OUTPUT
      else if m = RAW_OUTPUT_OPENDRAIN then mode_calls pin OUTPUT_OPEN_DRAIN
      else [])"

definition pinMode :: "int \<Rightarrow> int \<Rightarrow> ('h, 'w) gpio_soc \<Rightarrow> ('h, 'w) gpio_soc" where
  "pinMode pin m s = s\<lparr>idf_calls := idf_calls s @ pinMode_calls pin m\<rparr>"

section \<open>Interrupt registration\<close>

definition IRQ_DISABLED :: int where "IRQ_DISABLED = 0"
definition IRQ_RISING :: int where "IRQ_RISING = 1"
definition IRQ_FALLING :: int where "IRQ_FALLING = 2"
definition IRQ_CHANGE :: int where "IRQ_CHANGE = 3"

fun mapIrqType :: "irq_edge \<Rightarrow> int" where
  "mapIrqType IrqRising = IRQ_RISING"
| "mapIrqType IrqFalling = IRQ_FALLING"
| "mapIrqType IrqRisingFalling = IRQ_CHANGE"
| "mapIrqType IrqNone = IRQ_DISABLED"
| "mapIrqType (IrqEdge_other k) = -1"

definition set_int_ena :: "nat \<Rightarrow> nat \<Rightarrow> ('h, 'w) gpio_soc \<Rightarrow> ('h, 'w) gpio_soc" where
  "set_int_ena p v s = s\<lparr>pin_regs := (pin_regs s)(p := (pin_regs s p)\<lparr>int_ena := v\<rparr>)\<rparr>"

definition set_int_type :: "nat \<Rightarrow> int \<Rightarrow> ('h, 'w) gpio_soc \<Rightarrow> ('h, 'w) gpio_soc" where
  "set_int_type p v s = s\<lparr>pin_regs := (pin_regs s)(p := (pin_regs s p)\<lparr>int_type := v\<rparr>)\<rparr>"

text \<open>
  \<open>attachIrqHandler\<close>.  \<open>cpu\<close> is what \<open>esp_intr_get_cpu\<close> returns; \<open>esp_intr_alloc\<close> leaves the
  interrupt enabled.  An index outside the handler table is a write out of bounds.
\<close>

definition attachIrqHandler ::
  "nat \<Rightarrow> int \<Rightarrow> 'h option \<Rightarrow> irq_edge \<Rightarrow> (gpio_fault, ('h, 'w) gpio_soc) step" where
  "attachIrqHandler cpu pin handler edge s0 =
     (let s = (if initialized_irqs s0 then s0
               else s0\<lparr>initialized_irqs := True, intr_allocs := Suc (intr_allocs s0),
                        intr_enabled := True\<rparr>)
      in if pin < 0 \<or> int PINS \<le> pin then Inl GpioOutOfBounds
         else
           let p = nat pin;
               s = s\<lparr>isr_handlers := (isr_handlers s)(p := handler)\<rparr>;
               s = s\<lparr>intr_enabled := False\<rparr>;
               s = set_int_ena p (if cpu \<noteq> 0 then 1 else 4) s;
               ty = mapIrqType edge
           in if ty = -1 then Inr (s\<lparr>intr_enabled := True\<rparr>)
              else Inr ((set_int_type p ty s)\<lparr>intr_enabled := True\<rparr>))"

definition detachIrqHandler :: "int \<Rightarrow> (gpio_fault, ('h, 'w) gpio_soc) step" where
  "detachIrqHandler pin s =
     (if \<not> initialized_irqs s then Inr s
      else if pin < 0 \<or> int PINS \<le> pin then Inl GpioOutOfBounds
      else
        let p = nat pin;
            s = s\<lparr>intr_enabled := False\<rparr>;
            s = set_int_ena p 0 s;
            s = set_int_type p (mapIrqType IrqNone) s
        in Inr (s\<lparr>intr_enabled := True\<rparr>))"

section \<open>The interrupt service routine\<close>

text \<open>
  One iteration of the loops of \<open>gpio_external_isr\<close>: if the pin's status bit is set and a handler is
  registered, call it.  \<open>call h\<close> is the effect of handler \<open>h\<close>, which may itself change
  the handler table.
\<close>

definition isr_body ::
  "('h \<Rightarrow> ('h, 'w) gpio_soc \<Rightarrow> ('h, 'w) gpio_soc) \<Rightarrow> 32 word \<Rightarrow> nat \<Rightarrow> nat
     \<Rightarrow> (gpio_fault, ('h, 'w) gpio_soc) step" where
  "isr_body call st base pin s =
     (if bit st (pin - base) then
        if PINS \<le> pin then Inl GpioOutOfBounds
        else (case isr_handlers s pin of None \<Rightarrow> Inr s | Some h \<Rightarrow> Inr (call h s))
      else Inr s)"

text \<open>\<^verbatim>\<open>do { body } while(++pin < lim)\<close>: the body runs at least once.\<close>

function isr_scan ::
  "('h \<Rightarrow> ('h, 'w) gpio_soc \<Rightarrow> ('h, 'w) gpio_soc) \<Rightarrow> 32 word \<Rightarrow> nat \<Rightarrow> nat \<Rightarrow> nat
     \<Rightarrow> (gpio_fault, ('h, 'w) gpio_soc) step" where
  "isr_scan call st base lim pin s =
     bindr (isr_body call st base pin s)
       (\<lambda>s. if Suc pin < lim then isr_scan call st base lim (Suc pin) s else Inr s)"
  by pat_completeness auto
termination
  by (relation "measure (\<lambda>(call, st, base, lim, pin, s). lim - pin)") auto

declare isr_scan.simps [simp del]

definition gpio_external_isr ::
  "('h \<Rightarrow> ('h, 'w) gpio_soc \<Rightarrow> ('h, 'w) gpio_soc) \<Rightarrow> nat \<Rightarrow> (gpio_fault, ('h, 'w) gpio_soc) step" where
  "gpio_external_isr call pin_count s =
     (let l = status s; h = status1 s;
          s = s\<lparr>status_w1tc := l\<rparr>;
          s = s\<lparr>status1_w1tc := h\<rparr>
      in bindr (if l \<noteq> 0 then isr_scan call l 0 32 0 s else Inr s)
           (\<lambda>s. if h \<noteq> 0 then isr_scan call h 32 pin_count 32 s else Inr s))"

section \<open>Lemmas\<close>

text \<open>The pin a call is about.\<close>

fun call_pin :: "gpio_call \<Rightarrow> int" where
  "call_pin (gpio_set_direction p d) = p"
| "call_pin (gpio_pullup_en p) = p"
| "call_pin (gpio_pullup_dis p) = p"
| "call_pin (gpio_pulldown_dis p) = p"
| "call_pin (gpio_set_pull_floating p) = p"
| "call_pin (gpio_set_level p v) = p"
| "call_pin (gpio_matrix_out p sig iv oen) = uint p"
| "call_pin (gpio_matrix_in p sig iv) = uint p"

lemma mode_calls_pin: "c \<in> set (mode_calls p m) \<Longrightarrow> call_pin c = p"
  by (cases m) auto

lemma pinMode_calls_pin: "c \<in> set (pinMode_calls p m) \<Longrightarrow> call_pin c = p"
  by (auto simp: pinMode_calls_def mode_calls_pin split: if_splits)

subsection \<open>The service routine\<close>

definition isr_pending :: "32 word \<Rightarrow> nat \<Rightarrow> ('h, 'w) gpio_soc \<Rightarrow> nat \<Rightarrow> bool" where
  "isr_pending st base s p \<longleftrightarrow> bit st (p - base) \<and> isr_handlers s p \<noteq> None"

definition isr_call ::
  "('h \<Rightarrow> ('h, 'w) gpio_soc \<Rightarrow> ('h, 'w) gpio_soc) \<Rightarrow> nat \<Rightarrow> ('h, 'w) gpio_soc \<Rightarrow> ('h, 'w) gpio_soc"
where
  "isr_call call p s = (case isr_handlers s p of None \<Rightarrow> s | Some h \<Rightarrow> call h s)"

definition keeps_table :: "('h \<Rightarrow> ('h, 'w) gpio_soc \<Rightarrow> ('h, 'w) gpio_soc) \<Rightarrow> bool" where
  "keeps_table call \<longleftrightarrow> (\<forall>h s. isr_handlers (call h s) = isr_handlers s)"

lemma keeps_table_isr_call: "keeps_table call \<Longrightarrow> isr_handlers (isr_call call p s) = isr_handlers s"
  by (simp add: keeps_table_def isr_call_def split: option.split)

lemma isr_body_eq:
  "pin < PINS \<Longrightarrow> isr_body call st base pin s =
     Inr (if isr_pending st base s pin then isr_call call pin s else s)"
  by (auto simp: isr_body_def isr_pending_def isr_call_def split: option.split)

lemma isr_pending_cong:
  "isr_handlers s = isr_handlers t \<Longrightarrow> isr_pending st base s = isr_pending st base t"
  by (rule ext) (simp add: isr_pending_def)

text \<open>The loop visits the pins in ascending order and calls each pending handler once.\<close>

lemma isr_scan_eq_fold:
  assumes "keeps_table call" and "pin < lim" and "lim \<le> PINS"
  shows "isr_scan call st base lim pin s =
    Inr (fold (isr_call call) (filter (isr_pending st base s) [pin..<lim]) s)"
  using assms(2)
proof (induction "lim - pin" arbitrary: pin s)
  case 0
  then show ?case by simp
next
  case (Suc n)
  define t where "t = (if isr_pending st base s pin then isr_call call pin s else s)"
  have tab: "isr_pending st base t = isr_pending st base s"
    by (rule isr_pending_cong) (simp add: t_def keeps_table_isr_call [OF assms(1)])
  have body: "isr_body call st base pin s = Inr t"
    using Suc.prems assms(3) by (simp add: isr_body_eq t_def)
  have split: "[pin..<lim] = pin # [Suc pin..<lim]"
    using Suc.prems by (rule upt_conv_Cons)
  have head: "fold (isr_call call) (filter (isr_pending st base s) [pin..<lim]) s =
      fold (isr_call call) (filter (isr_pending st base s) [Suc pin..<lim]) t"
    by (simp add: split t_def)
  show ?case
  proof (cases "Suc pin < lim")
    case True
    then have "isr_scan call st base lim (Suc pin) t =
        Inr (fold (isr_call call) (filter (isr_pending st base s) [Suc pin..<lim]) t)"
      using Suc.hyps tab by simp
    with True body head show ?thesis
      by (subst isr_scan.simps) simp
  next
    case False
    with body head show ?thesis
      by (subst isr_scan.simps) simp
  qed
qed

lemma fold_isr_call_table:
  "keeps_table call \<Longrightarrow> isr_handlers (fold (isr_call call) ps s) = isr_handlers s"
  by (induction ps arbitrary: s) (simp_all add: keeps_table_isr_call)

text \<open>The pins the interrupt reports, both status words together.\<close>

definition reported :: "('h, 'w) gpio_soc \<Rightarrow> nat \<Rightarrow> nat \<Rightarrow> bool" where
  "reported s pin_count p \<longleftrightarrow> p < pin_count \<and>
     (if p < 32 then bit (status s) p else bit (status1 s) (p - 32))"

definition isr_agenda :: "('h, 'w) gpio_soc \<Rightarrow> nat \<Rightarrow> nat list" where
  "isr_agenda s pin_count =
     filter (\<lambda>p. reported s pin_count p \<and> isr_handlers s p \<noteq> None) [0..<pin_count]"

definition isr_ack :: "('h, 'w) gpio_soc \<Rightarrow> ('h, 'w) gpio_soc" where
  "isr_ack s = s\<lparr>status_w1tc := status s, status1_w1tc := status1 s\<rparr>"

lemma isr_agenda_split:
  assumes "32 < pin_count"
  shows "isr_agenda s pin_count =
    filter (isr_pending (status s) 0 s) [0..<32] @ filter (isr_pending (status1 s) 32 s) [32..<pin_count]"
proof -
  have "[0..<pin_count] = [0..<32] @ [32..<pin_count]"
    using assms by (metis le_add_diff_inverse less_imp_le_nat upt_add_eq_append zero_le)
  moreover have "filter (\<lambda>p. reported s pin_count p \<and> isr_handlers s p \<noteq> None) [0..<32]
      = filter (isr_pending (status s) 0 s) [0..<32]"
    using assms by (intro filter_cong) (auto simp: reported_def isr_pending_def)
  moreover have "filter (\<lambda>p. reported s pin_count p \<and> isr_handlers s p \<noteq> None) [32..<pin_count]
      = filter (isr_pending (status1 s) 32 s) [32..<pin_count]"
    by (intro filter_cong) (auto simp: reported_def isr_pending_def)
  ultimately show ?thesis by (simp only: isr_agenda_def filter_append)
qed

lemma not_pending_zero: "filter (isr_pending 0 base s) ps = []"
  by (simp add: isr_pending_def)

lemma isr_dispatch:
  assumes "keeps_table call" and "32 < pin_count" and "pin_count \<le> PINS"
  shows "gpio_external_isr call pin_count s =
    Inr (fold (isr_call call) (isr_agenda s pin_count) (isr_ack s))"
proof -
  let ?A = "isr_ack s"
  let ?lo = "filter (isr_pending (status s) 0 s) [0..<32]"
  let ?hi = "filter (isr_pending (status1 s) 32 s) [32..<pin_count]"
  define t where "t = fold (isr_call call) ?lo ?A"
  have ack: "isr_pending st b ?A = isr_pending st b s" for st b
    by (rule isr_pending_cong) (simp add: isr_ack_def)
  have t_tab: "isr_pending st b t = isr_pending st b s" for st b
    by (rule isr_pending_cong) (simp add: t_def fold_isr_call_table [OF assms(1)] isr_ack_def)
  have lo: "(if status s \<noteq> 0 then isr_scan call (status s) 0 32 0 ?A else Inr ?A) = Inr t"
    using isr_scan_eq_fold [OF assms(1), of 0 32 "status s" 0 ?A]
    by (simp add: PINS_def ack t_def not_pending_zero)
  have hi: "(if status1 s \<noteq> 0 then isr_scan call (status1 s) 32 pin_count 32 t else Inr t)
      = Inr (fold (isr_call call) ?hi t)"
    using isr_scan_eq_fold [OF assms(1,2,3), of "status1 s" 32 t]
    by (simp add: t_tab not_pending_zero)
  have "gpio_external_isr call pin_count s =
      bindr (if status s \<noteq> 0 then isr_scan call (status s) 0 32 0 ?A else Inr ?A)
        (\<lambda>s'. if status1 s \<noteq> 0 then isr_scan call (status1 s) 32 pin_count 32 s' else Inr s')"
    by (simp add: gpio_external_isr_def isr_ack_def Let_def)
  also have "\<dots> = Inr (fold (isr_call call) ?hi t)"
    by (simp only: lo hi bindr_simps)
  finally show ?thesis
    by (simp add: isr_agenda_split [OF assms(2)] t_def)
qed

text \<open>Property C11. One run of \<open>gpio_external_isr\<close> never indexes the handler table out of bounds; it acknowledges exactly
  the sampled status bits and calls the registered handler of every reported pin once, in ascending
  pin order (for handlers that do not re-register handlers).\<close>

theorem gpio_external_isr_dispatch:
  assumes "keeps_table call" and "32 < pin_count" and "pin_count \<le> PINS"
  shows "gpio_external_isr call pin_count s =
    Inr (fold (isr_call call) (isr_agenda s pin_count) (isr_ack s))"
  by (rule isr_dispatch [OF assms])

definition log_handler :: "'h \<Rightarrow> ('h, 'h list) gpio_soc \<Rightarrow> ('h, 'h list) gpio_soc" where
  \<comment> \<open>a handler that records its own call, for concrete runs\<close>
  "log_handler h s = s\<lparr>ext_world := ext_world s @ [h]\<rparr>"

definition gpio_reset :: "'w \<Rightarrow> ('h, 'w) gpio_soc" where
  "gpio_reset w = \<lparr>status = 0, status1 = 0, status_w1tc = 0, status1_w1tc = 0,
     pin_regs = (\<lambda>_. \<lparr>int_ena = 0, int_type = 0\<rparr>), isr_handlers = (\<lambda>_. None),
     initialized_irqs = False, intr_allocs = 0, intr_enabled = False, idf_calls = [],
     ext_world = w\<rparr>"

lemma log_handler_keeps_table: "keeps_table log_handler"
  by (simp add: keeps_table_def log_handler_def)

definition two_handlers :: "(nat, nat list) gpio_soc" where
  \<comment> \<open>handlers 7 and 8 on pins 3 and 35; pins 1, 3 and 35 reported\<close>
  "two_handlers = (gpio_reset [])
     \<lparr>isr_handlers := (\<lambda>_. None)(3 := Some 7, 35 := Some 8), status := 10, status1 := 8\<rparr>"

lemma gpio_external_isr_dispatch_witness:
  "keeps_table (log_handler :: nat \<Rightarrow> _) \<and> (32 :: nat) < 40 \<and> 40 \<le> PINS \<and>
   gpio_external_isr log_handler 40 two_handlers =
     Inr (fold (isr_call log_handler) (isr_agenda two_handlers 40) (isr_ack two_handlers)) \<and>
   isr_agenda two_handlers 40 = [3, 35] \<and>
   ext_world (fold (isr_call log_handler) [3, 35] (isr_ack two_handlers)) = [7, 8]"
proof -
  have agenda: "isr_agenda two_handlers 40 = [3, 35]"
    by code_simp
  have world: "ext_world (fold (isr_call log_handler) [3, 35] (isr_ack two_handlers)) = [7, 8]"
    by (simp add: isr_call_def two_handlers_def gpio_reset_def isr_ack_def log_handler_def)
  have "gpio_external_isr log_handler 40 two_handlers =
      Inr (fold (isr_call log_handler) (isr_agenda two_handlers 40) (isr_ack two_handlers))"
    by (rule gpio_external_isr_dispatch) (simp_all add: log_handler_keeps_table PINS_def)
  with agenda world show ?thesis
    by (simp only: log_handler_keeps_table PINS_def) simp
qed

subsection \<open>Registration\<close>

text \<open>
  The invariant of the interrupt side: the service routine is allocated at most once and, once
  allocated, left enabled by every operation; only pins of the chip have their interrupt enabled,
  and only after the allocation; the trigger type is one of the four the hardware knows.
\<close>

definition irq_wf :: "('h, 'w) gpio_soc \<Rightarrow> bool" where
  "irq_wf s \<longleftrightarrow> intr_allocs s = (if initialized_irqs s then 1 else 0)
     \<and> (initialized_irqs s \<longrightarrow> intr_enabled s)
     \<and> (\<forall>p. int_ena (pin_regs s p) \<noteq> 0 \<longrightarrow> p < PINS \<and> initialized_irqs s)
     \<and> (\<forall>p. int_type (pin_regs s p) \<in> {0..3})"

lemmas irq_type_defs = IRQ_DISABLED_def IRQ_RISING_def IRQ_FALLING_def IRQ_CHANGE_def

lemma mapIrqType_range: "mapIrqType e \<noteq> -1 \<Longrightarrow> 0 \<le> mapIrqType e \<and> mapIrqType e \<le> 3"
  by (cases e) (simp_all add: irq_type_defs)

lemma irq_wf_reset: "irq_wf (gpio_reset w)"
  by (simp add: irq_wf_def gpio_reset_def)

lemma attachIrqHandler_wf:
  assumes "irq_wf s" and "attachIrqHandler cpu pin h e s = Inr t"
  shows "irq_wf t"
  using assms mapIrqType_range [of e]
  by (auto simp: attachIrqHandler_def irq_wf_def set_int_ena_def set_int_type_def Let_def
      split: if_splits)

lemma detachIrqHandler_wf:
  assumes "irq_wf s" and "detachIrqHandler pin s = Inr t"
  shows "irq_wf t"
  using assms
  by (auto simp: detachIrqHandler_def irq_wf_def set_int_ena_def set_int_type_def Let_def
      irq_type_defs split: if_splits)

text \<open>Fields the invariant does not read.\<close>

lemma irq_wf_frame [simp]:
  "irq_wf (s\<lparr>idf_calls := c\<rparr>) = irq_wf s"
  "irq_wf (s\<lparr>status := a\<rparr>) = irq_wf s" "irq_wf (s\<lparr>status1 := b\<rparr>) = irq_wf s"
  "irq_wf (s\<lparr>status_w1tc := a\<rparr>) = irq_wf s" "irq_wf (s\<lparr>status1_w1tc := b\<rparr>) = irq_wf s"
  by (simp_all add: irq_wf_def)

lemma isr_scan_wf:
  assumes "\<forall>h s. irq_wf s \<longrightarrow> irq_wf (call h s)"
  shows "irq_wf s \<Longrightarrow> isr_scan call st base lim pin s = Inr t \<Longrightarrow> irq_wf t"
proof (induction "lim - pin" arbitrary: pin s rule: less_induct)
  case less
  from less.prems(2) obtain u where u: "isr_body call st base pin s = Inr u"
    and rest: "(if Suc pin < lim then isr_scan call st base lim (Suc pin) u else Inr u) = Inr t"
    by (subst (asm) isr_scan.simps) (auto simp: bindr_eq_Inr_iff)
  from u less.prems(1) assms have "irq_wf u"
    by (auto simp: isr_body_def split: if_splits option.splits)
  with rest less.hyps [of "Suc pin" u] show ?case
    by (auto split: if_splits)
qed

lemma gpio_external_isr_wf:
  assumes "\<forall>h s. irq_wf s \<longrightarrow> irq_wf (call h s)"
    and "irq_wf s" and "gpio_external_isr call pin_count s = Inr t"
  shows "irq_wf t"
proof -
  let ?A = "s\<lparr>status_w1tc := status s, status1_w1tc := status1 s\<rparr>"
  obtain u where u: "(if status s \<noteq> 0 then isr_scan call (status s) 0 32 0 ?A else Inr ?A) = Inr u"
    and t: "(if status1 s \<noteq> 0 then isr_scan call (status1 s) 32 pin_count 32 u else Inr u) = Inr t"
    using assms(3) by (auto simp: gpio_external_isr_def Let_def bindr_eq_Inr_iff)
  have "irq_wf ?A" using assms(2) by simp
  with u have "irq_wf u" using isr_scan_wf [OF assms(1)] by (metis sum.inject(2))
  with t show ?thesis using isr_scan_wf [OF assms(1)] by (metis sum.inject(2))
qed

text \<open>Everything that can happen to the chip: the driver's operations, and an interrupt with any
  status word.\<close>

inductive gpio_step ::
  "('h \<Rightarrow> ('h, 'w) gpio_soc \<Rightarrow> ('h, 'w) gpio_soc) \<Rightarrow> nat \<Rightarrow> ('h, 'w) gpio_soc \<Rightarrow> ('h, 'w) gpio_soc \<Rightarrow> bool"
  for call pin_count
where
  attach: "attachIrqHandler cpu pin h e s = Inr t \<Longrightarrow> gpio_step call pin_count s t"
| detach: "detachIrqHandler pin s = Inr t \<Longrightarrow> gpio_step call pin_count s t"
| mode: "gpio_step call pin_count s (gpio_mode pin m s)"
| raw_mode: "gpio_step call pin_count s (pinMode pin r s)"
| level: "gpio_step call pin_count s (gpio_write pin v s)"
| open_drain: "gpio_step call pin_count s (setOpenDrain pin s)"
| od_level: "gpio_step call pin_count s (odWrite pin v s)"
| interrupt: "gpio_external_isr call pin_count (s\<lparr>status := l, status1 := h\<rparr>) = Inr t
    \<Longrightarrow> gpio_step call pin_count s t"

inductive gpio_reach ::
  "('h \<Rightarrow> ('h, 'w) gpio_soc \<Rightarrow> ('h, 'w) gpio_soc) \<Rightarrow> nat \<Rightarrow> ('h, 'w) gpio_soc \<Rightarrow> bool"
  for call pin_count
where
  reset: "gpio_reach call pin_count (gpio_reset w)"
| run: "gpio_reach call pin_count s \<Longrightarrow> gpio_step call pin_count s t \<Longrightarrow> gpio_reach call pin_count t"

lemma gpio_step_wf:
  assumes "\<forall>h s. irq_wf s \<longrightarrow> irq_wf (call h s)"
    and "gpio_step call pin_count s t" and "irq_wf s"
  shows "irq_wf t"
  using assms(2,3)
proof (induction rule: gpio_step.induct)
  case (interrupt h' l' s' t')
  have "irq_wf (s'\<lparr>status := l', status1 := h'\<rparr>)"
    using interrupt.prems by simp
  then show ?case using interrupt.hyps by (rule gpio_external_isr_wf [OF assms(1)])
qed (auto simp: gpio_mode_def pinMode_def gpio_write_def setOpenDrain_def odWrite_def
    intro: attachIrqHandler_wf detachIrqHandler_wf)

text \<open>Property C13. In every state the chip can reach, whatever the order of registrations, mode changes and
  interrupts, the interrupt bookkeeping is well-formed: one allocation at most, enabled once
  allocated, only chip pins armed, only valid trigger types.\<close>

theorem gpio_reach_irq_wf:
  assumes "\<forall>h s. irq_wf s \<longrightarrow> irq_wf (call h s)" and "gpio_reach call pin_count s"
  shows "irq_wf s"
  using assms(2)
  by (induction rule: gpio_reach.induct) (auto intro: irq_wf_reset gpio_step_wf [OF assms(1)])

lemma attach_example:
  "attachIrqHandler 0 3 (Some (7 :: nat)) IrqRising (gpio_reset []) =
     Inr ((gpio_reset [])\<lparr>initialized_irqs := True, intr_allocs := 1, intr_enabled := True,
       isr_handlers := (\<lambda>_. None)(3 := Some 7),
       pin_regs := (\<lambda>_. \<lparr>int_ena = 0, int_type = 0\<rparr>)(3 := \<lparr>int_ena = 4, int_type = 1\<rparr>)\<rparr>)"
  by (simp add: attachIrqHandler_def gpio_reset_def PINS_def set_int_ena_def set_int_type_def
      irq_type_defs Let_def)

theorem gpio_reach_irq_wf_witness:
  "irq_wf ((gpio_reset [] :: (nat, nat list) gpio_soc)
     \<lparr>initialized_irqs := True, intr_allocs := 1, intr_enabled := True,
       isr_handlers := (\<lambda>_. None)(3 := Some 7),
       pin_regs := (\<lambda>_. \<lparr>int_ena = 0, int_type = 0\<rparr>)(3 := \<lparr>int_ena = 4, int_type = 1\<rparr>)\<rparr>)"
proof (rule gpio_reach_irq_wf)
  show "\<forall>h s. irq_wf s \<longrightarrow> irq_wf (log_handler (h :: nat) s)"
    by (simp add: log_handler_def irq_wf_def)
  show "gpio_reach log_handler 40 ((gpio_reset [] :: (nat, nat list) gpio_soc)
     \<lparr>initialized_irqs := True, intr_allocs := 1, intr_enabled := True,
       isr_handlers := (\<lambda>_. None)(3 := Some 7),
       pin_regs := (\<lambda>_. \<lparr>int_ena = 0, int_type = 0\<rparr>)(3 := \<lparr>int_ena = 4, int_type = 1\<rparr>)\<rparr>)"
    by (rule gpio_reach.run [OF gpio_reach.reset gpio_step.attach [OF attach_example]])
qed

subsection \<open>Attach, interrupt, detach\<close>

lemma isr_agenda_single:
  assumes "p < pin_count" and "isr_handlers s p \<noteq> None"
    and "\<And>q. reported s pin_count q \<longleftrightarrow> q = p"
  shows "isr_agenda s pin_count = [p]"
proof -
  have "isr_agenda s pin_count = filter (\<lambda>q. q = p) [0..<pin_count]"
    unfolding isr_agenda_def using assms(2,3) by (intro filter_cong) auto
  also have "\<dots> = [p]"
    using assms(1) by (induction pin_count) (auto simp: less_Suc_eq)
  finally show ?thesis .
qed

text \<open>The pin under attention is the only one the status words report.\<close>

definition only_reports :: "nat \<Rightarrow> 32 word \<Rightarrow> 32 word \<Rightarrow> bool" where
  "only_reports p l h \<longleftrightarrow> (if p < 32 then l = set_bit p 0 \<and> h = 0 else l = 0 \<and> h = set_bit (p - 32) 0)"

lemma only_reports_reported:
  assumes "only_reports p l h" and "p < PINS"
  shows "reported (s\<lparr>status := l, status1 := h\<rparr>) PINS q \<longleftrightarrow> q = p"
  using assms by (auto simp: only_reports_def reported_def PINS_def bit_exp_iff split: if_splits)

text \<open>An interrupt of one pin runs the handler registered for it.\<close>

lemma single_interrupt:
  assumes "keeps_table call" and "p < PINS" and "only_reports p l h" and "isr_handlers s p = Some f"
  shows "gpio_external_isr call PINS (s\<lparr>status := l, status1 := h\<rparr>) =
      Inr (call f (isr_ack (s\<lparr>status := l, status1 := h\<rparr>)))"
proof -
  let ?s = "s\<lparr>status := l, status1 := h\<rparr>"
  have "isr_agenda ?s PINS = [p]"
    using assms(2-4) by (intro isr_agenda_single) (simp_all add: only_reports_reported)
  then show ?thesis
    using isr_dispatch [OF assms(1), of PINS ?s] assms(4) by (simp add: PINS_def isr_call_def isr_ack_def)
qed

text \<open>Property C12. A handler from registration to removal, for handlers that do not re-register handlers.  After
  \<open>attachIrqHandler\<close> has returned for a pin, the pin is armed, and an interrupt of that pin alone runs
  exactly the handler, once, on the acknowledged state.  \<open>detachIrqHandler\<close> then returns with the pin
  disarmed and no other pin's registers changed, but it leaves the handler in the table: a status bit
  of the pin that was latched before, or is reported all the same, still runs the detached handler.\<close>

theorem attach_interrupt_detach:
  assumes "keeps_table call" and "p < PINS" and "only_reports p l h"
    and "attachIrqHandler cpu (int p) (Some f) e s = Inr t"
  shows "gpio_external_isr call PINS (t\<lparr>status := l, status1 := h\<rparr>) =
      Inr (call f (isr_ack (t\<lparr>status := l, status1 := h\<rparr>)))
    \<and> int_ena (pin_regs t p) \<noteq> 0
    \<and> (\<exists>u. detachIrqHandler (int p) t = Inr u \<and> int_ena (pin_regs u p) = 0
         \<and> int_type (pin_regs u p) = IRQ_DISABLED \<and> (\<forall>q. q \<noteq> p \<longrightarrow> pin_regs u q = pin_regs s q)
         \<and> gpio_external_isr call PINS (u\<lparr>status := l, status1 := h\<rparr>) =
             Inr (call f (isr_ack (u\<lparr>status := l, status1 := h\<rparr>))))"
proof -
  have t: "isr_handlers t p = Some f" "initialized_irqs t" "int_ena (pin_regs t p) \<noteq> 0"
    "\<And>q. q \<noteq> p \<Longrightarrow> pin_regs t q = pin_regs s q"
    using assms(4)
    by (auto simp: attachIrqHandler_def Let_def set_int_ena_def set_int_type_def split: if_splits)
  obtain u where u: "detachIrqHandler (int p) t = Inr u" "int_ena (pin_regs u p) = 0"
      "int_type (pin_regs u p) = IRQ_DISABLED" "\<forall>q. q \<noteq> p \<longrightarrow> pin_regs u q = pin_regs s q" "isr_handlers u p = Some f"
    using t assms(2)
    by (simp add: detachIrqHandler_def Let_def set_int_ena_def set_int_type_def)
  with single_interrupt [OF assms(1-3) t(1)] single_interrupt [OF assms(1-3) u(5)] t(3)
  show ?thesis by blast
qed

lemma attach_interrupt_detach_witness:
  "\<exists>t u v. attachIrqHandler 0 3 (Some (7 :: nat)) IrqRising (gpio_reset []) = Inr t
     \<and> detachIrqHandler 3 t = Inr u \<and> int_ena (pin_regs u 3) = 0
     \<and> gpio_external_isr log_handler PINS (u\<lparr>status := 8, status1 := 0\<rparr>) = Inr v \<and> ext_world v = [7]"
proof -
  have r: "(3 :: nat) < PINS" "only_reports 3 8 0" by (simp_all add: PINS_def only_reports_def set_bit_eq_or)
  obtain t where t: "attachIrqHandler 0 3 (Some (7 :: nat)) IrqRising (gpio_reset [] :: (nat, nat list) gpio_soc) = Inr t"
    "ext_world t = []"
    by (rule that [OF attach_example]) (simp add: gpio_reset_def)
  then obtain u where u: "detachIrqHandler 3 t = Inr u" "int_ena (pin_regs u 3) = 0"
    "gpio_external_isr log_handler PINS (u\<lparr>status := 8, status1 := 0\<rparr>) =
       Inr (log_handler 7 (isr_ack (u\<lparr>status := 8, status1 := 0\<rparr>)))"
    using attach_interrupt_detach [OF log_handler_keeps_table r, of 0 7 IrqRising "gpio_reset []" t] by auto
  moreover have "ext_world u = []"
    using u(1) t(2) by (auto simp: detachIrqHandler_def Let_def set_int_ena_def set_int_type_def split: if_splits)
  ultimately show ?thesis
    using t(1) by (intro exI [of _ t] exI [of _ u] exI [of _ "log_handler 7 (isr_ack (u\<lparr>status := 8, status1 := 0\<rparr>))"])
      (simp add: log_handler_def isr_ack_def)
qed

end
