(* ===== verification/Spi_Device.thy ===== *)
theory Spi_Device
  imports Gpio "HOL-Library.While_Combinator"
begin

text \<open>
  The state the SPI driver (\<^verbatim>\<open>esp32/esp32spi.c\<close>) works on: the four controllers of
  \<open>_spi_bus_array\<close> with their registers and mutexes, the calls that leave the driver, and memory.
  The position of each bit-field in its register, the signal numbers and masks of the SDK headers,
  and the hardware behind the registers are parameters, collected in \<open>spi_env\<close>.
\<close>

section \<open>Registers and environment\<close>

record spi_dev =
  cmd :: "32 word"
  ctrl :: "32 word"
  ctrl1 :: "32 word"
  ctrl2 :: "32 word"
  clock :: "32 word"
  user :: "32 word"
  user1 :: "32 word"
  pin :: "32 word"
  slave :: "32 word"
  mosi_dlen :: "32 word"
  miso_dlen :: "32 word"
  data_buf :: "nat \<Rightarrow> 32 word"

text \<open>Bit positions of \<^verbatim>\<open>soc/spi_struct.h\<close>; \<open>n_dbitlen\<close> is the width of the two length fields.\<close>

record spi_layout =
  b_usr :: nat
  b_doutdin :: nat
  b_cs_hold :: nat
  b_cs_setup :: nat
  b_ck_out_edge :: nat
  b_usr_miso :: nat
  b_usr_mosi :: nat
  b_rd_bit_order :: nat
  b_wr_bit_order :: nat
  b_ck_idle_edge :: nat
  b_cs_keep_active :: nat
  b_trans_done :: nat
  b_slave_mode :: nat
  n_dbitlen :: nat

text \<open>Signal numbers of \<^verbatim>\<open>soc/gpio_sig_map.h\<close>, masks and registers of \<^verbatim>\<open>soc/dport_reg.h\<close>.\<close>

record spi_sdk =
  SPICLK_OUT_IDX :: nat
  HSPICLK_OUT_IDX :: nat
  VSPICLK_OUT_IDX :: nat
  SPIQ_OUT_IDX :: nat
  HSPIQ_OUT_IDX :: nat
  VSPIQ_OUT_IDX :: nat
  SPID_IN_IDX :: nat
  HSPID_IN_IDX :: nat
  VSPID_IN_IDX :: nat
  SPICS_OUT_IDX :: "nat \<Rightarrow> nat"
  HSPICS_OUT_IDX :: "nat \<Rightarrow> nat"
  VSPICS_OUT_IDX :: "nat \<Rightarrow> nat"
  DPORT_PERIP_CLK_EN_REG :: nat
  DPORT_PERIP_RST_EN_REG :: nat
  DPORT_SPI_CLK_EN :: "32 word"
  DPORT_SPI_CLK_EN_1 :: "32 word"
  DPORT_SPI_CLK_EN_2 :: "32 word"
  DPORT_SPI_RST :: "32 word"
  DPORT_SPI_RST_1 :: "32 word"
  DPORT_SPI_RST_2 :: "32 word"

text \<open>
  The hardware: \<open>ctrl_tick n\<close> is what controller \<open>n\<close> does between two reads of its registers (the
  rest of the world, peripherals included, is \<open>'h\<close>); \<open>mutex_create\<close> is
  \<open>xSemaphoreCreateMutex\<close>, which may fail.
\<close>

record 'h spi_env =
  layout :: spi_layout
  sdk :: spi_sdk
  ctrl_tick :: "nat \<Rightarrow> spi_dev \<times> 'h \<Rightarrow> spi_dev \<times> 'h"
  mutex_create :: "'h \<Rightarrow> bool \<times> 'h"

definition layout_ok :: "spi_layout \<Rightarrow> bool" where
  "layout_ok L \<longleftrightarrow>
     b_usr L < 32
     \<and> distinct [b_doutdin L, b_cs_hold L, b_cs_setup L, b_ck_out_edge L, b_usr_miso L, b_usr_mosi L]
     \<and> (\<forall>b \<in> {b_doutdin L, b_cs_hold L, b_cs_setup L, b_ck_out_edge L, b_usr_miso L, b_usr_mosi L}. b < 32)
     \<and> b_rd_bit_order L \<noteq> b_wr_bit_order L \<and> b_rd_bit_order L < 32 \<and> b_wr_bit_order L < 32
     \<and> b_ck_idle_edge L \<noteq> b_cs_keep_active L
     \<and> 2 < b_ck_idle_edge L \<and> b_ck_idle_edge L < 32 \<and> 2 < b_cs_keep_active L \<and> b_cs_keep_active L < 32
     \<and> b_trans_done L \<noteq> b_slave_mode L \<and> b_trans_done L < 32 \<and> b_slave_mode L < 32
     \<and> 9 \<le> n_dbitlen L \<and> n_dbitlen L < 32"

section \<open>Driver state\<close>

datatype spi_fault =
    NullMutex        \<comment> \<open>mutex macro on a bus whose mutex was never created\<close>
  | MutexDeadlock    \<comment> \<open>the calling task already holds the mutex and waits for ever\<close>
  | ControllerHang   \<comment> \<open>the busy-wait on \<open>cmd.usr\<close> never ends\<close>
  | FifoOverrun      \<comment> \<open>\<open>data_buf\<close> indexed past its 16 words\<close>
  | NullBuffer       \<comment> \<open>a NULL data buffer is dereferenced\<close>
  | NullBus          \<comment> \<open>a NULL \<open>spi_t\<close> is dereferenced\<close>

datatype dport_call = DPORT_SET_PERI_REG_MASK nat "32 word" | DPORT_CLEAR_PERI_REG_MASK nat "32 word"

text \<open>An element of \<open>_spi_bus_array\<close>: \<open>lock\<close> is \<open>None\<close> for NULL, otherwise whether it is taken.  Its
  \<open>num\<close> member is its index, and \<open>dev\<close> always points to the registers of that controller.\<close>

record spi_bus =
  dev :: spi_dev
  lock :: "bool option"

record 'h spi_state =
  buses :: "nat \<Rightarrow> spi_bus"
  gpio_calls :: "gpio_call list"
  dport_calls :: "dport_call list"
  mem :: memory
  hw :: 'h

text \<open>A \<open>spi_t *\<close>: NULL or the address of an element of the array.\<close>

type_synonym spi_ptr = "nat option"

definition upd_dev :: "nat \<Rightarrow> (spi_dev \<Rightarrow> spi_dev) \<Rightarrow> 'h spi_state \<Rightarrow> 'h spi_state" where
  "upd_dev n f s = s\<lparr>buses := (buses s)(n := (buses s n)\<lparr>dev := f (dev (buses s n))\<rparr>)\<rparr>"

definition set_lock :: "nat \<Rightarrow> bool option \<Rightarrow> 'h spi_state \<Rightarrow> 'h spi_state" where
  "set_lock n l s = s\<lparr>buses := (buses s)(n := (buses s n)\<lparr>lock := l\<rparr>)\<rparr>"

abbreviation dev_at :: "'h spi_state \<Rightarrow> nat \<Rightarrow> spi_dev" where
  "dev_at s n \<equiv> dev (buses s n)"

abbreviation lock_at :: "'h spi_state \<Rightarrow> nat \<Rightarrow> bool option" where
  "lock_at s n \<equiv> lock (buses s n)"

section \<open>Statements\<close>

text \<open>\<open>SPI_MUTEX_LOCK\<close> and \<open>SPI_MUTEX_UNLOCK\<close>.\<close>

definition mutex_lock :: "nat \<Rightarrow> (spi_fault, 'h spi_state) step" where
  "mutex_lock n s = (case lock_at s n of
       None \<Rightarrow> Inl NullMutex
     | Some True \<Rightarrow> Inl MutexDeadlock
     | Some False \<Rightarrow> Inr (set_lock n (Some True) s))"

definition mutex_unlock :: "nat \<Rightarrow> (spi_fault, 'h spi_state) step" where
  "mutex_unlock n s = (case lock_at s n of
       None \<Rightarrow> Inl NullMutex
     | Some b \<Rightarrow> Inr (set_lock n (Some False) s))"

text \<open>Register writes.\<close>

definition reg :: "nat \<Rightarrow> (spi_dev \<Rightarrow> spi_dev) \<Rightarrow> (spi_fault, 'h spi_state) step" where
  "reg n f s = Inr (upd_dev n f s)"

definition set_mosi_dlen :: "'h spi_env \<Rightarrow> nat \<Rightarrow> 32 word \<Rightarrow> (spi_fault, 'h spi_state) step" where
  "set_mosi_dlen E n v = reg n (\<lambda>d. d\<lparr>mosi_dlen := put_low (n_dbitlen (layout E)) v (mosi_dlen d)\<rparr>)"

definition set_miso_dlen :: "'h spi_env \<Rightarrow> nat \<Rightarrow> 32 word \<Rightarrow> (spi_fault, 'h spi_state) step" where
  "set_miso_dlen E n v = reg n (\<lambda>d. d\<lparr>miso_dlen := put_low (n_dbitlen (layout E)) v (miso_dlen d)\<rparr>)"

definition fifo_put :: "nat \<Rightarrow> nat \<Rightarrow> 32 word \<Rightarrow> (spi_fault, 'h spi_state) step" where
  "fifo_put n i w s =
     (if i < 16 then Inr (upd_dev n (\<lambda>d. d\<lparr>data_buf := (data_buf d)(i := w)\<rparr>) s)
      else Inl FifoOverrun)"

definition set_usr :: "'h spi_env \<Rightarrow> nat \<Rightarrow> (spi_fault, 'h spi_state) step" where
  "set_usr E n = reg n (\<lambda>d. d\<lparr>cmd := put_bit (b_usr (layout E)) True (cmd d)\<rparr>)"

text \<open>\<^verbatim>\<open>while(spi->dev->cmd.usr);\<close> -- \<open>None\<close> when the bit never clears.\<close>

definition usr_wait ::
  "(spi_dev \<times> 'h \<Rightarrow> spi_dev \<times> 'h) \<Rightarrow> nat \<Rightarrow> spi_dev \<times> 'h \<Rightarrow> (spi_dev \<times> 'h) option" where
  "usr_wait tick b = while_option (\<lambda>x. bit (cmd (fst x)) b) tick"

definition wait_usr :: "'h spi_env \<Rightarrow> nat \<Rightarrow> (spi_fault, 'h spi_state) step" where
  "wait_usr E n s =
     (case usr_wait (ctrl_tick E n) (b_usr (layout E)) (dev_at s n, hw s) of
        None \<Rightarrow> Inl ControllerHang
      | Some (d, h) \<Rightarrow> Inr ((upd_dev n (\<lambda>_. d) s)\<lparr>hw := h\<rparr>))"

text \<open>\<^verbatim>\<open>for(i=0; i<k; i++) spi->dev->data_buf[i] = f(i);\<close>\<close>

definition fifo_fill :: "nat \<Rightarrow> nat \<Rightarrow> (memory \<Rightarrow> nat \<Rightarrow> 32 word) \<Rightarrow> (spi_fault, 'h spi_state) step" where
  "fifo_fill n k f = exec (map (\<lambda>i s. fifo_put n i (f (mem s) i) s) [0..<k])"

definition store :: "nat \<Rightarrow> byte list \<Rightarrow> 'h spi_state \<Rightarrow> 'h spi_state" where
  "store a bs s = s\<lparr>mem := mem_store (mem s) a bs\<rparr>"

section \<open>Lemmas\<close>

lemma upd_dev_simps [simp, stmt]:
  "dev_at (upd_dev n f s) m = (if m = n then f (dev_at s n) else dev_at s m)"
  "lock_at (upd_dev n f s) m = lock_at s m"
  "gpio_calls (upd_dev n f s) = gpio_calls s" "dport_calls (upd_dev n f s) = dport_calls s"
  "mem (upd_dev n f s) = mem s" "hw (upd_dev n f s) = hw s"
  by (simp_all add: upd_dev_def)

lemma set_lock_simps [simp, stmt]:
  "dev_at (set_lock n l s) m = dev_at s m"
  "lock_at (set_lock n l s) m = (if m = n then l else lock_at s m)"
  "gpio_calls (set_lock n l s) = gpio_calls s" "dport_calls (set_lock n l s) = dport_calls s"
  "mem (set_lock n l s) = mem s" "hw (set_lock n l s) = hw s"
  by (simp_all add: set_lock_def)

lemma store_simps [simp, stmt]:
  "buses (store a bs s) = buses s" "gpio_calls (store a bs s) = gpio_calls s"
  "dport_calls (store a bs s) = dport_calls s" "hw (store a bs s) = hw s"
  "mem (store a bs s) = mem_store (mem s) a bs"
  by (simp_all add: store_def)

lemma upd_dev_upd_dev [simp, stmt]: "upd_dev n f (upd_dev n g s) = upd_dev n (f \<circ> g) s"
  by (simp add: upd_dev_def)

lemma upd_dev_eqI: "f (dev_at s n) = g (dev_at s n) \<Longrightarrow> upd_dev n f s = upd_dev n g s"
  by (simp add: upd_dev_def)

lemma upd_dev_set_lock: "upd_dev n f (set_lock n l s) = set_lock n l (upd_dev n f s)"
  by (auto simp: upd_dev_def set_lock_def intro!: spi_state.equality spi_bus.equality)

lemma set_lock_set_lock [simp, stmt]: "set_lock n k (set_lock n l s) = set_lock n k s"
  by (simp add: set_lock_def)

lemma set_lock_same: "lock_at s n = l \<Longrightarrow> set_lock n l s = s"
  by (auto simp: set_lock_def)

lemma set_lock_hw: "set_lock n l (s\<lparr>hw := h\<rparr>) = (set_lock n l s)\<lparr>hw := h\<rparr>"
  by (simp add: set_lock_def)

lemma upd_dev_hw: "upd_dev n f (s\<lparr>hw := h\<rparr>) = (upd_dev n f s)\<lparr>hw := h\<rparr>"
  by (simp add: upd_dev_def)

lemma reg_step [stmt]: "reg n f s = Inr (upd_dev n f s)"
  by (simp add: reg_def)

lemmas dlen_steps [stmt] = set_mosi_dlen_def set_miso_dlen_def set_usr_def

lemma fifo_put_step [stmt]:
  "i < 16 \<Longrightarrow> fifo_put n i w s = Inr (upd_dev n (\<lambda>d. d\<lparr>data_buf := (data_buf d)(i := w)\<rparr>) s)"
  by (simp add: fifo_put_def)

lemma mutex_lock_free [stmt]: "lock_at s n = Some False \<Longrightarrow> mutex_lock n s = Inr (set_lock n (Some True) s)"
  by (simp add: mutex_lock_def)

lemma mutex_unlock_held [stmt]: "lock_at s n = Some b \<Longrightarrow> mutex_unlock n s = Inr (set_lock n (Some False) s)"
  by (simp add: mutex_unlock_def)

lemma prefix_upd:
  "(\<lambda>i. if i < k then g i else h i)(k := g k) = (\<lambda>i. if i < Suc k then g i else h i)"
  for k :: nat
  by (auto simp: fun_eq_iff less_Suc_eq)

text \<open>The loop that fills the FIFO never leaves it when \<open>k \<le> 16\<close>, and writes exactly words \<open>0..<k\<close>.\<close>

lemma fifo_fill_step [stmt]:
  assumes "k \<le> 16"
  shows "fifo_fill n k f s =
    Inr (upd_dev n (\<lambda>d. d\<lparr>data_buf := (\<lambda>i. if i < k then f (mem s) i else data_buf d i)\<rparr>) s)"
  using assms
proof (induction k)
  case 0
  then show ?case by (simp add: fifo_fill_def upd_dev_def)
next
  case (Suc k)
  have "fifo_fill n (Suc k) f s =
      bindr (fifo_fill n k f s) (\<lambda>s. fifo_put n k (f (mem s) k) s)"
    by (simp add: fifo_fill_def exec_append)
  also have "\<dots> = Inr (upd_dev n
      (\<lambda>d. d\<lparr>data_buf := (\<lambda>i. if i < k then f (mem s) i else data_buf d i)(k := f (mem s) k)\<rparr>) s)"
    using Suc by (simp add: fifo_put_step comp_def)
  also have "\<dots> = Inr (upd_dev n
      (\<lambda>d. d\<lparr>data_buf := (\<lambda>i. if i < Suc k then f (mem s) i else data_buf d i)\<rparr>) s)"
    by (simp only: prefix_upd)
  finally show ?case .
qed

section \<open>The documented controller\<close>

text \<open>
  What the hardware manual promises: once \<open>cmd.usr\<close> is set the controller finishes the transaction,
  clears the bit, leaves the received data in the FIFO and changes no other register.  \<open>xact\<close> gives
  the FIFO and the world after the transaction.
\<close>

definition controller_ok ::
  "'h spi_env \<Rightarrow> (nat \<Rightarrow> spi_dev \<Rightarrow> 'h \<Rightarrow> (nat \<Rightarrow> 32 word) \<times> 'h) \<Rightarrow> bool" where
  "controller_ok E xact \<longleftrightarrow> (\<forall>n d h. bit (cmd d) (b_usr (layout E)) \<longrightarrow>
     usr_wait (ctrl_tick E n) (b_usr (layout E)) (d, h) =
       Some (d\<lparr>cmd := put_bit (b_usr (layout E)) False (cmd d), data_buf := fst (xact n d h)\<rparr>,
             snd (xact n d h)))"

lemma wait_usr_step [stmt]:
  assumes "controller_ok E xact" and "bit (cmd (dev_at s n)) (b_usr (layout E))"
  shows "wait_usr E n s =
    Inr ((upd_dev n (\<lambda>d. d\<lparr>cmd := put_bit (b_usr (layout E)) False (cmd d),
                          data_buf := fst (xact n (dev_at s n) (hw s))\<rparr>) s)
           \<lparr>hw := snd (xact n (dev_at s n) (hw s))\<rparr>)"
  using assms by (simp add: controller_ok_def wait_usr_def upd_dev_def)

text \<open>A controller that never clears the bit keeps the driver in the wait loop.\<close>

lemma usr_wait_stuck:
  assumes "\<And>x. bit (cmd (fst x)) b \<Longrightarrow> bit (cmd (fst (tick x))) b" and "bit (cmd (fst x)) b"
  shows "usr_wait tick b x = None"
proof (cases "usr_wait tick b x")
  case (Some y)
  then have y: "while_option (\<lambda>x. bit (cmd (fst x)) b) tick x = Some y"
    by (simp add: usr_wait_def)
  have "bit (cmd (fst y)) b"
    by (rule while_option_rule [OF _ y]) (use assms in auto)
  with while_option_stop [OF y] show ?thesis by simp
qed simp

lemma usr_wait_unfold:
  "usr_wait tick b x = (if bit (cmd (fst x)) b then usr_wait tick b (tick x) else Some x)"
  unfolding usr_wait_def by (rule while_option_unfold)

end
