(* ===== verification/Spi_Config.thy ===== *)
theory Spi_Config
  imports Spi_Device
begin

text \<open>
  Configuration of an SPI bus (\<^verbatim>\<open>esp32/esp32spi.c\<close>): routing of its signals to pins, chip-select
  control, clock, data mode and bit order, start and stop of a bus and the lock-holding transaction
  calls.  Every function first checks its \<open>spi_t\<close> pointer and does nothing for NULL.
\<close>

section \<open>Pin matrix\<close>

definition HSPI :: nat where "HSPI = 2"
definition VSPI :: nat where "VSPI = 3"

definition MATRIX_DETACH_OUT_SIG :: "32 word" where "MATRIX_DETACH_OUT_SIG = 0x100"
definition MATRIX_DETACH_IN_LOW_PIN :: "32 word" where "MATRIX_DETACH_IN_LOW_PIN = 0x30"
definition MATRIX_DETACH_IN_LOW_HIGH :: "32 word" where "MATRIX_DETACH_IN_LOW_HIGH = 0x38"

definition emit :: "gpio_call list \<Rightarrow> (spi_fault, 'h spi_state) step" where
  "emit cs s = Inr (s\<lparr>gpio_calls := gpio_calls s @ cs\<rparr>)"

definition pinMatrixOutAttach :: "8 word \<Rightarrow> 8 word \<Rightarrow> bool \<Rightarrow> bool \<Rightarrow> gpio_call list" where
  "pinMatrixOutAttach p f invertOut invertEnable = [gpio_matrix_out (ucast p) (ucast f) invertOut invertEnable]"

definition pinMatrixOutDetach :: "8 word \<Rightarrow> bool \<Rightarrow> bool \<Rightarrow> gpio_call list" where
  "pinMatrixOutDetach p invertOut invertEnable =
     [gpio_matrix_out (ucast p) MATRIX_DETACH_OUT_SIG invertOut invertEnable]"

definition pinMatrixInAttach :: "8 word \<Rightarrow> 8 word \<Rightarrow> bool \<Rightarrow> gpio_call list" where
  "pinMatrixInAttach p signal inverted = [gpio_matrix_in (ucast p) (ucast signal) inverted]"

definition pinMatrixInDetach :: "8 word \<Rightarrow> bool \<Rightarrow> bool \<Rightarrow> gpio_call list" where
  "pinMatrixInDetach signal high inverted =
     [gpio_matrix_in (if high then MATRIX_DETACH_IN_LOW_HIGH else MATRIX_DETACH_IN_LOW_PIN)
        (ucast signal) inverted]"

definition SPI_CLK_IDX :: "spi_sdk \<Rightarrow> nat \<Rightarrow> nat" where
  "SPI_CLK_IDX K p = (if p = 0 then SPICLK_OUT_IDX K else if p = 1 then SPICLK_OUT_IDX K
     else if p = 2 then HSPICLK_OUT_IDX K else if p = 3 then VSPICLK_OUT_IDX K else 0)"

definition SPI_MISO_IDX :: "spi_sdk \<Rightarrow> nat \<Rightarrow> nat" where
  "SPI_MISO_IDX K p = (if p = 0 then SPIQ_OUT_IDX K else if p = 1 then SPIQ_OUT_IDX K
     else if p = 2 then HSPIQ_OUT_IDX K else if p = 3 then VSPIQ_OUT_IDX K else 0)"

definition SPI_MOSI_IDX :: "spi_sdk \<Rightarrow> nat \<Rightarrow> nat" where
  "SPI_MOSI_IDX K p = (if p = 0 then SPID_IN_IDX K else if p = 1 then SPID_IN_IDX K
     else if p = 2 then HSPID_IN_IDX K else if p = 3 then VSPID_IN_IDX K else 0)"

definition cs_idx :: "(nat \<Rightarrow> nat) \<Rightarrow> nat \<Rightarrow> nat" where
  \<comment> \<open>\<open>SPI_SPI_SS_IDX\<close>, \<open>SPI_HSPI_SS_IDX\<close>, \<open>SPI_VSPI_SS_IDX\<close>\<close>
  "cs_idx out_idx n = (if n = 0 then out_idx 0 else if n = 1 then out_idx 1
     else if n = 2 then out_idx 2 else out_idx 0)"

definition SPI_SS_IDX :: "spi_sdk \<Rightarrow> nat \<Rightarrow> nat \<Rightarrow> nat" where
  "SPI_SS_IDX K p n = (if p = 0 then cs_idx (SPICS_OUT_IDX K) n
     else if p = 1 then cs_idx (SPICS_OUT_IDX K) n
     else if p = 2 then cs_idx (HSPICS_OUT_IDX K) n
     else if p = 3 then cs_idx (VSPICS_OUT_IDX K) n else 0)"

text \<open>A negative pin argument selects the default pin of the bus.\<close>

definition pin_or_default :: "8 word \<Rightarrow> 8 word \<Rightarrow> 8 word \<Rightarrow> nat \<Rightarrow> 8 word \<Rightarrow> 8 word" where
  "pin_or_default hspi vspi other n p =
     (if sint p < 0 then (if n = HSPI then hspi else if n = VSPI then vspi else other) else p)"

definition sck_pin :: "nat \<Rightarrow> 8 word \<Rightarrow> 8 word" where
  "sck_pin n sck = pin_or_default 14 18 6 n sck"

definition miso_pin :: "nat \<Rightarrow> 8 word \<Rightarrow> 8 word" where
  "miso_pin n miso = pin_or_default 12 19 7 n miso"

definition mosi_pin :: "nat \<Rightarrow> 8 word \<Rightarrow> 8 word" where
  "mosi_pin n mosi = pin_or_default 13 23 8 n mosi"

definition ss_pin :: "nat \<Rightarrow> 8 word \<Rightarrow> 8 word" where
  "ss_pin n ss = pin_or_default 15 5 11 n ss"

section \<open>Attaching and detaching signals\<close>

definition locked :: "nat \<Rightarrow> (spi_fault, 'h spi_state) step list \<Rightarrow> (spi_fault, 'h spi_state) step" where
  "locked n cs = exec (mutex_lock n # cs @ [mutex_unlock n])"

definition spiAttachSCK :: "'h spi_env \<Rightarrow> spi_ptr \<Rightarrow> 8 word \<Rightarrow> (spi_fault, 'h spi_state) step" where
  "spiAttachSCK E spi sck = (case spi of None \<Rightarrow> Inr | Some n \<Rightarrow>
     let sck = sck_pin n sck in
     exec [emit (pinMode_calls (sint sck) RAW_OUTPUT),
           emit (pinMatrixOutAttach sck (of_nat (SPI_CLK_IDX (sdk E) n)) False False)])"

definition spiAttachMISO :: "'h spi_env \<Rightarrow> spi_ptr \<Rightarrow> 8 word \<Rightarrow> (spi_fault, 'h spi_state) step" where
  "spiAttachMISO E spi miso = (case spi of None \<Rightarrow> Inr | Some n \<Rightarrow>
     let miso = miso_pin n miso in
     locked n [emit (pinMode_calls (sint miso) RAW_INPUT),
               emit (pinMatrixInAttach miso (of_nat (SPI_MISO_IDX (sdk E) n)) False)])"

definition spiAttachMOSI :: "'h spi_env \<Rightarrow> spi_ptr \<Rightarrow> 8 word \<Rightarrow> (spi_fault, 'h spi_state) step" where
  "spiAttachMOSI E spi mosi = (case spi of None \<Rightarrow> Inr | Some n \<Rightarrow>
     let mosi = mosi_pin n mosi in
     exec [emit (pinMode_calls (sint mosi) RAW_OUTPUT),
           emit (pinMatrixOutAttach mosi (of_nat (SPI_MOSI_IDX (sdk E) n)) False False)])"

definition spiDetachSCK :: "'h spi_env \<Rightarrow> spi_ptr \<Rightarrow> 8 word \<Rightarrow> (spi_fault, 'h spi_state) step" where
  "spiDetachSCK E spi sck = (case spi of None \<Rightarrow> Inr | Some n \<Rightarrow>
     let sck = sck_pin n sck in
     exec [emit (pinMatrixOutDetach sck False False),
           emit (pinMode_calls (sint sck) RAW_INPUT)])"

definition spiDetachMISO :: "'h spi_env \<Rightarrow> spi_ptr \<Rightarrow> 8 word \<Rightarrow> (spi_fault, 'h spi_state) step" where
  "spiDetachMISO E spi miso = (case spi of None \<Rightarrow> Inr | Some n \<Rightarrow>
     let miso = miso_pin n miso in
     exec [emit (pinMatrixInDetach (of_nat (SPI_MISO_IDX (sdk E) n)) False False),
           emit (pinMode_calls (sint miso) RAW_INPUT)])"

definition spiDetachMOSI :: "'h spi_env \<Rightarrow> spi_ptr \<Rightarrow> 8 word \<Rightarrow> (spi_fault, 'h spi_state) step" where
  "spiDetachMOSI E spi mosi = (case spi of None \<Rightarrow> Inr | Some n \<Rightarrow>
     let mosi = mosi_pin n mosi in
     exec [emit (pinMatrixOutDetach mosi False False),
           emit (pinMode_calls (sint mosi) RAW_INPUT)])"

section \<open>Chip select\<close>

definition SPI_CS_MASK_ALL :: "32 word" where "SPI_CS_MASK_ALL = 0x7"

definition spiEnableSSPins :: "spi_ptr \<Rightarrow> 8 word \<Rightarrow> (spi_fault, 'h spi_state) step" where
  "spiEnableSSPins spi cs_mask = (case spi of None \<Rightarrow> Inr | Some n \<Rightarrow>
     locked n [reg n (\<lambda>d. d\<lparr>pin := pin d AND NOT (ucast cs_mask AND SPI_CS_MASK_ALL)\<rparr>)])"

definition spiDisableSSPins :: "spi_ptr \<Rightarrow> 8 word \<Rightarrow> (spi_fault, 'h spi_state) step" where
  "spiDisableSSPins spi cs_mask = (case spi of None \<Rightarrow> Inr | Some n \<Rightarrow>
     locked n [reg n (\<lambda>d. d\<lparr>pin := pin d OR (ucast cs_mask AND SPI_CS_MASK_ALL)\<rparr>)])"

definition spiAttachSS :: "'h spi_env \<Rightarrow> spi_ptr \<Rightarrow> 8 word \<Rightarrow> 8 word \<Rightarrow> (spi_fault, 'h spi_state) step" where
  "spiAttachSS E spi cs_num ss = (case spi of None \<Rightarrow> Inr | Some n \<Rightarrow>
     if cs_num > 2 then Inr else
     let cs_num = (if sint ss < 0 then 0 else cs_num); ss = ss_pin n ss in
     exec [emit (pinMode_calls (sint ss) RAW_OUTPUT),
           emit (pinMatrixOutAttach ss (of_nat (SPI_SS_IDX (sdk E) n (unat cs_num))) False False),
           spiEnableSSPins spi (push_bit (unat cs_num) 1)])"

definition spiDetachSS :: "'h spi_env \<Rightarrow> spi_ptr \<Rightarrow> 8 word \<Rightarrow> (spi_fault, 'h spi_state) step" where
  "spiDetachSS E spi ss = (case spi of None \<Rightarrow> Inr | Some n \<Rightarrow>
     let ss = ss_pin n ss in
     exec [emit (pinMatrixOutDetach ss False False),
           emit (pinMode_calls (sint ss) RAW_INPUT)])"

definition spiSSEnable :: "'h spi_env \<Rightarrow> spi_ptr \<Rightarrow> (spi_fault, 'h spi_state) step" where
  "spiSSEnable E spi = (case spi of None \<Rightarrow> Inr | Some n \<Rightarrow>
     locked n [reg n (\<lambda>d. d\<lparr>user := put_bit (b_cs_setup (layout E)) True (user d)\<rparr>),
               reg n (\<lambda>d. d\<lparr>user := put_bit (b_cs_hold (layout E)) True (user d)\<rparr>)])"

definition spiSSDisable :: "'h spi_env \<Rightarrow> spi_ptr \<Rightarrow> (spi_fault, 'h spi_state) step" where
  "spiSSDisable E spi = (case spi of None \<Rightarrow> Inr | Some n \<Rightarrow>
     locked n [reg n (\<lambda>d. d\<lparr>user := put_bit (b_cs_setup (layout E)) False (user d)\<rparr>),
               reg n (\<lambda>d. d\<lparr>user := put_bit (b_cs_hold (layout E)) False (user d)\<rparr>)])"

definition spiSSSet :: "'h spi_env \<Rightarrow> spi_ptr \<Rightarrow> (spi_fault, 'h spi_state) step" where
  "spiSSSet E spi = (case spi of None \<Rightarrow> Inr | Some n \<Rightarrow>
     locked n [reg n (\<lambda>d. d\<lparr>pin := put_bit (b_cs_keep_active (layout E)) True (pin d)\<rparr>)])"

definition spiSSClear :: "'h spi_env \<Rightarrow> spi_ptr \<Rightarrow> (spi_fault, 'h spi_state) step" where
  "spiSSClear E spi = (case spi of None \<Rightarrow> Inr | Some n \<Rightarrow>
     locked n [reg n (\<lambda>d. d\<lparr>pin := put_bit (b_cs_keep_active (layout E)) False (pin d)\<rparr>)])"

section \<open>Clock, data mode, bit order\<close>

definition SPI_MODE0 :: "8 word" where "SPI_MODE0 = 0"
definition SPI_MODE1 :: "8 word" where "SPI_MODE1 = 1"
definition SPI_MODE2 :: "8 word" where "SPI_MODE2 = 2"
definition SPI_MODE3 :: "8 word" where "SPI_MODE3 = 3"
definition SPI_LSBFIRST :: "8 word" where "SPI_LSBFIRST = 0"
definition SPI_MSBFIRST :: "8 word" where "SPI_MSBFIRST = 1"

definition spiGetClockDiv :: "spi_ptr \<Rightarrow> 'h spi_state \<Rightarrow> 32 word" where
  "spiGetClockDiv spi s = (case spi of None \<Rightarrow> 0 | Some n \<Rightarrow> clock (dev_at s n))"

definition spiSetClockDiv :: "spi_ptr \<Rightarrow> 32 word \<Rightarrow> (spi_fault, 'h spi_state) step" where
  "spiSetClockDiv spi clockDiv = (case spi of None \<Rightarrow> Inr | Some n \<Rightarrow>
     locked n [reg n (\<lambda>d. d\<lparr>clock := clockDiv\<rparr>)])"

definition spiGetDataMode :: "'h spi_env \<Rightarrow> spi_ptr \<Rightarrow> 'h spi_state \<Rightarrow> 8 word" where
  "spiGetDataMode E spi s = (case spi of None \<Rightarrow> 0 | Some n \<Rightarrow>
     let idleEdge = bit (pin (dev_at s n)) (b_ck_idle_edge (layout E));
         outEdge = bit (user (dev_at s n)) (b_ck_out_edge (layout E))
     in if idleEdge then (if outEdge then SPI_MODE2 else SPI_MODE3)
        else if outEdge then SPI_MODE1 else SPI_MODE0)"

text \<open>The \<open>switch\<close> on the data mode, which \<open>spiSetDataMode\<close> and \<open>spiTransaction\<close> share: first
  \<open>pin.ck_idle_edge\<close>, then \<open>user.ck_out_edge\<close>.\<close>

definition set_edges :: "'h spi_env \<Rightarrow> nat \<Rightarrow> bool \<Rightarrow> bool \<Rightarrow> (spi_fault, 'h spi_state) step list" where
  "set_edges E n idle out_edge =
     [reg n (\<lambda>d. d\<lparr>pin := put_bit (b_ck_idle_edge (layout E)) idle (pin d)\<rparr>),
      reg n (\<lambda>d. d\<lparr>user := put_bit (b_ck_out_edge (layout E)) out_edge (user d)\<rparr>)]"

definition mode_switch :: "'h spi_env \<Rightarrow> nat \<Rightarrow> 8 word \<Rightarrow> (spi_fault, 'h spi_state) step list" where
  "mode_switch E n dataMode =
     (if dataMode = SPI_MODE1 then set_edges E n False True
      else if dataMode = SPI_MODE2 then set_edges E n True True
      else if dataMode = SPI_MODE3 then set_edges E n True False
      else set_edges E n False False)"

definition set_orders :: "'h spi_env \<Rightarrow> nat \<Rightarrow> bool \<Rightarrow> (spi_fault, 'h spi_state) step list" where
  "set_orders E n b =
     [reg n (\<lambda>d. d\<lparr>ctrl := put_bit (b_wr_bit_order (layout E)) b (ctrl d)\<rparr>),
      reg n (\<lambda>d. d\<lparr>ctrl := put_bit (b_rd_bit_order (layout E)) b (ctrl d)\<rparr>)]"

definition order_switch :: "'h spi_env \<Rightarrow> nat \<Rightarrow> 8 word \<Rightarrow> (spi_fault, 'h spi_state) step list" where
  "order_switch E n bitOrder =
     (if SPI_MSBFIRST = bitOrder then set_orders E n False
      else if SPI_LSBFIRST = bitOrder then set_orders E n True
      else [])"

definition spiSetDataMode :: "'h spi_env \<Rightarrow> spi_ptr \<Rightarrow> 8 word \<Rightarrow> (spi_fault, 'h spi_state) step" where
  "spiSetDataMode E spi dataMode = (case spi of None \<Rightarrow> Inr | Some n \<Rightarrow>
     locked n (mode_switch E n dataMode))"

definition spiGetBitOrder :: "'h spi_env \<Rightarrow> spi_ptr \<Rightarrow> 'h spi_state \<Rightarrow> 8 word" where
  "spiGetBitOrder E spi s = (case spi of None \<Rightarrow> 0 | Some n \<Rightarrow>
     if bit (ctrl (dev_at s n)) (b_wr_bit_order (layout E))
        \<or> bit (ctrl (dev_at s n)) (b_rd_bit_order (layout E)) then 0 else 1)"

definition spiSetBitOrder :: "'h spi_env \<Rightarrow> spi_ptr \<Rightarrow> 8 word \<Rightarrow> (spi_fault, 'h spi_state) step" where
  "spiSetBitOrder E spi bitOrder = (case spi of None \<Rightarrow> Inr | Some n \<Rightarrow>
     locked n (order_switch E n bitOrder))"

section \<open>Stopping and starting a bus\<close>

definition spiStopBus :: "'h spi_env \<Rightarrow> spi_ptr \<Rightarrow> (spi_fault, 'h spi_state) step" where
  "spiStopBus E spi = (case spi of None \<Rightarrow> Inr | Some n \<Rightarrow>
     locked n
      [reg n (\<lambda>d. d\<lparr>slave := put_bit (b_trans_done (layout E)) False (slave d)\<rparr>),
       reg n (\<lambda>d. d\<lparr>slave := put_bit (b_slave_mode (layout E)) False (slave d)\<rparr>),
       reg n (\<lambda>d. d\<lparr>pin := 0\<rparr>),
       reg n (\<lambda>d. d\<lparr>user := 0\<rparr>),
       reg n (\<lambda>d. d\<lparr>user1 := 0\<rparr>),
       reg n (\<lambda>d. d\<lparr>ctrl := 0\<rparr>),
       reg n (\<lambda>d. d\<lparr>ctrl1 := 0\<rparr>),
       reg n (\<lambda>d. d\<lparr>ctrl2 := 0\<rparr>),
       reg n (\<lambda>d. d\<lparr>clock := 0\<rparr>)])"

definition dport :: "dport_call list \<Rightarrow> (spi_fault, 'h spi_state) step" where
  "dport cs s = Inr (s\<lparr>dport_calls := dport_calls s @ cs\<rparr>)"

text \<open>Which peripheral clock and reset bits belong to a bus.\<close>

definition bus_dport :: "spi_sdk \<Rightarrow> nat \<Rightarrow> dport_call list" where
  "bus_dport K n =
     (if n = HSPI then
        [DPORT_SET_PERI_REG_MASK (DPORT_PERIP_CLK_EN_REG K) (DPORT_SPI_CLK_EN K),
         DPORT_CLEAR_PERI_REG_MASK (DPORT_PERIP_RST_EN_REG K) (DPORT_SPI_RST K)]
      else if n = VSPI then
        [DPORT_SET_PERI_REG_MASK (DPORT_PERIP_CLK_EN_REG K) (DPORT_SPI_CLK_EN_2 K),
         DPORT_CLEAR_PERI_REG_MASK (DPORT_PERIP_RST_EN_REG K) (DPORT_SPI_RST_2 K)]
      else
        [DPORT_SET_PERI_REG_MASK (DPORT_PERIP_CLK_EN_REG K) (DPORT_SPI_CLK_EN_1 K),
         DPORT_CLEAR_PERI_REG_MASK (DPORT_PERIP_RST_EN_REG K) (DPORT_SPI_RST_1 K)])"

text \<open>The mutex of a bus is created the first time the bus is started; \<open>Inr (None, s)\<close> is the
  early \<open>return NULL\<close>.\<close>

definition ensure_mutex :: "'h spi_env \<Rightarrow> nat \<Rightarrow> 'h spi_state \<Rightarrow> bool \<times> 'h spi_state" where
  "ensure_mutex E n s = (case lock_at s n of
       Some b \<Rightarrow> (True, s)
     | None \<Rightarrow> (case mutex_create E (hw s) of
          (False, h) \<Rightarrow> (False, s\<lparr>hw := h\<rparr>)
        | (True, h) \<Rightarrow> (True, set_lock n (Some False) (s\<lparr>hw := h\<rparr>))))"

definition spiStartBus ::
  "'h spi_env \<Rightarrow> 8 word \<Rightarrow> 32 word \<Rightarrow> 8 word \<Rightarrow> 8 word \<Rightarrow> 'h spi_state
     \<Rightarrow> spi_fault + (spi_ptr \<times> 'h spi_state)" where
  "spiStartBus E spi_num clockDiv dataMode bitOrder s =
     (if spi_num > 3 then Inr (None, s)
      else let n = unat spi_num in
        case ensure_mutex E n s of
          (False, s) \<Rightarrow> Inr (None, s)
        | (True, s) \<Rightarrow>
            bindr (exec
              [dport (bus_dport (sdk E) n),
               spiStopBus E (Some n),
               spiSetDataMode E (Some n) dataMode,
               spiSetBitOrder E (Some n) bitOrder,
               spiSetClockDiv (Some n) clockDiv,
               mutex_lock n,
               reg n (\<lambda>d. d\<lparr>user := put_bit (b_usr_mosi (layout E)) True (user d)\<rparr>),
               reg n (\<lambda>d. d\<lparr>user := put_bit (b_usr_miso (layout E)) True (user d)\<rparr>),
               reg n (\<lambda>d. d\<lparr>user := put_bit (b_doutdin (layout E)) True (user d)\<rparr>),
               fifo_fill n 16 (\<lambda>m i. 0),
               mutex_unlock n] s)
              (\<lambda>s. Inr (Some n, s)))"

definition spiWaitReady :: "'h spi_env \<Rightarrow> spi_ptr \<Rightarrow> (spi_fault, 'h spi_state) step" where
  "spiWaitReady E spi = (case spi of None \<Rightarrow> Inr | Some n \<Rightarrow> wait_usr E n)"

section \<open>Manual lock management\<close>

definition spiTransaction ::
  "'h spi_env \<Rightarrow> spi_ptr \<Rightarrow> 32 word \<Rightarrow> 8 word \<Rightarrow> 8 word \<Rightarrow> (spi_fault, 'h spi_state) step" where
  "spiTransaction E spi clockDiv dataMode bitOrder = (case spi of None \<Rightarrow> Inr | Some n \<Rightarrow>
     exec ([mutex_lock n, reg n (\<lambda>d. d\<lparr>clock := clockDiv\<rparr>)]
           @ mode_switch E n dataMode @ order_switch E n bitOrder))"

definition spiSimpleTransaction :: "spi_ptr \<Rightarrow> (spi_fault, 'h spi_state) step" where
  "spiSimpleTransaction spi = (case spi of None \<Rightarrow> Inr | Some n \<Rightarrow> mutex_lock n)"

definition spiEndTransaction :: "spi_ptr \<Rightarrow> (spi_fault, 'h spi_state) step" where
  "spiEndTransaction spi = (case spi of None \<Rightarrow> Inr | Some n \<Rightarrow> mutex_unlock n)"

section \<open>Lemmas\<close>

subsection \<open>Bracketing by the mutex\<close>

text \<open>
  The contract every user of the bus mutex relies on, as an interface: acquiring a free lock
  succeeds and takes it, acquiring a taken lock fails, releasing a taken lock frees it.  The facts
  about bracketed statement sequences are proved once from these laws.
\<close>

locale lock_interface =
  fixes acquire release :: "('e, 's) step" and free taken :: "'s \<Rightarrow> bool"
  assumes acquire_free: "free s \<Longrightarrow> \<exists>t. acquire s = Inr t \<and> taken t"
    and acquire_taken: "taken s \<Longrightarrow> \<exists>e. acquire s = Inl e"
    and release_taken: "taken s \<Longrightarrow> \<exists>t. release s = Inr t \<and> free t"
begin

lemma bracket_frees:
  assumes "\<And>c s t. c \<in> set cs \<Longrightarrow> taken s \<Longrightarrow> c s = Inr t \<Longrightarrow> taken t"
    and "free s" and "exec (acquire # cs @ [release]) s = Inr t"
  shows "free t"
proof -
  obtain u v where u: "acquire s = Inr u" and v: "exec cs u = Inr v" and t: "release v = Inr t"
    using assms(3) by (auto simp: exec_append bindr_eq_Inr_iff)
  have "taken u" using acquire_free [OF assms(2)] u by auto
  then have "taken v" using exec_invariant [of cs taken u v] assms(1) v by blast
  then show ?thesis using release_taken t by fastforce
qed

lemma bracket_blocks:
  assumes "taken s"
  shows "\<exists>e. exec (acquire # cs @ [release]) s = Inl e"
  using acquire_taken [OF assms] by auto

lemma bracket_returns:
  assumes "\<And>c s. c \<in> set cs \<Longrightarrow> taken s \<Longrightarrow> \<exists>t. c s = Inr t \<and> taken t" and "free s"
  shows "\<exists>t. exec (acquire # cs @ [release]) s = Inr t \<and> free t"
proof -
  obtain u where u: "acquire s = Inr u" "taken u"
    using acquire_free [OF assms(2)] by auto
  have "\<exists>v. exec cs u = Inr v \<and> taken v"
    using assms(1) u(2)
  proof (induction cs arbitrary: u)
    case Nil
    then show ?case by simp
  next
    case (Cons c cs)
    then obtain w where "c u = Inr w" "taken w" by (meson list.set_intros(1))
    with Cons show ?case by auto
  qed
  with u release_taken show ?thesis by (fastforce simp: exec_append)
qed

end

interpretation bus_mutex: lock_interface "mutex_lock n" "mutex_unlock n"
    "\<lambda>s. lock_at s n = Some False" "\<lambda>s. lock_at s n = Some True" for n
  by unfold_locales (simp_all add: mutex_lock_def mutex_unlock_def)

lemma locked_frees:
  assumes "\<And>c s t. c \<in> set cs \<Longrightarrow> c s = Inr t \<Longrightarrow> lock_at t n = lock_at s n"
    and "lock_at s n = Some False" and "locked n cs s = Inr t"
  shows "lock_at t n = Some False"
  using assms(2,3) unfolding locked_def
  by (rule bus_mutex.bracket_frees [rotated -2]) (use assms(1) in fastforce)

lemma locked_blocks: "lock_at s n = Some True \<Longrightarrow> locked n cs s = Inl MutexDeadlock"
  by (simp add: locked_def mutex_lock_def)

subsection \<open>Evaluation of register sequences\<close>

lemma exec_regs [stmt]:
  "exec (map (reg n) fs) s = Inr (upd_dev n (\<lambda>d. fold (\<lambda>f d. f d) fs d) s)"
  by (induction fs arbitrary: s) (simp_all add: reg_step comp_def upd_dev_def)

lemma locked_regs:
  assumes "lock_at s n = Some False"
  shows "locked n (map (reg n) fs) s = Inr (upd_dev n (\<lambda>d. fold (\<lambda>f d. f d) fs d) s)"
  using assms
  by (simp add: locked_def exec_append mutex_lock_free exec_regs mutex_unlock_held upd_dev_set_lock
      set_lock_same)

lemmas locked_reg1 = locked_regs [where fs = "[f]" for f, simplified]
lemmas locked_reg2 = locked_regs [where fs = "[f, g]" for f g, simplified]

lemma mode_switch_regs:
  "mode_switch E n m = map (reg n)
     [\<lambda>d. d\<lparr>pin := put_bit (b_ck_idle_edge (layout E)) (m = SPI_MODE2 \<or> m = SPI_MODE3) (pin d)\<rparr>,
      \<lambda>d. d\<lparr>user := put_bit (b_ck_out_edge (layout E)) (m = SPI_MODE1 \<or> m = SPI_MODE2) (user d)\<rparr>]"
  by (auto simp: mode_switch_def set_edges_def SPI_MODE1_def SPI_MODE2_def SPI_MODE3_def)

lemma order_switch_regs:
  "order_switch E n b = map (reg n) (if b = SPI_MSBFIRST \<or> b = SPI_LSBFIRST
     then [\<lambda>d. d\<lparr>ctrl := put_bit (b_wr_bit_order (layout E)) (b = SPI_LSBFIRST) (ctrl d)\<rparr>,
           \<lambda>d. d\<lparr>ctrl := put_bit (b_rd_bit_order (layout E)) (b = SPI_LSBFIRST) (ctrl d)\<rparr>]
     else [])"
  by (auto simp: order_switch_def set_orders_def SPI_MSBFIRST_def SPI_LSBFIRST_def)

text \<open>What the two switches do to the registers.\<close>

definition with_mode :: "spi_layout \<Rightarrow> 8 word \<Rightarrow> spi_dev \<Rightarrow> spi_dev" where
  "with_mode L m d =
     d\<lparr>pin := put_bit (b_ck_idle_edge L) (m = SPI_MODE2 \<or> m = SPI_MODE3) (pin d),
       user := put_bit (b_ck_out_edge L) (m = SPI_MODE1 \<or> m = SPI_MODE2) (user d)\<rparr>"

definition with_order :: "spi_layout \<Rightarrow> 8 word \<Rightarrow> spi_dev \<Rightarrow> spi_dev" where
  "with_order L b d = (if b = SPI_MSBFIRST \<or> b = SPI_LSBFIRST
     then d\<lparr>ctrl := put_bit (b_rd_bit_order L) (b = SPI_LSBFIRST)
              (put_bit (b_wr_bit_order L) (b = SPI_LSBFIRST) (ctrl d))\<rparr>
     else d)"

lemma exec_mode_switch [stmt]:
  "exec (mode_switch E n m) s = Inr (upd_dev n (with_mode (layout E) m) s)"
  by (simp add: mode_switch_regs exec_regs with_mode_def upd_dev_def del: list.map)

lemma exec_order_switch [stmt]:
  "exec (order_switch E n b) s = Inr (upd_dev n (with_order (layout E) b) s)"
  by (simp add: order_switch_regs exec_regs with_order_def upd_dev_def del: list.map)

lemma spiSetDataMode_eq [stmt]:
  "lock_at s n = Some False \<Longrightarrow>
   spiSetDataMode E (Some n) m s = Inr (upd_dev n (with_mode (layout E) m) s)"
  by (simp add: spiSetDataMode_def mode_switch_regs locked_regs with_mode_def upd_dev_def del: list.map)

lemma spiSetBitOrder_eq [stmt]:
  "lock_at s n = Some False \<Longrightarrow>
   spiSetBitOrder E (Some n) b s = Inr (upd_dev n (with_order (layout E) b) s)"
  by (simp add: spiSetBitOrder_def order_switch_regs locked_regs with_order_def upd_dev_def del: list.map)

lemma spiSetClockDiv_eq [stmt]:
  "lock_at s n = Some False \<Longrightarrow>
   spiSetClockDiv (Some n) v s = Inr (upd_dev n (\<lambda>d. d\<lparr>clock := v\<rparr>) s)"
  by (simp add: spiSetClockDiv_def locked_reg1)

subsection \<open>Modes, orders, transactions\<close>

lemma layout_okD:
  assumes "layout_ok L"
  shows "b_usr L < 32" "b_ck_out_edge L < 32" "b_rd_bit_order L < 32" "b_wr_bit_order L < 32"
    "b_ck_idle_edge L < 32" "b_cs_keep_active L < 32" "2 < b_ck_idle_edge L" "2 < b_cs_keep_active L"
    "b_usr_mosi L < 32" "b_usr_miso L < 32" "b_doutdin L < 32"
    "9 \<le> n_dbitlen L" "n_dbitlen L < 32"
  using assms by (simp_all add: layout_ok_def)

text \<open>The layout of the ESP32 and an environment whose controller finishes at once, for witnesses:
  the received data is the complement of the sent data, and the world records the bytes of each transaction.\<close>

definition esp32_layout :: spi_layout where
  "esp32_layout = \<lparr>b_usr = 18, b_doutdin = 0, b_cs_hold = 4, b_cs_setup = 5, b_ck_out_edge = 7,
     b_usr_miso = 28, b_usr_mosi = 27, b_rd_bit_order = 25, b_wr_bit_order = 26,
     b_ck_idle_edge = 29, b_cs_keep_active = 30, b_trans_done = 4, b_slave_mode = 30,
     n_dbitlen = 24\<rparr>"

definition esp32_sdk :: spi_sdk where
  "esp32_sdk = \<lparr>SPICLK_OUT_IDX = 0, HSPICLK_OUT_IDX = 8, VSPICLK_OUT_IDX = 63, SPIQ_OUT_IDX = 1,
     HSPIQ_OUT_IDX = 9, VSPIQ_OUT_IDX = 64, SPID_IN_IDX = 2, HSPID_IN_IDX = 10, VSPID_IN_IDX = 65,
     SPICS_OUT_IDX = (\<lambda>n. 5 + n), HSPICS_OUT_IDX = (\<lambda>n. if n = 0 then 11 else 60 + n),
     VSPICS_OUT_IDX = (\<lambda>n. 68 + n), DPORT_PERIP_CLK_EN_REG = 192, DPORT_PERIP_RST_EN_REG = 196,
     DPORT_SPI_CLK_EN = 64, DPORT_SPI_CLK_EN_1 = 2, DPORT_SPI_CLK_EN_2 = 65536,
     DPORT_SPI_RST = 64, DPORT_SPI_RST_1 = 2, DPORT_SPI_RST_2 = 65536\<rparr>"

definition sent_bytes :: "spi_dev \<Rightarrow> byte list" where
  "sent_bytes d = take ((unat (get_low 24 (mosi_dlen d)) + 1) div 8) (words_bytes (map (data_buf d) [0..<16]))"

definition complement_tick :: "nat \<Rightarrow> spi_dev \<times> byte list list \<Rightarrow> spi_dev \<times> byte list list" where
  "complement_tick n x =
     ((fst x)\<lparr>cmd := put_bit 18 False (cmd (fst x)), data_buf := (\<lambda>i. NOT (data_buf (fst x) i))\<rparr>,
      snd x @ [sent_bytes (fst x)])"

definition demo_env :: "byte list list spi_env" where
  "demo_env = \<lparr>layout = esp32_layout, sdk = esp32_sdk, ctrl_tick = complement_tick,
     mutex_create = (\<lambda>h. (True, h))\<rparr>"

definition zero_dev :: spi_dev where
  "zero_dev = \<lparr>cmd = 0, ctrl = 0, ctrl1 = 0, ctrl2 = 0, clock = 0, user = 0, user1 = 0, pin = 0,
     slave = 0, mosi_dlen = 0, miso_dlen = 0, data_buf = (\<lambda>_. 0)\<rparr>"

definition demo_state :: "bool option \<Rightarrow> memory \<Rightarrow> byte list list spi_state" where
  "demo_state l m = \<lparr>buses = (\<lambda>_. \<lparr>dev = zero_dev, lock = l\<rparr>), gpio_calls = [], dport_calls = [],
     mem = m, hw = []\<rparr>"

lemma esp32_layout_ok: "layout_ok esp32_layout"
  by (simp add: layout_ok_def esp32_layout_def)

lemma demo_env_simps [simp]:
  "layout demo_env = esp32_layout" "sdk demo_env = esp32_sdk"
  "mutex_create demo_env h = (True, h)" "ctrl_tick demo_env = complement_tick"
  by (simp_all add: demo_env_def)

lemma demo_state_simps [simp]:
  "lock_at (demo_state l m) n = l" "mem (demo_state l m) = m" "dev_at (demo_state l m) n = zero_dev"
  "hw (demo_state l m) = []"
  by (simp_all add: demo_state_def)

lemma getDataMode_with_mode:
  assumes "layout_ok (layout E)"
  shows "spiGetDataMode E (Some n) (upd_dev n (with_mode (layout E) m) s) =
    (if m = SPI_MODE1 \<or> m = SPI_MODE2 \<or> m = SPI_MODE3 then m else SPI_MODE0)"
  using layout_okD [OF assms]
  by (auto simp: spiGetDataMode_def with_mode_def regs SPI_MODE0_def SPI_MODE1_def SPI_MODE2_def
      SPI_MODE3_def Let_def)

lemma getBitOrder_with_order:
  assumes "layout_ok (layout E)"
  shows "spiGetBitOrder E (Some n) (upd_dev n (with_order (layout E) b) s) =
    (if b = SPI_MSBFIRST \<or> b = SPI_LSBFIRST then b else spiGetBitOrder E (Some n) s)"
  using layout_okD [OF assms]
  by (auto simp: spiGetBitOrder_def with_order_def regs SPI_MSBFIRST_def SPI_LSBFIRST_def)

text \<open>\<open>spiSetDataMode\<close> followed by \<open>spiGetDataMode\<close> gives back modes 1, 2 and 3, and mode 0 for every
  other argument; the mutex is free again and no other register bit of the bus, and no other bus,
  has changed.\<close>

lemma data_mode_roundtrip:
  assumes "layout_ok (layout E)" and "lock_at s n = Some False"
  shows "\<exists>t. spiSetDataMode E (Some n) m s = Inr t
    \<and> spiGetDataMode E (Some n) t = (if m = SPI_MODE1 \<or> m = SPI_MODE2 \<or> m = SPI_MODE3 then m else SPI_MODE0)
    \<and> lock_at t n = Some False
    \<and> (\<forall>k. k \<noteq> n \<longrightarrow> buses t k = buses s k)
    \<and> (\<forall>j. j \<noteq> b_ck_idle_edge (layout E) \<longrightarrow> bit (pin (dev_at t n)) j = bit (pin (dev_at s n)) j)
    \<and> (\<forall>j. j \<noteq> b_ck_out_edge (layout E) \<longrightarrow> bit (user (dev_at t n)) j = bit (user (dev_at s n)) j)
    \<and> ctrl (dev_at t n) = ctrl (dev_at s n) \<and> clock (dev_at t n) = clock (dev_at s n)"
  using assms(2) getDataMode_with_mode [OF assms(1), of n m s]
  by (intro exI [of _ "upd_dev n (with_mode (layout E) m) s"])
    (auto simp: spiSetDataMode_eq regs with_mode_def upd_dev_def)

text \<open>\<open>spiSetBitOrder\<close> followed by \<open>spiGetBitOrder\<close> gives back the two legal orders; any other argument
  leaves the order as it was.  Only the two order bits of \<open>ctrl\<close> can change.\<close>

lemma bit_order_roundtrip:
  assumes "layout_ok (layout E)" and "lock_at s n = Some False"
  shows "\<exists>t. spiSetBitOrder E (Some n) b s = Inr t
    \<and> spiGetBitOrder E (Some n) t =
        (if b = SPI_MSBFIRST \<or> b = SPI_LSBFIRST then b else spiGetBitOrder E (Some n) s)
    \<and> lock_at t n = Some False
    \<and> (\<forall>k. k \<noteq> n \<longrightarrow> buses t k = buses s k)
    \<and> (\<forall>j. j \<noteq> b_rd_bit_order (layout E) \<longrightarrow> j \<noteq> b_wr_bit_order (layout E) \<longrightarrow>
          bit (ctrl (dev_at t n)) j = bit (ctrl (dev_at s n)) j)
    \<and> pin (dev_at t n) = pin (dev_at s n) \<and> user (dev_at t n) = user (dev_at s n)"
  using assms(2) getBitOrder_with_order [OF assms(1), of n b s]
  by (intro exI [of _ "upd_dev n (with_order (layout E) b) s"])
    (auto simp: spiSetBitOrder_eq regs with_order_def upd_dev_def)

lemma spiTransaction_eq [stmt]:
  assumes "lock_at s n = Some False"
  shows "spiTransaction E (Some n) c m b s = Inr (set_lock n (Some True)
    (upd_dev n (with_order (layout E) b \<circ> (with_mode (layout E) m \<circ> (\<lambda>d. d\<lparr>clock := c\<rparr>))) s))"
  using assms
  by (simp add: spiTransaction_def exec_append mutex_lock_free reg_step exec_mode_switch
      exec_order_switch upd_dev_set_lock)

text \<open>Property C35. Opening a transaction with \<open>spiTransaction\<close> and closing it again configures the bus exactly as the three
  separate, individually locked setters do; in between the transaction holds the mutex.\<close>

theorem transaction_is_setters:
  assumes "lock_at s n = Some False"
  shows "exec [spiTransaction E (Some n) c m b, spiEndTransaction (Some n)] s =
      exec [spiSetClockDiv (Some n) c, spiSetDataMode E (Some n) m, spiSetBitOrder E (Some n) b] s
    \<and> (\<exists>t. spiTransaction E (Some n) c m b s = Inr t \<and> lock_at t n = Some True)"
  using assms
  by (simp add: spiTransaction_eq spiEndTransaction_def mutex_unlock_held spiSetClockDiv_eq
      spiSetDataMode_eq spiSetBitOrder_eq set_lock_same)

lemma transaction_is_setters_witness:
  "exec [spiTransaction demo_env (Some 3) 5 SPI_MODE3 SPI_LSBFIRST, spiEndTransaction (Some 3)]
      (demo_state (Some False) (\<lambda>_. 0)) =
   exec [spiSetClockDiv (Some 3) 5, spiSetDataMode demo_env (Some 3) SPI_MODE3,
         spiSetBitOrder demo_env (Some 3) SPI_LSBFIRST] (demo_state (Some False) (\<lambda>_. 0))"
  using transaction_is_setters [of "demo_state (Some False) (\<lambda>_. 0)" 3 demo_env 5 SPI_MODE3 SPI_LSBFIRST]
  by simp

subsection \<open>Chip select\<close>

lemma cs_mask_eq: "SPI_CS_MASK_ALL = mask 3"
  by (simp add: SPI_CS_MASK_ALL_def mask_eq_exp_minus_1)

lemma bit_cs_mask: "bit (ucast m AND SPI_CS_MASK_ALL) j \<longleftrightarrow> j < 3 \<and> bit m j" for m :: "8 word"
  unfolding cs_mask_eq bit_and_iff bit_mask_iff bit_ucast_iff
  by (auto dest: bit_imp_le_length)

lemma spiEnableSSPins_eq [stmt]:
  "lock_at s n = Some False \<Longrightarrow> spiEnableSSPins (Some n) m s =
     Inr (upd_dev n (\<lambda>d. d\<lparr>pin := pin d AND NOT (ucast m AND SPI_CS_MASK_ALL)\<rparr>) s)"
  by (simp add: spiEnableSSPins_def locked_reg1)

lemma spiDisableSSPins_eq [stmt]:
  "lock_at s n = Some False \<Longrightarrow> spiDisableSSPins (Some n) m s =
     Inr (upd_dev n (\<lambda>d. d\<lparr>pin := pin d OR (ucast m AND SPI_CS_MASK_ALL)\<rparr>) s)"
  by (simp add: spiDisableSSPins_def locked_reg1)

text \<open>Enabling and disabling chip-select lines: the disable bit of line \<open>j\<close> is cleared (set) exactly for the
  lines \<open>j < 3\<close> in the mask, and no other bit of the pin register changes, in particular not the
  clock polarity and the keep-active bit.\<close>

lemma ss_pins_only_masked:
  assumes "lock_at s n = Some False"
  shows "\<exists>t u. spiEnableSSPins (Some n) m s = Inr t \<and> spiDisableSSPins (Some n) m s = Inr u
    \<and> (\<forall>j. bit (pin (dev_at t n)) j \<longleftrightarrow> bit (pin (dev_at s n)) j \<and> \<not> (j < 3 \<and> bit m j))
    \<and> (\<forall>j. bit (pin (dev_at u n)) j \<longleftrightarrow> bit (pin (dev_at s n)) j \<or> (j < 3 \<and> bit m j))
    \<and> lock_at t n = Some False \<and> lock_at u n = Some False
    \<and> (layout_ok (layout E) \<longrightarrow> spiGetDataMode E (Some n) t = spiGetDataMode E (Some n) s)"
proof -
  let ?t = "upd_dev n (\<lambda>d. d\<lparr>pin := pin d AND NOT (ucast m AND SPI_CS_MASK_ALL)\<rparr>) s"
  let ?u = "upd_dev n (\<lambda>d. d\<lparr>pin := pin d OR (ucast m AND SPI_CS_MASK_ALL)\<rparr>) s"
  have t: "bit (pin (dev_at ?t n)) j \<longleftrightarrow> bit (pin (dev_at s n)) j \<and> \<not> (j < 3 \<and> bit m j)" for j
  proof -
    have "pin (dev_at ?t n) = pin (dev_at s n) AND NOT (ucast m AND SPI_CS_MASK_ALL)"
      by simp
    then show ?thesis by (simp only: bit_and_not bit_cs_mask)
  qed
  have u: "bit (pin (dev_at ?u n)) j \<longleftrightarrow> bit (pin (dev_at s n)) j \<or> (j < 3 \<and> bit m j)" for j
    using bit_cs_mask [of m j] by (simp add: bit_or_iff)
  have mode: "spiGetDataMode E (Some n) ?t = spiGetDataMode E (Some n) s" if "layout_ok (layout E)"
  proof -
    have "\<not> b_ck_idle_edge (layout E) < 3" using layout_okD [OF that] by simp
    then have "bit (pin (dev_at ?t n)) (b_ck_idle_edge (layout E))
        = bit (pin (dev_at s n)) (b_ck_idle_edge (layout E))"
      using t by blast
    then show ?thesis by (simp add: spiGetDataMode_def)
  qed
  show ?thesis
    by (intro exI [of _ ?t] exI [of _ ?u] conjI spiEnableSSPins_eq spiDisableSSPins_eq allI t u
        impI mode) (use assms in simp_all)
qed

subsection \<open>Starting a bus\<close>

lemma spiStopBus_eq [stmt]:
  "lock_at s n = Some False \<Longrightarrow> spiStopBus E (Some n) s = Inr (upd_dev n (\<lambda>d.
     d\<lparr>slave := put_bit (b_slave_mode (layout E)) False (put_bit (b_trans_done (layout E)) False (slave d)),
       pin := 0, user := 0, user1 := 0, ctrl := 0, ctrl1 := 0, ctrl2 := 0, clock := 0\<rparr>) s)"
  using locked_regs [of s n "[\<lambda>d. d\<lparr>slave := put_bit (b_trans_done (layout E)) False (slave d)\<rparr>,
      \<lambda>d. d\<lparr>slave := put_bit (b_slave_mode (layout E)) False (slave d)\<rparr>,
      \<lambda>d. d\<lparr>pin := 0\<rparr>, \<lambda>d. d\<lparr>user := 0\<rparr>, \<lambda>d. d\<lparr>user1 := 0\<rparr>, \<lambda>d. d\<lparr>ctrl := 0\<rparr>,
      \<lambda>d. d\<lparr>ctrl1 := 0\<rparr>, \<lambda>d. d\<lparr>ctrl2 := 0\<rparr>, \<lambda>d. d\<lparr>clock := 0\<rparr>]"]
  by (simp add: spiStopBus_def upd_dev_def)

lemma dport_step [stmt]: "dport cs s = Inr (s\<lparr>dport_calls := dport_calls s @ cs\<rparr>)"
  by (simp add: dport_def)

text \<open>The mutex is there, or can be created.\<close>

definition startable :: "'h spi_env \<Rightarrow> nat \<Rightarrow> 'h spi_state \<Rightarrow> bool" where
  "startable E n s \<longleftrightarrow> lock_at s n = Some False \<or> (lock_at s n = None \<and> fst (mutex_create E (hw s)))"

lemma ensure_mutex_startable:
  assumes "startable E n s"
  obtains t where "ensure_mutex E n s = (True, t)" and "lock_at t n = Some False"
    and "\<And>k. dev_at t k = dev_at s k" and "\<And>k. k \<noteq> n \<Longrightarrow> buses t k = buses s k"
    and "dport_calls t = dport_calls s" and "mem t = mem s" and "gpio_calls t = gpio_calls s"
proof (cases "lock_at s n")
  case None
  then obtain h where "mutex_create E (hw s) = (True, h)"
    using assms by (cases "mutex_create E (hw s)") (auto simp: startable_def)
  with None that [of "set_lock n (Some False) (s\<lparr>hw := h\<rparr>)"] show ?thesis
    by (simp add: ensure_mutex_def set_lock_def)
next
  case (Some b)
  with assms that [of s] show ?thesis by (simp add: startable_def ensure_mutex_def)
qed

text \<open>The registers of a started bus, from the arguments of \<open>spiStartBus\<close>.\<close>

definition started_dev :: "spi_layout \<Rightarrow> 32 word \<Rightarrow> 8 word \<Rightarrow> 8 word \<Rightarrow> spi_dev \<Rightarrow> bool" where
  "started_dev L clkdiv m b d \<longleftrightarrow>
     clock d = clkdiv
     \<and> pin d = put_bit (b_ck_idle_edge L) (m = SPI_MODE2 \<or> m = SPI_MODE3) 0
     \<and> user d = put_bit (b_doutdin L) True (put_bit (b_usr_miso L) True (put_bit (b_usr_mosi L) True
         (put_bit (b_ck_out_edge L) (m = SPI_MODE1 \<or> m = SPI_MODE2) 0)))
     \<and> ctrl d = (if b = SPI_LSBFIRST then put_bit (b_rd_bit_order L) True (put_bit (b_wr_bit_order L) True 0) else 0)
     \<and> user1 d = 0 \<and> ctrl1 d = 0 \<and> ctrl2 d = 0
     \<and> \<not> bit (slave d) (b_trans_done L) \<and> \<not> bit (slave d) (b_slave_mode L)
     \<and> (\<forall>i < 16. data_buf d i = 0)"

lemma put_bit_False_zero [simp]: "put_bit i False 0 = 0"
  by (rule bit_word_eqI) (simp add: regs)

lemma start_bus:
  assumes "layout_ok (layout E)" and "startable E (unat num) s" and "num \<le> 3"
  shows "\<exists>u. spiStartBus E num clkdiv m b s = Inr (Some (unat num), u)
      \<and> started_dev (layout E) clkdiv m b (dev_at u (unat num)) \<and> lock_at u (unat num) = Some False
      \<and> (\<forall>k. k \<noteq> unat num \<longrightarrow> buses u k = buses s k)
      \<and> dport_calls u = dport_calls s @ bus_dport (sdk E) (unat num)
      \<and> mem u = mem s \<and> gpio_calls u = gpio_calls s"
proof -
  let ?n = "unat num" and ?L = "layout E"
  obtain t where t: "ensure_mutex E ?n s = (True, t)" "lock_at t ?n = Some False"
    "\<And>k. dev_at t k = dev_at s k" "\<And>k. k \<noteq> ?n \<Longrightarrow> buses t k = buses s k"
    "dport_calls t = dport_calls s" "mem t = mem s" "gpio_calls t = gpio_calls s"
    using ensure_mutex_startable [OF assms(2)] by blast
  have L: "b_trans_done ?L \<noteq> b_slave_mode ?L" "b_trans_done ?L < 32" "b_slave_mode ?L < 32"
    using assms(1) by (simp_all add: layout_ok_def)
  show "\<exists>u. spiStartBus E num clkdiv m b s = Inr (Some ?n, u)
      \<and> started_dev ?L clkdiv m b (dev_at u ?n) \<and> lock_at u ?n = Some False
      \<and> (\<forall>k. k \<noteq> ?n \<longrightarrow> buses u k = buses s k)
      \<and> dport_calls u = dport_calls s @ bus_dport (sdk E) ?n
      \<and> mem u = mem s \<and> gpio_calls u = gpio_calls s"
    using assms(3) t L
    by (auto simp: spiStartBus_def stmt started_dev_def with_mode_def with_order_def regs
        SPI_LSBFIRST_def SPI_MSBFIRST_def upd_dev_def set_lock_def Let_def)
qed

text \<open>Property C21. \<open>spiStartBus\<close> on a startable bus number up to 3 returns that bus with its mutex free and every
  configuration register determined by the arguments: requested clock, mode and bit order, full
  duplex, everything else cleared and the FIFO zeroed; the other buses are untouched and the
  peripheral clock of this bus is switched on.  A number above 3 gives NULL and changes nothing.\<close>

theorem spiStartBus_configures:
  assumes "layout_ok (layout E)" and "num \<le> 3 \<Longrightarrow> startable E (unat num) s"
  shows "(3 < num \<longrightarrow> spiStartBus E num clkdiv m b s = Inr (None, s))
    \<and> (num \<le> 3 \<longrightarrow> (\<exists>t. spiStartBus E num clkdiv m b s = Inr (Some (unat num), t)
         \<and> started_dev (layout E) clkdiv m b (dev_at t (unat num))
         \<and> lock_at t (unat num) = Some False
         \<and> (\<forall>k. k \<noteq> unat num \<longrightarrow> buses t k = buses s k)
         \<and> dport_calls t = dport_calls s @ bus_dport (sdk E) (unat num)
         \<and> mem t = mem s \<and> gpio_calls t = gpio_calls s))"
proof (cases "3 < num")
  case True
  then show ?thesis by (simp add: spiStartBus_def)
next
  case False
  then have "num \<le> 3" by simp
  with False start_bus [OF assms(1) assms(2) this] show ?thesis by simp
qed

lemma spiStartBus_configures_witness:
  "layout_ok (layout demo_env) \<and> startable demo_env 3 (demo_state None (\<lambda>_. 0)) \<and>
   (\<exists>t. spiStartBus demo_env 3 5 SPI_MODE2 SPI_LSBFIRST (demo_state None (\<lambda>_. 0)) = Inr (Some 3, t)
      \<and> started_dev esp32_layout 5 SPI_MODE2 SPI_LSBFIRST (dev_at t 3) \<and> lock_at t 3 = Some False)"
proof -
  have st: "startable demo_env (unat (3 :: 8 word)) (demo_state None (\<lambda>_. 0))"
    by (simp add: startable_def)
  from spiStartBus_configures [of demo_env 3 "demo_state None (\<lambda>_. 0)" 5 SPI_MODE2 SPI_LSBFIRST] st
  show ?thesis by (auto simp: esp32_layout_ok)
qed

subsection \<open>Pins of a bus\<close>

lemma emit_step [stmt]: "emit cs s = Inr (s\<lparr>gpio_calls := gpio_calls s @ cs\<rparr>)"
  by (simp add: emit_def)

lemma set_lock_gpio [stmt]:
  "set_lock n l (s\<lparr>gpio_calls := c\<rparr>) = (set_lock n l s)\<lparr>gpio_calls := c\<rparr>"
  by (simp add: set_lock_def)

definition default_pins :: "nat \<Rightarrow> 8 word list" where
  "default_pins n = [sck_pin n (-1), miso_pin n (-1), mosi_pin n (-1), ss_pin n (-1)]"

text \<open>With negative pin arguments the attach calls use the default pins of the bus.  On the two user buses
  and the flash bus these twelve pins are pairwise distinct, and each of them is driven as the
  signal needs it: clock and data-out as outputs, data-in as an input.\<close>

lemma attach_default_pins:
  assumes "lock_at s n = Some False" and "sint p < 0"
  shows "distinct (concat (map default_pins [1, HSPI, VSPI]))
    \<and> (\<exists>t. exec [spiAttachSCK E (Some n) p, spiAttachMISO E (Some n) p, spiAttachMOSI E (Some n) p] s = Inr t
      \<and> lock_at t n = Some False \<and> (\<forall>k. buses t k = buses s k)
      \<and> (\<exists>cs. gpio_calls t = gpio_calls s @ cs
          \<and> filter (\<lambda>c. \<exists>q d. c = gpio_set_direction q d) cs =
              [gpio_set_direction (sint (sck_pin n p)) GPIO_MODE_OUTPUT,
               gpio_set_direction (sint (miso_pin n p)) GPIO_MODE_INPUT,
               gpio_set_direction (sint (mosi_pin n p)) GPIO_MODE_OUTPUT]
          \<and> set (map call_pin cs) = {sint (sck_pin n p), sint (miso_pin n p), sint (mosi_pin n p)}))"
proof -
  have "distinct (concat (map default_pins [1, HSPI, VSPI]))"
    by (simp add: default_pins_def sck_pin_def miso_pin_def mosi_pin_def ss_pin_def
        pin_or_default_def HSPI_def VSPI_def)
  moreover have "\<exists>t. exec [spiAttachSCK E (Some n) p, spiAttachMISO E (Some n) p, spiAttachMOSI E (Some n) p] s = Inr t
      \<and> lock_at t n = Some False \<and> (\<forall>k. buses t k = buses s k)
      \<and> (\<exists>cs. gpio_calls t = gpio_calls s @ cs
          \<and> filter (\<lambda>c. \<exists>q d. c = gpio_set_direction q d) cs =
              [gpio_set_direction (sint (sck_pin n p)) GPIO_MODE_OUTPUT,
               gpio_set_direction (sint (miso_pin n p)) GPIO_MODE_INPUT,
               gpio_set_direction (sint (mosi_pin n p)) GPIO_MODE_OUTPUT]
          \<and> set (map call_pin cs) = {sint (sck_pin n p), sint (miso_pin n p), sint (mosi_pin n p)})"
    using assms
    by (auto simp: spiAttachSCK_def spiAttachMISO_def spiAttachMOSI_def locked_def stmt Let_def
        pinMode_calls_def RAW_OUTPUT_def RAW_INPUT_def RAW_OUTPUT_OPENDRAIN_def
        pinMatrixOutAttach_def pinMatrixInAttach_def sck_pin_def miso_pin_def mosi_pin_def
        pin_or_default_def set_lock_def)
  ultimately show ?thesis by blast
qed

end
