(* ===== verification/Spi_Transfer.thy ===== *)
theory Spi_Transfer
  imports Spi_Config
begin

text \<open>
  Data transfers over an SPI bus (\<^verbatim>\<open>esp32/esp32spi.c\<close>): the calls that take the bus mutex and their
  counterparts for use inside a transaction (suffix \<open>NL\<close>, no locking).  Data buffers live in
  \<open>mem\<close>, so source and destination may overlap; lengths are machine words at the interface and
  natural numbers inside the loops, where every subtraction is guarded.
\<close>

section \<open>Buffers and the FIFO\<close>

text \<open>\<^verbatim>\<open>for(i=0; i<k; i++) spi->dev->data_buf[i] = data[i];\<close>\<close>

definition fifo_from :: "nat \<Rightarrow> nat \<Rightarrow> ptr \<Rightarrow> (spi_fault, 'h spi_state) step" where
  "fifo_from n k data s = (case data of
       None \<Rightarrow> if k = 0 then Inr s else Inl NullBuffer
     | Some a \<Rightarrow> fifo_fill n k (\<lambda>m i. mem_word m (a + 4 * i)) s)"

text \<open>\<^verbatim>\<open>for(i=0; i<k; i++) data[i] = spi->dev->data_buf[i];\<close>\<close>

definition fifo_get :: "nat \<Rightarrow> nat \<Rightarrow> nat \<Rightarrow> (spi_fault, 'h spi_state) step" where
  "fifo_get n i a s = (if i < 16 then Inr (store a (word_bytes (data_buf (dev_at s n) i)) s)
     else Inl FifoOverrun)"

definition fifo_to :: "nat \<Rightarrow> nat \<Rightarrow> ptr \<Rightarrow> (spi_fault, 'h spi_state) step" where
  "fifo_to n k data = (case data of
       None \<Rightarrow> (\<lambda>s. if k = 0 then Inr s else Inl NullBuffer)
     | Some a \<Rightarrow> exec (map (\<lambda>i. fifo_get n i (a + 4 * i)) [0..<k]))"

text \<open>Start a transaction and wait for its end.\<close>

definition run_usr :: "'h spi_env \<Rightarrow> nat \<Rightarrow> (spi_fault, 'h spi_state) step list" where
  "run_usr E n = [set_usr E n, wait_usr E n]"

definition wr_lsb :: "'h spi_env \<Rightarrow> nat \<Rightarrow> 'h spi_state \<Rightarrow> bool" where
  "wr_lsb E n s = bit (ctrl (dev_at s n)) (b_wr_bit_order (layout E))"

definition rd_lsb :: "'h spi_env \<Rightarrow> nat \<Rightarrow> 'h spi_state \<Rightarrow> bool" where
  "rd_lsb E n s = bit (ctrl (dev_at s n)) (b_rd_bit_order (layout E))"

section \<open>Byte order\<close>

definition spiTranslate24 :: "32 word \<Rightarrow> 32 word" where
  "spiTranslate24 data = (let b = word_bytes data in
     ucast (b ! 2) OR push_bit 8 (ucast (b ! 1)) OR push_bit 16 (ucast (b ! 0)))"

definition spiTranslate32 :: "32 word \<Rightarrow> 32 word" where
  "spiTranslate32 data = (let b = word_bytes data in
     ucast (b ! 3) OR push_bit 8 (ucast (b ! 2)) OR push_bit 16 (ucast (b ! 1))
       OR push_bit 24 (ucast (b ! 0)))"

definition MSB_32_SET :: "32 word \<Rightarrow> 32 word" where
  "MSB_32_SET val = (let d = word_bytes val in
     ucast (d ! 3) OR push_bit 8 (ucast (d ! 2)) OR push_bit 16 (ucast (d ! 1))
       OR push_bit 24 (ucast (d ! 0)))"

definition MSB_24_SET :: "32 word \<Rightarrow> 32 word" where
  "MSB_24_SET val = (let d = word_bytes val in
     ucast (d ! 2) OR push_bit 8 (ucast (d ! 1)) OR push_bit 16 (ucast (d ! 0)))"

definition MSB_16_SET :: "32 word \<Rightarrow> 32 word" where
  "MSB_16_SET val = drop_bit 8 (val AND 0xFF00) OR push_bit 8 (val AND 0xFF)"

definition MSB_PIX_SET :: "32 word \<Rightarrow> 32 word" where
  "MSB_PIX_SET val = (let d = word_bytes val in
     ucast (d ! 1) OR push_bit 8 (ucast (d ! 0)) OR push_bit 16 (ucast (d ! 3))
       OR push_bit 24 (ucast (d ! 2)))"

definition swap16 :: "16 word \<Rightarrow> 16 word" where
  \<comment> \<open>\<^verbatim>\<open>(data >> 8) | (data << 8)\<close>, truncated to 16 bits\<close>
  "swap16 data = drop_bit 8 data OR push_bit 8 data"

definition MSB_16_SET_short :: "16 word \<Rightarrow> 16 word" where
  \<comment> \<open>\<open>MSB_16_SET\<close> applied to a \<open>uint16_t\<close>\<close>
  "MSB_16_SET_short data = ucast (MSB_16_SET (ucast data))"

section \<open>Locking transfers\<close>

definition spiWrite :: "'h spi_env \<Rightarrow> spi_ptr \<Rightarrow> ptr \<Rightarrow> 8 word \<Rightarrow> (spi_fault, 'h spi_state) step" where
  "spiWrite E spi data len = (case spi of None \<Rightarrow> Inr | Some n \<Rightarrow>
     let len = (if len > 16 then 16 else len) in
     locked n
       ([set_mosi_dlen E n (ucast len * 32 - 1), set_miso_dlen E n 0,
         fifo_from n (unat len) data] @ run_usr E n))"

definition spiTransfer :: "'h spi_env \<Rightarrow> spi_ptr \<Rightarrow> ptr \<Rightarrow> 8 word \<Rightarrow> (spi_fault, 'h spi_state) step" where
  "spiTransfer E spi data len = (case spi of None \<Rightarrow> Inr | Some n \<Rightarrow>
     let len = (if len > 16 then 16 else len) in
     locked n
       ([set_mosi_dlen E n (ucast len * 32 - 1), set_miso_dlen E n (ucast len * 32 - 1),
         fifo_from n (unat len) data] @ run_usr E n @ [fifo_to n (unat len) data]))"

text \<open>The body of a one-word write, and of a one-word exchange with the value it reads back.\<close>

definition word_write :: "'h spi_env \<Rightarrow> nat \<Rightarrow> 32 word \<Rightarrow> 32 word \<Rightarrow> (spi_fault, 'h spi_state) step list" where
  "word_write E n dbitlen w =
     [set_mosi_dlen E n dbitlen, set_miso_dlen E n 0, fifo_put n 0 w] @ run_usr E n"

definition word_exchange :: "'h spi_env \<Rightarrow> nat \<Rightarrow> 32 word \<Rightarrow> 32 word \<Rightarrow> (spi_fault, 'h spi_state) step list" where
  "word_exchange E n dbitlen w =
     [set_mosi_dlen E n dbitlen, set_miso_dlen E n dbitlen, fifo_put n 0 w] @ run_usr E n"

definition locked_exchange ::
  "'h spi_env \<Rightarrow> nat \<Rightarrow> 32 word \<Rightarrow> 32 word \<Rightarrow> 'h spi_state \<Rightarrow> spi_fault + (32 word \<times> 'h spi_state)" where
  "locked_exchange E n dbitlen w s =
     bindr (exec (mutex_lock n # word_exchange E n dbitlen w) s)
       (\<lambda>s. let r = data_buf (dev_at s n) 0 in bindr (mutex_unlock n s) (\<lambda>s. Inr (r, s)))"

definition free_exchange ::
  "'h spi_env \<Rightarrow> nat \<Rightarrow> 32 word \<Rightarrow> 32 word \<Rightarrow> 'h spi_state \<Rightarrow> spi_fault + (32 word \<times> 'h spi_state)" where
  "free_exchange E n dbitlen w s =
     bindr (exec (word_exchange E n dbitlen w) s) (\<lambda>s. Inr (data_buf (dev_at s n) 0, s))"

definition spiWriteByte :: "'h spi_env \<Rightarrow> spi_ptr \<Rightarrow> 8 word \<Rightarrow> (spi_fault, 'h spi_state) step" where
  "spiWriteByte E spi data = (case spi of None \<Rightarrow> Inr | Some n \<Rightarrow>
     locked n (word_write E n 7 (ucast data)))"

definition spiTransferByte ::
  "'h spi_env \<Rightarrow> spi_ptr \<Rightarrow> 8 word \<Rightarrow> 'h spi_state \<Rightarrow> spi_fault + (8 word \<times> 'h spi_state)" where
  "spiTransferByte E spi data s = (case spi of None \<Rightarrow> Inr (0, s) | Some n \<Rightarrow>
     bindr (locked_exchange E n 7 (ucast data) s) (\<lambda>(r, s). Inr (ucast (r AND 0xFF), s)))"

definition spiWriteWord :: "'h spi_env \<Rightarrow> spi_ptr \<Rightarrow> 16 word \<Rightarrow> (spi_fault, 'h spi_state) step" where
  "spiWriteWord E spi data s = (case spi of None \<Rightarrow> Inr s | Some n \<Rightarrow>
     let data = (if \<not> wr_lsb E n s then swap16 data else data) in
     locked n (word_write E n 15 (ucast data)) s)"

definition spiTransferWord ::
  "'h spi_env \<Rightarrow> spi_ptr \<Rightarrow> 16 word \<Rightarrow> 'h spi_state \<Rightarrow> spi_fault + (16 word \<times> 'h spi_state)" where
  "spiTransferWord E spi data s = (case spi of None \<Rightarrow> Inr (0, s) | Some n \<Rightarrow>
     let data = (if \<not> wr_lsb E n s then swap16 data else data) in
     bindr (locked_exchange E n 15 (ucast data) s)
       (\<lambda>(r, s). let data = ucast r in Inr (if \<not> rd_lsb E n s then swap16 data else data, s)))"

definition spiWriteLong :: "'h spi_env \<Rightarrow> spi_ptr \<Rightarrow> 32 word \<Rightarrow> (spi_fault, 'h spi_state) step" where
  "spiWriteLong E spi data s = (case spi of None \<Rightarrow> Inr s | Some n \<Rightarrow>
     let data = (if \<not> wr_lsb E n s then spiTranslate32 data else data) in
     locked n (word_write E n 31 data) s)"

definition spiTransferLong ::
  "'h spi_env \<Rightarrow> spi_ptr \<Rightarrow> 32 word \<Rightarrow> 'h spi_state \<Rightarrow> spi_fault + (32 word \<times> 'h spi_state)" where
  "spiTransferLong E spi data s = (case spi of None \<Rightarrow> Inr (0, s) | Some n \<Rightarrow>
     let data = (if \<not> wr_lsb E n s then spiTranslate32 data else data) in
     bindr (locked_exchange E n 31 data s)
       (\<lambda>(r, s). Inr (if \<not> rd_lsb E n s then spiTranslate32 r else r, s)))"

text \<open>
  \<open>__spiTransferBytes\<close>: at most 64 bytes through a local buffer of 16 words, which is zeroed,
  filled with the data (or \<open>0xFF\<close> bytes), copied to the FIFO, and after the transaction
  overwritten from the FIFO and copied out.
\<close>

definition tx_bytes :: "memory \<Rightarrow> ptr \<Rightarrow> nat \<Rightarrow> byte list" where
  "tx_bytes m data k = (case data of Some a \<Rightarrow> mem_bytes m a k | None \<Rightarrow> replicate k 0xFF)"

definition buf_word :: "byte list \<Rightarrow> nat \<Rightarrow> 32 word" where
  "buf_word buf i = bytes_word (take 4 (drop (4 * i) buf))"

definition spiTransferBytes_chunk ::
  "'h spi_env \<Rightarrow> nat \<Rightarrow> ptr \<Rightarrow> ptr \<Rightarrow> nat \<Rightarrow> (spi_fault, 'h spi_state) step" where
  "spiTransferBytes_chunk E n data out bytes s0 =
     (let bytes = (if bytes > 64 then 64 else bytes);
          words = (bytes + 3) div 4;
          buf = tx_bytes (mem s0) data bytes @ replicate (64 - bytes) 0
      in exec ([set_mosi_dlen E n (of_nat bytes * 8 - 1), set_miso_dlen E n (of_nat bytes * 8 - 1),
                fifo_fill n words (\<lambda>m i. buf_word buf i)] @ run_usr E n @
               [\<lambda>s. case out of None \<Rightarrow> Inr s | Some a \<Rightarrow>
                  let buf = words_bytes (map (data_buf (dev_at s n)) [0..<words]) @ drop (4 * words) buf
                  in Inr (store a (take bytes buf) s)]) s0)"

definition advance :: "ptr \<Rightarrow> nat \<Rightarrow> ptr" where
  "advance p k = map_option (\<lambda>a. a + k) p"

function spiTransferBytes_loop ::
  "'h spi_env \<Rightarrow> nat \<Rightarrow> ptr \<Rightarrow> ptr \<Rightarrow> nat \<Rightarrow> (spi_fault, 'h spi_state) step" where
  "spiTransferBytes_loop E n data out sz s =
     (if sz = 0 then Inr s
      else if sz > 64 then
        bindr (spiTransferBytes_chunk E n data out 64 s)
          (spiTransferBytes_loop E n (advance data 64) (advance out 64) (sz - 64))
      else spiTransferBytes_chunk E n data out sz s)"
  by pat_completeness auto
termination
  by (relation "measure (\<lambda>(E, n, data, out, sz, s). sz)") auto

declare spiTransferBytes_loop.simps [simp del]

definition spiTransferBytes ::
  "'h spi_env \<Rightarrow> spi_ptr \<Rightarrow> ptr \<Rightarrow> ptr \<Rightarrow> 32 word \<Rightarrow> (spi_fault, 'h spi_state) step" where
  "spiTransferBytes E spi data out sz = (case spi of None \<Rightarrow> Inr | Some n \<Rightarrow>
     locked n [spiTransferBytes_loop E n data out (unat sz)])"

section \<open>Transfers inside a transaction\<close>

definition spiWriteByteNL :: "'h spi_env \<Rightarrow> spi_ptr \<Rightarrow> 8 word \<Rightarrow> (spi_fault, 'h spi_state) step" where
  "spiWriteByteNL E spi data = (case spi of None \<Rightarrow> Inr | Some n \<Rightarrow>
     exec (word_write E n 7 (ucast data)))"

definition spiTransferByteNL ::
  "'h spi_env \<Rightarrow> spi_ptr \<Rightarrow> 8 word \<Rightarrow> 'h spi_state \<Rightarrow> spi_fault + (8 word \<times> 'h spi_state)" where
  "spiTransferByteNL E spi data s = (case spi of None \<Rightarrow> Inr (0, s) | Some n \<Rightarrow>
     bindr (free_exchange E n 7 (ucast data) s) (\<lambda>(r, s). Inr (ucast (r AND 0xFF), s)))"

definition spiWriteShortNL :: "'h spi_env \<Rightarrow> spi_ptr \<Rightarrow> 16 word \<Rightarrow> (spi_fault, 'h spi_state) step" where
  "spiWriteShortNL E spi data s = (case spi of None \<Rightarrow> Inr s | Some n \<Rightarrow>
     let data = (if \<not> wr_lsb E n s then MSB_16_SET_short data else data) in
     exec (word_write E n 15 (ucast data)) s)"

definition spiTransferShortNL ::
  "'h spi_env \<Rightarrow> spi_ptr \<Rightarrow> 16 word \<Rightarrow> 'h spi_state \<Rightarrow> spi_fault + (16 word \<times> 'h spi_state)" where
  "spiTransferShortNL E spi data s = (case spi of None \<Rightarrow> Inr (0, s) | Some n \<Rightarrow>
     let data = (if \<not> wr_lsb E n s then MSB_16_SET_short data else data) in
     bindr (free_exchange E n 15 (ucast data) s)
       (\<lambda>(r, s). let data = ucast (r AND 0xFFFF)
                 in Inr (if \<not> rd_lsb E n s then MSB_16_SET_short data else data, s)))"

definition spiWriteLongNL :: "'h spi_env \<Rightarrow> spi_ptr \<Rightarrow> 32 word \<Rightarrow> (spi_fault, 'h spi_state) step" where
  "spiWriteLongNL E spi data s = (case spi of None \<Rightarrow> Inr s | Some n \<Rightarrow>
     let data = (if \<not> wr_lsb E n s then MSB_32_SET data else data) in
     exec (word_write E n 31 data) s)"

definition spiTransferLongNL ::
  "'h spi_env \<Rightarrow> spi_ptr \<Rightarrow> 32 word \<Rightarrow> 'h spi_state \<Rightarrow> spi_fault + (32 word \<times> 'h spi_state)" where
  "spiTransferLongNL E spi data s = (case spi of None \<Rightarrow> Inr (0, s) | Some n \<Rightarrow>
     let data = (if \<not> wr_lsb E n s then MSB_32_SET data else data) in
     bindr (free_exchange E n 31 data s)
       (\<lambda>(r, s). Inr (if \<not> rd_lsb E n s then MSB_32_SET r else r, s)))"

text \<open>\<^verbatim>\<open>longs = len >> 2; if(len & 3) longs++;\<close>\<close>

definition longs_of :: "nat \<Rightarrow> nat" where
  "longs_of len = len div 4 + (if len mod 4 \<noteq> 0 then 1 else 0)"

function spiWriteNL_loop ::
  "'h spi_env \<Rightarrow> nat \<Rightarrow> ptr \<Rightarrow> nat \<Rightarrow> nat \<Rightarrow> (spi_fault, 'h spi_state) step" where
  "spiWriteNL_loop E n data longs len s =
     (if len = 0 then Inr s
      else let c_len = (if len > 64 then 64 else len);
               c_longs = (if longs > 16 then 16 else longs)
        in bindr (exec ([set_mosi_dlen E n (of_nat c_len * 8 - 1), set_miso_dlen E n 0,
                         fifo_from n c_longs data] @ run_usr E n) s)
             (spiWriteNL_loop E n (advance data (4 * c_longs)) (longs - c_longs) (len - c_len)))"
  by pat_completeness auto
termination
  by (relation "measure (\<lambda>(E, n, data, longs, len, s). len)") (auto simp: Let_def)

text \<open>\<open>spiWriteNL\<close> and \<open>spiWritePixelsNL\<close> do not check their bus pointer: the first register access
  through NULL is a fault.\<close>

definition spiWriteNL :: "'h spi_env \<Rightarrow> spi_ptr \<Rightarrow> ptr \<Rightarrow> 32 word \<Rightarrow> (spi_fault, 'h spi_state) step" where
  "spiWriteNL E spi data_in len s = (case spi of
       None \<Rightarrow> if len = 0 then Inr s else Inl NullBus
     | Some n \<Rightarrow> spiWriteNL_loop E n data_in (longs_of (unat len)) (unat len) s)"

definition fifo_from_or_ones :: "nat \<Rightarrow> nat \<Rightarrow> ptr \<Rightarrow> (spi_fault, 'h spi_state) step" where
  "fifo_from_or_ones n k data = (case data of
       Some a \<Rightarrow> fifo_fill n k (\<lambda>m i. mem_word m (a + 4 * i))
     | None \<Rightarrow> fifo_fill n k (\<lambda>m i. 0xFFFFFFFF))"

function spiTransferBytesNL_loop ::
  "'h spi_env \<Rightarrow> nat \<Rightarrow> ptr \<Rightarrow> ptr \<Rightarrow> nat \<Rightarrow> nat \<Rightarrow> (spi_fault, 'h spi_state) step" where
  "spiTransferBytesNL_loop E n data result longs len s =
     (if len = 0 then Inr s
      else let c_len = (if len > 64 then 64 else len);
               c_longs = (if longs > 16 then 16 else longs)
        in bindr (exec ([set_mosi_dlen E n (of_nat c_len * 8 - 1),
                         set_miso_dlen E n (of_nat c_len * 8 - 1),
                         fifo_from_or_ones n c_longs data] @ run_usr E n @
                        (if result = None then [] else [fifo_to n c_longs result])) s)
             (spiTransferBytesNL_loop E n (advance data (4 * c_longs)) (advance result (4 * c_longs))
                (longs - c_longs) (len - c_len)))"
  by pat_completeness auto
termination
  by (relation "measure (\<lambda>(E, n, data, result, longs, len, s). len)") (auto simp: Let_def)

definition spiTransferBytesNL ::
  "'h spi_env \<Rightarrow> spi_ptr \<Rightarrow> ptr \<Rightarrow> ptr \<Rightarrow> 32 word \<Rightarrow> (spi_fault, 'h spi_state) step" where
  "spiTransferBytesNL E spi data_in data_out len = (case spi of None \<Rightarrow> Inr | Some n \<Rightarrow>
     spiTransferBytesNL_loop E n data_in data_out (longs_of (unat len)) (unat len))"

text \<open>\<^verbatim>\<open>#define spiTransferNL(spi, data, len)\<close>\<close>

definition spiTransferNL :: "'h spi_env \<Rightarrow> spi_ptr \<Rightarrow> ptr \<Rightarrow> 32 word \<Rightarrow> (spi_fault, 'h spi_state) step" where
  "spiTransferNL E spi data len = spiTransferBytesNL E spi data data len"

text \<open>The conversion of \<open>spiTransferBitsNL\<close> for \<open>bytes\<close> bytes.\<close>

definition bits_convert :: "nat \<Rightarrow> 32 word \<Rightarrow> 32 word" where
  "bits_convert bytes data =
     (if bytes = 2 then MSB_16_SET data
      else if bytes = 3 then MSB_24_SET data
      else MSB_32_SET data)"

definition spiTransferBitsNL ::
  "'h spi_env \<Rightarrow> spi_ptr \<Rightarrow> 32 word \<Rightarrow> ptr \<Rightarrow> 8 word \<Rightarrow> (spi_fault, 'h spi_state) step" where
  "spiTransferBitsNL E spi data out bits s0 = (case spi of None \<Rightarrow> Inr s0 | Some n \<Rightarrow>
     let bits = (if bits > 32 then 32 else bits);
         bytes = (unat bits + 7) div 8;
         data = data AND mask (unat bits);
         data = (if \<not> wr_lsb E n s0 then bits_convert bytes data else data)
     in exec ([set_mosi_dlen E n (ucast bits - 1), set_miso_dlen E n (ucast bits - 1),
               fifo_put n 0 data] @ run_usr E n @
              [\<lambda>s. let data = data_buf (dev_at s n) 0 in
                 case out of None \<Rightarrow> Inr s
                 | Some a \<Rightarrow>
                     let s = store a (word_bytes data) s
                     in Inr (if \<not> rd_lsb E n s then store a (word_bytes (bits_convert bytes data)) s else s)])
          s0)"

definition spiTransferBits ::
  "'h spi_env \<Rightarrow> spi_ptr \<Rightarrow> 32 word \<Rightarrow> ptr \<Rightarrow> 8 word \<Rightarrow> (spi_fault, 'h spi_state) step" where
  "spiTransferBits E spi data out bits = (case spi of None \<Rightarrow> Inr | Some n \<Rightarrow>
     locked n [spiTransferBitsNL E spi data out bits])"

text \<open>The word written for source word \<open>w\<close> at position \<open>i\<close> of a round of \<open>k\<close> words, \<open>l_bytes\<close> being the
  round's length modulo 4.\<close>

definition pixel_word :: "bool \<Rightarrow> nat \<Rightarrow> nat \<Rightarrow> nat \<Rightarrow> 32 word \<Rightarrow> 32 word" where
  "pixel_word msb l_bytes k i w =
     (if msb then
        (if l_bytes \<noteq> 0 \<and> i = k - 1 then
           (if l_bytes = 2 then MSB_16_SET w else w AND 0xFF)
         else MSB_PIX_SET w)
      else w)"

definition pixels_from :: "nat \<Rightarrow> bool \<Rightarrow> nat \<Rightarrow> nat \<Rightarrow> ptr \<Rightarrow> (spi_fault, 'h spi_state) step" where
  "pixels_from n msb l_bytes k data s = (case data of
       None \<Rightarrow> if k = 0 then Inr s else Inl NullBuffer
     | Some a \<Rightarrow> fifo_fill n k (\<lambda>m i. pixel_word msb l_bytes k i (mem_word m (a + 4 * i))) s)"

function spiWritePixelsNL_loop ::
  "'h spi_env \<Rightarrow> nat \<Rightarrow> bool \<Rightarrow> ptr \<Rightarrow> nat \<Rightarrow> nat \<Rightarrow> (spi_fault, 'h spi_state) step" where
  "spiWritePixelsNL_loop E n msb data longs len s =
     (if len = 0 then Inr s
      else let c_len = (if len > 64 then 64 else len);
               c_longs = (if longs > 16 then 16 else longs);
               l_bytes = c_len mod 4
        in bindr (exec ([set_mosi_dlen E n (of_nat c_len * 8 - 1), set_miso_dlen E n 0,
                         pixels_from n msb l_bytes c_longs data] @ run_usr E n) s)
             (spiWritePixelsNL_loop E n msb (advance data (4 * c_longs)) (longs - c_longs) (len - c_len)))"
  by pat_completeness auto
termination
  by (relation "measure (\<lambda>(E, n, msb, data, longs, len, s). len)") (auto simp: Let_def)

declare spiWriteNL_loop.simps [simp del] spiTransferBytesNL_loop.simps [simp del]
  spiWritePixelsNL_loop.simps [simp del]

definition spiWritePixelsNL :: "'h spi_env \<Rightarrow> spi_ptr \<Rightarrow> ptr \<Rightarrow> 32 word \<Rightarrow> (spi_fault, 'h spi_state) step" where
  "spiWritePixelsNL E spi data_in len s = (case spi of None \<Rightarrow> Inl NullBus | Some n \<Rightarrow>
     let msb = \<not> wr_lsb E n s in
     spiWritePixelsNL_loop E n msb data_in (longs_of (unat len)) (unat len) s)"

end
