(* ===== verification/Spi_Duplex.thy ===== *)
theory Spi_Duplex
  imports Spi_Transfer
begin

text \<open>
  Correctness of the SPI transfers against the wire: a peripheral is a function from the bytes the
  controller shifts out to the bytes it shifts in, and the transfer calls of \<^verbatim>\<open>esp32/esp32spi.c\<close> are
  shown to feed it exactly the caller's buffer, in chunks of at most 64 bytes, and to return its
  answer.
\<close>

section \<open>The peripheral behind the controller\<close>

text \<open>The configuration a transaction runs under: every register a transfer call leaves alone.\<close>

definition bus_config :: "spi_dev \<Rightarrow> 32 word list" where
  "bus_config d = [ctrl d, ctrl1 d, ctrl2 d, clock d, user d, user1 d, pin d, slave d]"

definition fifo_bytes :: "(nat \<Rightarrow> 32 word) \<Rightarrow> byte list" where
  "fifo_bytes b = words_bytes (map b [0..<16])"

type_synonym 'h peer = "nat \<Rightarrow> 32 word list \<Rightarrow> byte list \<Rightarrow> 'h \<Rightarrow> byte list \<times> 'h"

text \<open>
  The manual's account of a full-duplex transaction whose two length registers hold \<open>8k - 1\<close>: the
  first \<open>k\<close> bytes of the FIFO go out and are replaced by the \<open>k\<close> bytes that come in.
\<close>

definition duplex_ok :: "'h spi_env \<Rightarrow> (nat \<Rightarrow> spi_dev \<Rightarrow> 'h \<Rightarrow> (nat \<Rightarrow> 32 word) \<times> 'h) \<Rightarrow> 'h peer \<Rightarrow> bool" where
  "duplex_ok E xact peer \<longleftrightarrow> (\<forall>n d h k. 1 \<le> k \<longrightarrow> k \<le> 64 \<longrightarrow>
     unat (get_low (n_dbitlen (layout E)) (mosi_dlen d)) = 8 * k - 1 \<longrightarrow>
     unat (get_low (n_dbitlen (layout E)) (miso_dlen d)) = 8 * k - 1 \<longrightarrow>
     take k (fifo_bytes (fst (xact n d h))) = fst (peer n (bus_config d) (take k (fifo_bytes (data_buf d))) h)
     \<and> snd (xact n d h) = snd (peer n (bus_config d) (take k (fifo_bytes (data_buf d))) h))"

definition same_but_transfer :: "nat \<Rightarrow> 'h spi_state \<Rightarrow> 'h spi_state \<Rightarrow> bool" where
  "same_but_transfer n s t \<longleftrightarrow> (\<forall>k. k \<noteq> n \<longrightarrow> buses t k = buses s k)
     \<and> lock_at t n = lock_at s n \<and> bus_config (dev_at t n) = bus_config (dev_at s n)
     \<and> gpio_calls t = gpio_calls s \<and> dport_calls t = dport_calls s"

lemma same_but_transfer_refl [simp]: "same_but_transfer n s s"
  by (simp add: same_but_transfer_def)

lemma same_but_transfer_trans:
  "same_but_transfer n s t \<Longrightarrow> same_but_transfer n t u \<Longrightarrow> same_but_transfer n s u"
  by (simp add: same_but_transfer_def)

lemma same_but_transfer_store [simp]:
  "same_but_transfer n s (store a bs t) = same_but_transfer n s t"
  by (simp add: same_but_transfer_def)

section \<open>One transaction\<close>

lemma length_fifo_bytes [simp]: "length (fifo_bytes b) = 64"
  by (simp add: fifo_bytes_def)

lemma dlen_value:
  assumes "layout_ok L" and "1 \<le> k" and "k \<le> 64"
  shows "unat (get_low (n_dbitlen L) (put_low (n_dbitlen L) (of_nat k * 8 - 1) w)) = 8 * k - 1"
proof -
  let ?v = "of_nat k * 8 - 1 :: 32 word"
  have v: "?v = of_nat (8 * k - 1)"
    using assms(2) by (simp add: of_nat_diff mult.commute)
  have uv: "unat ?v = 8 * k - 1"
    unfolding v using assms(3) by (simp add: unat_of_nat)
  have "(2 :: nat) ^ 9 \<le> 2 ^ n_dbitlen L"
    using layout_okD(12) [OF assms(1)] by (intro power_increasing) auto
  then show ?thesis
    using uv assms(3) by (simp add: get_low_put_low unat_get_low)
qed

lemma fifo_bytes_prefix:
  assumes "k \<le> 4 * w" and "w \<le> 16"
  shows "take k (fifo_bytes (\<lambda>i. if i < w then g i else h i)) = take k (words_bytes (map g [0..<w]))"
proof -
  have "[0..<16] = [0..<w] @ [w..<16]"
    using assms(2) by (metis le_add_diff_inverse upt_add_eq_append zero_le)
  moreover have "map (\<lambda>i. if i < w then g i else h i) [0..<w] = map g [0..<w]"
    by (rule map_cong) auto
  ultimately have "fifo_bytes (\<lambda>i. if i < w then g i else h i) =
      words_bytes (map g [0..<w]) @ words_bytes (map (\<lambda>i. if i < w then g i else h i) [w..<16])"
    by (simp only: fifo_bytes_def map_append words_bytes_simps)
  with assms(1) show ?thesis by simp
qed

text \<open>Set the lengths, fill \<open>w\<close> words, run: one transaction on the state \<open>d\<close> of the controller.\<close>

lemma transaction_core:
  assumes ctrl: "controller_ok E xact" and lay: "layout_ok (layout E)"
    and fill: "\<And>s. fill s = Inr (upd_dev n (\<lambda>d. d\<lparr>data_buf := (\<lambda>i. if i < w then f (mem s) i else data_buf d i)\<rparr>) s)"
  obtains t d where
    "exec ([set_mosi_dlen E n a, set_miso_dlen E n b, fill] @ run_usr E n) s = Inr t"
    and "data_buf (dev_at t n) = fst (xact n d (hw s))" and "hw t = snd (xact n d (hw s))"
    and "mem t = mem s" and "same_but_transfer n s t"
    and "bus_config d = bus_config (dev_at s n)"
    and "data_buf d = (\<lambda>i. if i < w then f (mem s) i else data_buf (dev_at s n) i)"
    and "mosi_dlen d = put_low (n_dbitlen (layout E)) a (mosi_dlen (dev_at s n))"
    and "miso_dlen d = put_low (n_dbitlen (layout E)) b (miso_dlen (dev_at s n))"
proof -
  let ?L = "layout E"
  define d where "d = (dev_at s n)\<lparr>mosi_dlen := put_low (n_dbitlen ?L) a (mosi_dlen (dev_at s n)),
     miso_dlen := put_low (n_dbitlen ?L) b (miso_dlen (dev_at s n)),
     data_buf := (\<lambda>i. if i < w then f (mem s) i else data_buf (dev_at s n) i),
     cmd := put_bit (b_usr ?L) True (cmd (dev_at s n))\<rparr>"
  define t where "t = (upd_dev n (\<lambda>_. d\<lparr>cmd := put_bit (b_usr ?L) False (cmd d),
     data_buf := fst (xact n d (hw s))\<rparr>) s)\<lparr>hw := snd (xact n d (hw s))\<rparr>"
  define u where "u = upd_dev n (\<lambda>_. d) s"
  have usr: "bit (cmd d) (b_usr ?L)"
    using layout_okD(1) [OF lay] by (simp add: d_def regs)
  have pre: "exec [set_mosi_dlen E n a, set_miso_dlen E n b, fill, set_usr E n] s = Inr u"
    by (simp add: stmt fill u_def) (rule upd_dev_eqI, simp add: d_def cong: if_cong)
  have "wait_usr E n u = Inr t"
    using usr wait_usr_step [OF ctrl, of u n] by (simp add: u_def t_def comp_def)
  with pre have run: "exec ([set_mosi_dlen E n a, set_miso_dlen E n b, fill] @ run_usr E n) s = Inr t"
    by (auto simp: run_usr_def bindr_eq_Inr_iff)
  show ?thesis
  proof (rule that [OF run, of d])
    show "same_but_transfer n s t"
      by (simp add: t_def same_but_transfer_def bus_config_def upd_dev_def d_def)
  qed (simp_all add: t_def d_def bus_config_def)
qed

text \<open>One full-duplex transaction of \<open>k\<close> bytes: the peripheral gets the first \<open>k\<close> bytes of the filled
  words and its answer is in the FIFO.\<close>

lemma transaction_bytes:
  assumes ctrl: "controller_ok E xact" and dup: "duplex_ok E xact peer" and lay: "layout_ok (layout E)"
    and k: "1 \<le> k" "k \<le> 64" and w: "k \<le> 4 * w" "w \<le> 16"
    and fill: "\<And>s. fill s = Inr (upd_dev n (\<lambda>d. d\<lparr>data_buf := (\<lambda>i. if i < w then f (mem s) i else data_buf d i)\<rparr>) s)"
    and r: "r = peer n (bus_config (dev_at s n)) (take k (words_bytes (map (f (mem s)) [0..<w]))) (hw s)"
  obtains t where
    "exec ([set_mosi_dlen E n (of_nat k * 8 - 1), set_miso_dlen E n (of_nat k * 8 - 1), fill] @ run_usr E n) s = Inr t"
    and "take k (fifo_bytes (data_buf (dev_at t n))) = fst r" and "hw t = snd r"
    and "mem t = mem s" and "same_but_transfer n s t"
proof -
  obtain t d where
    run: "exec ([set_mosi_dlen E n (of_nat k * 8 - 1), set_miso_dlen E n (of_nat k * 8 - 1), fill] @ run_usr E n) s = Inr t"
    and t: "data_buf (dev_at t n) = fst (xact n d (hw s))" "hw t = snd (xact n d (hw s))"
      "mem t = mem s" "same_but_transfer n s t"
    and d: "bus_config d = bus_config (dev_at s n)"
      "data_buf d = (\<lambda>i. if i < w then f (mem s) i else data_buf (dev_at s n) i)"
      "mosi_dlen d = put_low (n_dbitlen (layout E)) (of_nat k * 8 - 1) (mosi_dlen (dev_at s n))"
      "miso_dlen d = put_low (n_dbitlen (layout E)) (of_nat k * 8 - 1) (miso_dlen (dev_at s n))"
    by (rule transaction_core [OF ctrl lay fill])
  have dlen: "unat (get_low (n_dbitlen (layout E)) (mosi_dlen d)) = 8 * k - 1"
    "unat (get_low (n_dbitlen (layout E)) (miso_dlen d)) = 8 * k - 1"
    by (simp_all add: d dlen_value [OF lay k])
  have "take k (fifo_bytes (data_buf d)) = take k (words_bytes (map (f (mem s)) [0..<w]))"
    by (simp only: d fifo_bytes_prefix [OF w])
  then show ?thesis
    using that [OF run] t dup [unfolded duplex_ok_def, rule_format, OF k dlen(1) dlen(2)]
    by (simp add: d(1) r)
qed

text \<open>A write-only transaction of \<open>k\<close> bytes (\<open>miso_dlen\<close> zero): the peripheral gets the first \<open>k\<close>
  bytes of the FIFO; what the FIFO holds afterwards does not matter.\<close>

type_synonym 'h sink = "nat \<Rightarrow> 32 word list \<Rightarrow> byte list \<Rightarrow> 'h \<Rightarrow> 'h"

definition write_ok :: "'h spi_env \<Rightarrow> (nat \<Rightarrow> spi_dev \<Rightarrow> 'h \<Rightarrow> (nat \<Rightarrow> 32 word) \<times> 'h) \<Rightarrow> 'h sink \<Rightarrow> bool" where
  "write_ok E xact sink \<longleftrightarrow> (\<forall>n d h k. 1 \<le> k \<longrightarrow> k \<le> 64 \<longrightarrow>
     unat (get_low (n_dbitlen (layout E)) (mosi_dlen d)) = 8 * k - 1 \<longrightarrow>
     get_low (n_dbitlen (layout E)) (miso_dlen d) = 0 \<longrightarrow>
     snd (xact n d h) = sink n (bus_config d) (take k (fifo_bytes (data_buf d))) h)"

lemma transaction_write:
  assumes ctrl: "controller_ok E xact" and snk: "write_ok E xact sink" and lay: "layout_ok (layout E)"
    and k: "1 \<le> k" "k \<le> 64" and w: "k \<le> 4 * w" "w \<le> 16"
    and fill: "\<And>s. fill s = Inr (upd_dev n (\<lambda>d. d\<lparr>data_buf := (\<lambda>i. if i < w then f (mem s) i else data_buf d i)\<rparr>) s)"
  obtains t where
    "exec ([set_mosi_dlen E n (of_nat k * 8 - 1), set_miso_dlen E n 0, fill] @ run_usr E n) s = Inr t"
    and "hw t = sink n (bus_config (dev_at s n)) (take k (words_bytes (map (f (mem s)) [0..<w]))) (hw s)"
    and "mem t = mem s" and "same_but_transfer n s t"
proof -
  obtain t d where
    run: "exec ([set_mosi_dlen E n (of_nat k * 8 - 1), set_miso_dlen E n 0, fill] @ run_usr E n) s = Inr t"
    and t: "data_buf (dev_at t n) = fst (xact n d (hw s))" "hw t = snd (xact n d (hw s))"
      "mem t = mem s" "same_but_transfer n s t"
    and d: "bus_config d = bus_config (dev_at s n)"
      "data_buf d = (\<lambda>i. if i < w then f (mem s) i else data_buf (dev_at s n) i)"
      "mosi_dlen d = put_low (n_dbitlen (layout E)) (of_nat k * 8 - 1) (mosi_dlen (dev_at s n))"
      "miso_dlen d = put_low (n_dbitlen (layout E)) 0 (miso_dlen (dev_at s n))"
    by (rule transaction_core [OF ctrl lay fill])
  have dlen: "unat (get_low (n_dbitlen (layout E)) (mosi_dlen d)) = 8 * k - 1"
    "get_low (n_dbitlen (layout E)) (miso_dlen d) = 0"
    by (simp only: d dlen_value [OF lay k]) (simp only: d get_low_put_low get_low_0)
  have "take k (fifo_bytes (data_buf d)) = take k (words_bytes (map (f (mem s)) [0..<w]))"
    by (simp only: d fifo_bytes_prefix [OF w])
  then show ?thesis
    using that [OF run] t snk [unfolded write_ok_def, rule_format, OF k dlen(1) dlen(2)]
    by (simp add: d(1))
qed

section \<open>Chunks and whole buffers\<close>

definition rx_store :: "memory \<Rightarrow> ptr \<Rightarrow> byte list \<Rightarrow> memory" where
  "rx_store m out bs = (case out of None \<Rightarrow> m | Some a \<Rightarrow> mem_store m a bs)"

lemma words_bytes_buf_word:
  "4 * w \<le> length buf \<Longrightarrow> words_bytes (map (buf_word buf) [0..<w]) = take (4 * w) buf"
proof (induction w)
  case 0
  then show ?case by simp
next
  case (Suc w)
  have "length (take 4 (drop (4 * w) buf)) = 4"
    using Suc.prems by simp
  then have "word_bytes (buf_word buf w) = take 4 (drop (4 * w) buf)"
    by (simp add: buf_word_def word_bytes_inverse)
  moreover have "take (4 * Suc w) buf = take (4 * w) buf @ take 4 (drop (4 * w) buf)"
    by (simp add: take_add [symmetric] add.commute)
  ultimately show ?case using Suc by simp
qed

lemma length_tx_bytes [simp]: "length (tx_bytes m data k) = k"
  by (simp add: tx_bytes_def split: option.split)

lemma take_fifo_bytes:
  assumes "k \<le> 4 * w" and "w \<le> 16"
  shows "take k (words_bytes (map b [0..<w])) = take k (fifo_bytes b)"
  using fifo_bytes_prefix [OF assms, of b b] by (simp cong: if_cong)

text \<open>\<open>__spiTransferBytes\<close> exchanges its bytes with the peripheral and stores exactly the answer.\<close>

lemma chunk_exchange:
  assumes "controller_ok E xact" and "duplex_ok E xact peer" and "layout_ok (layout E)"
    and k: "1 \<le> k" "k \<le> 64"
    and r: "r = peer n (bus_config (dev_at s n)) (tx_bytes (mem s) data k) (hw s)"
  obtains t where "spiTransferBytes_chunk E n data out k s = Inr t" and "hw t = snd r"
    and "length (fst r) = k" and "mem t = rx_store (mem s) out (fst r)" and "same_but_transfer n s t"
proof -
  define w where "w = (k + 3) div 4"
  define buf where "buf = tx_bytes (mem s) data k @ replicate (64 - k) 0"
  have w: "k \<le> 4 * w" "w \<le> 16" using k(2) by (simp_all add: w_def)
  have len: "length buf = 64" using k(2) by (simp add: buf_def)
  have fill: "fifo_fill n w (\<lambda>m i. buf_word buf i) u =
      Inr (upd_dev n (\<lambda>d. d\<lparr>data_buf := (\<lambda>i. if i < w then buf_word buf i else data_buf d i)\<rparr>) u)" for u
    using w(2) by (rule fifo_fill_step)
  have "take k (words_bytes (map (\<lambda>i. buf_word buf i) [0..<w])) = take k (take (4 * w) buf)"
    using w len by (simp only: words_bytes_buf_word)
  also have "\<dots> = tx_bytes (mem s) data k"
    using w by (simp add: buf_def)
  finally have "r = peer n (bus_config (dev_at s n)) (take k (words_bytes (map (\<lambda>i. buf_word buf i) [0..<w]))) (hw s)"
    using r by simp
  from transaction_bytes [OF assms(1,2,3) k w fill this]
  obtain t where t: "exec ([set_mosi_dlen E n (of_nat k * 8 - 1), set_miso_dlen E n (of_nat k * 8 - 1),
        fifo_fill n w (\<lambda>m i. buf_word buf i)] @ run_usr E n) s = Inr t"
      "take k (fifo_bytes (data_buf (dev_at t n))) = fst r" "hw t = snd r" "mem t = mem s"
      "same_but_transfer n s t"
    by blast
  define u where "u = (case out of None \<Rightarrow> t | Some a \<Rightarrow> store a (fst r) t)"
  have received: "take k (words_bytes (map (data_buf (dev_at t n)) [0..<w]) @ drop (4 * w) buf) = fst r"
    using w t(2) take_fifo_bytes [OF w, of "data_buf (dev_at t n)"] by simp
  have "spiTransferBytes_chunk E n data out k s = Inr u"
    using k(2) received exec_then [OF t(1)]
    by (simp add: spiTransferBytes_chunk_def Let_def w_def [symmetric] buf_def [symmetric] u_def
        del: exec.simps take_append append_Cons split: option.split)
  moreover have "length (fst r) = k"
    using t(2) [symmetric] k(2) by simp
  ultimately show ?thesis
    using that [of u] t(3-5) by (simp add: u_def rx_store_def split: option.split)
qed

text \<open>What a peripheral answers to a buffer sent in chunks of 64 bytes.\<close>

function exchange :: "(byte list \<Rightarrow> 'h \<Rightarrow> byte list \<times> 'h) \<Rightarrow> byte list \<Rightarrow> 'h \<Rightarrow> byte list \<times> 'h" where
  "exchange R bs h =
     (if bs = [] then ([], h)
      else let r = R (take 64 bs) h; q = exchange R (drop 64 bs) (snd r)
           in (fst r @ fst q, snd q))"
  by pat_completeness auto
termination
  by (relation "measure (\<lambda>(R, bs, h). length bs)") auto

declare exchange.simps [simp del]

lemma exchange_Nil [simp]: "exchange R [] h = ([], h)"
  by (simp add: exchange.simps)

lemma exchange_one: "bs \<noteq> [] \<Longrightarrow> length bs \<le> 64 \<Longrightarrow> exchange R bs h = (fst (R bs h), snd (R bs h))"
  by (subst exchange.simps) (simp add: Let_def)

lemma exchange_more:
  "length bs = 64 \<Longrightarrow> exchange R (bs @ cs) h =
     (fst (R bs h) @ fst (exchange R cs (snd (R bs h))), snd (exchange R cs (snd (R bs h))))"
  by (subst exchange.simps) (auto simp: Let_def)

text \<open>The same with the buffers in memory: every chunk is read when it is sent, after the answers to the earlier
  ones have been stored.\<close>

function exchange_in ::
  "(byte list \<Rightarrow> 'h \<Rightarrow> byte list \<times> 'h) \<Rightarrow> ptr \<Rightarrow> ptr \<Rightarrow> nat \<Rightarrow> memory \<times> 'h \<Rightarrow> memory \<times> 'h" where
  "exchange_in R data out sz x =
     (if sz = 0 then x
      else let k = min 64 sz; r = R (tx_bytes (fst x) data k) (snd x)
           in exchange_in R (advance data k) (advance out k) (sz - k) (rx_store (fst x) out (fst r), snd r))"
  by pat_completeness auto
termination
  by (relation "measure (\<lambda>(R, data, out, sz, x). sz)") auto

declare exchange_in.simps [simp del]

lemma exchange_in_0 [simp]: "exchange_in R data out 0 x = x"
  by (simp add: exchange_in.simps)

lemma exchange_in_one:
  "1 \<le> sz \<Longrightarrow> sz \<le> 64 \<Longrightarrow> r = R (tx_bytes m data sz) h \<Longrightarrow>
     exchange_in R data out sz (m, h) = (rx_store m out (fst r), snd r)"
  by (subst exchange_in.simps) (simp add: Let_def)

lemma exchange_in_more:
  "64 < sz \<Longrightarrow> r = R (tx_bytes m data 64) h \<Longrightarrow>
     exchange_in R data out sz (m, h) =
       exchange_in R (advance data 64) (advance out 64) (sz - 64) (rx_store m out (fst r), snd r)"
  by (subst exchange_in.simps) (simp add: Let_def)

text \<open>A buffer of one chunk is read completely before the answer is stored; in a longer one the destination must
  not run ahead into the part of the source that is still to be read.\<close>

definition no_clobber :: "ptr \<Rightarrow> ptr \<Rightarrow> nat \<Rightarrow> bool" where
  "no_clobber data out sz \<longleftrightarrow>
     (case (data, out) of (Some a, Some b) \<Rightarrow> sz \<le> 64 \<or> b \<le> a \<or> a + sz \<le> b | _ \<Rightarrow> True)"

lemma tx_bytes_split: "tx_bytes m data (j + k) = tx_bytes m data j @ tx_bytes m (advance data j) k"
  by (auto simp: tx_bytes_def advance_def mem_bytes_add replicate_add split: option.split)

lemma tx_bytes_rx_store:
  assumes "no_clobber data out (64 + k)" and "length bs = 64"
  shows "tx_bytes (rx_store m out bs) (advance data 64) k = tx_bytes m (advance data 64) k"
  using assms
  by (auto simp: tx_bytes_def rx_store_def advance_def no_clobber_def mem_store_apply
      intro!: mem_bytes_cong split: option.splits)

lemma mem_store_append: "mem_store m a (bs @ cs) = mem_store (mem_store m a bs) (a + length bs) cs"
  by (induction bs arbitrary: m a) simp_all

lemma rx_store_append:
  "rx_store m out (bs @ cs) = rx_store (rx_store m out bs) (advance out (length bs)) cs"
  by (simp add: rx_store_def advance_def mem_store_append split: option.split)

lemma rx_store_Nil [simp]: "rx_store m out [] = m"
  by (simp add: rx_store_def split: option.split)

lemma no_clobber_advance: "no_clobber data out (64 + k) \<Longrightarrow> no_clobber (advance data 64) (advance out 64) k"
  by (auto simp: no_clobber_def advance_def split: option.splits)

text \<open>The state after a transfer, in terms of what the peripheral received and answered.\<close>

definition exchanged ::
  "'h peer \<Rightarrow> nat \<Rightarrow> ptr \<Rightarrow> ptr \<Rightarrow> nat \<Rightarrow> 'h spi_state \<Rightarrow> 'h spi_state \<Rightarrow> bool" where
  "exchanged peer n data out sz s t \<longleftrightarrow>
     (let q = exchange (peer n (bus_config (dev_at s n))) (tx_bytes (mem s) data sz) (hw s)
      in length (fst q) = sz \<and> hw t = snd q \<and> mem t = rx_store (mem s) out (fst q)
         \<and> same_but_transfer n s t)"

lemma exchanged_step:
  assumes r: "r = peer n (bus_config (dev_at s n)) (tx_bytes (mem s) data 64) (hw s)"
    and t: "hw t = snd r" "length (fst r) = 64" "mem t = rx_store (mem s) out (fst r)"
      "same_but_transfer n s t"
    and nc: "no_clobber data out (64 + k)"
    and u: "exchanged peer n (advance data 64) (advance out 64) k t u"
  shows "exchanged peer n data out (64 + k) s u"
proof -
  let ?R = "peer n (bus_config (dev_at s n))"
  have cfg: "bus_config (dev_at t n) = bus_config (dev_at s n)"
    using t(4) by (simp add: same_but_transfer_def)
  have tx: "tx_bytes (rx_store (mem s) out (fst r)) (advance data 64) k = tx_bytes (mem s) (advance data 64) k"
    by (rule tx_bytes_rx_store [OF nc t(2)])
  have ex: "exchange ?R (tx_bytes (mem s) data (64 + k)) (hw s) =
      (fst r @ fst (exchange ?R (tx_bytes (mem s) (advance data 64) k) (snd r)),
       snd (exchange ?R (tx_bytes (mem s) (advance data 64) k) (snd r)))"
    using exchange_more [of "tx_bytes (mem s) data 64" ?R _ "hw s"] by (simp add: tx_bytes_split r)
  show ?thesis
    using u t(1,2,3) same_but_transfer_trans [OF t(4)]
    by (auto simp: exchanged_def Let_def cfg tx ex rx_store_append)
qed

text \<open>Whatever the buffers, the transfer is the exchange through memory; when the destination does not run ahead
  it is the exchange of the bytes that the source held at the start.\<close>

definition exchanged_in ::
  "'h peer \<Rightarrow> nat \<Rightarrow> ptr \<Rightarrow> ptr \<Rightarrow> nat \<Rightarrow> 'h spi_state \<Rightarrow> 'h spi_state \<Rightarrow> bool" where
  "exchanged_in peer n data out sz s t \<longleftrightarrow>
     (mem t, hw t) = exchange_in (peer n (bus_config (dev_at s n))) data out sz (mem s, hw s)
     \<and> same_but_transfer n s t \<and> (no_clobber data out sz \<longrightarrow> exchanged peer n data out sz s t)"

lemma loop_exchange:
  assumes "controller_ok E xact" and "duplex_ok E xact peer" and "layout_ok (layout E)"
  shows "\<exists>t. spiTransferBytes_loop E n data out sz s = Inr t \<and> exchanged_in peer n data out sz s t"
proof (induction sz arbitrary: data out s rule: less_induct)
  case (less sz)
  consider "sz = 0" | "1 \<le> sz" "sz \<le> 64" | "64 < sz" by linarith
  then show ?case
  proof cases
    case 1
    then show ?thesis
      by (subst spiTransferBytes_loop.simps)
        (auto simp: exchanged_in_def exchanged_def Let_def tx_bytes_def mem_bytes_def split: option.split)
  next
    case 2
    then have "tx_bytes (mem s) data sz \<noteq> []"
      by (metis length_tx_bytes list.size(3) not_one_le_zero)
    then have ex: "exchange R (tx_bytes (mem s) data sz) h = R (tx_bytes (mem s) data sz) h" for R and h :: 'a
      using 2 by (simp add: exchange_one)
    let ?r = "peer n (bus_config (dev_at s n)) (tx_bytes (mem s) data sz) (hw s)"
    obtain t where t: "spiTransferBytes_chunk E n data out sz s = Inr t" "hw t = snd ?r"
      "length (fst ?r) = sz" "mem t = rx_store (mem s) out (fst ?r)" "same_but_transfer n s t"
      by (rule chunk_exchange [OF assms(1-3) 2 refl, where n = n and s = s and data = data and out = out])
    then have "exchanged_in peer n data out sz s t"
      using 2 by (simp add: exchanged_in_def exchanged_def Let_def ex exchange_in_one [OF _ _ refl])
    with 2 t(1) show ?thesis
      by (subst spiTransferBytes_loop.simps) auto
  next
    case 3
    let ?r = "peer n (bus_config (dev_at s n)) (tx_bytes (mem s) data 64) (hw s)"
    have sz: "64 + (sz - 64) = sz" using 3 by simp
    obtain t where t: "spiTransferBytes_chunk E n data out 64 s = Inr t" "hw t = snd ?r"
      "length (fst ?r) = 64" "mem t = rx_store (mem s) out (fst ?r)" "same_but_transfer n s t"
      using chunk_exchange [OF assms(1-3) _ _ refl, where k = 64 and n = n and s = s and data = data and out = out] by auto
    obtain u where u: "spiTransferBytes_loop E n (advance data 64) (advance out 64) (sz - 64) t = Inr u"
      "exchanged_in peer n (advance data 64) (advance out 64) (sz - 64) t u"
      using less.IH [of "sz - 64" "advance data 64" "advance out 64" t] 3 by auto
    have "spiTransferBytes_loop E n data out sz s = Inr u"
      using 3 t(1) u(1) by (subst spiTransferBytes_loop.simps) simp
    moreover have "exchanged peer n data out sz s u" if nc: "no_clobber data out sz"
    proof -
      have nc: "no_clobber data out (64 + (sz - 64))" using that sz by simp
      have "exchanged peer n (advance data 64) (advance out 64) (sz - 64) t u"
        using u(2) no_clobber_advance [OF nc] by (simp add: exchanged_in_def)
      from exchanged_step [OF refl t(2-5) nc this] sz show ?thesis by simp
    qed
    moreover have "bus_config (dev_at t n) = bus_config (dev_at s n)"
      using t(5) by (simp add: same_but_transfer_def)
    then have "(mem u, hw u) = exchange_in (peer n (bus_config (dev_at s n))) data out sz (mem s, hw s)"
      unfolding exchange_in_more [OF 3 refl] using u(2) t(2,4) by (simp add: exchanged_in_def)
    ultimately show ?thesis
      using u(2) same_but_transfer_trans [OF t(5)] by (auto simp: exchanged_in_def)
  qed
qed

text \<open>The whole call, mutex included.\<close>

lemma bytes_exchange_in:
  assumes "controller_ok E xact" and "duplex_ok E xact peer" and "layout_ok (layout E)"
    and "lock_at s n = Some False"
  shows "\<exists>t. spiTransferBytes E (Some n) data out sz s = Inr t
    \<and> exchanged_in peer n data out (unat sz) s t \<and> lock_at t n = Some False"
proof -
  let ?s = "set_lock n (Some True) s"
  obtain t where t: "spiTransferBytes_loop E n data out (unat sz) ?s = Inr t"
    "exchanged_in peer n data out (unat sz) ?s t"
    using loop_exchange [OF assms(1-3)] by blast
  let ?t = "set_lock n (Some False) t"
  have "lock_at t n = Some True"
    using t(2) by (simp add: exchanged_in_def same_but_transfer_def)
  then have "spiTransferBytes E (Some n) data out sz s = Inr ?t"
    using t(1) assms(4) by (simp add: spiTransferBytes_def locked_def stmt)
  moreover have "exchanged_in peer n data out (unat sz) s ?t"
    using t(2) assms(4)
    by (auto simp: exchanged_in_def exchanged_def Let_def same_but_transfer_def set_lock_def)
  ultimately show ?thesis by auto
qed

lemma bytes_exchange:
  assumes "controller_ok E xact" and "duplex_ok E xact peer" and "layout_ok (layout E)"
    and "lock_at s n = Some False" and "no_clobber data out (unat sz)"
  shows "\<exists>t. spiTransferBytes E (Some n) data out sz s = Inr t
    \<and> exchanged peer n data out (unat sz) s t \<and> lock_at t n = Some False"
  using bytes_exchange_in [OF assms(1-4), of data out sz] assms(5) by (auto simp: exchanged_in_def)

text \<open>Otherwise a byte still to be sent lies where the first answer is stored.\<close>

lemma clobbered:
  assumes "\<not> no_clobber data out sz"
  shows "\<exists>a b i. data = Some a \<and> out = Some b \<and> 64 \<le> i \<and> i < sz
    \<and> (\<forall>ans. length ans = 64 \<longrightarrow> rx_store m out ans (a + i) \<in> set ans)"
proof -
  obtain a b where ab: "data = Some a" "out = Some b" "64 < sz" "a < b" "b < a + sz"
    using assms by (auto simp: no_clobber_def split: option.splits)
  let ?i = "max 64 (b - a)"
  have "rx_store m out ans (a + ?i) = ans ! (a + ?i - b)" "a + ?i - b < 64" if "length ans = 64" for ans :: "byte list"
    using ab that by (auto simp: rx_store_def mem_store_apply)
  then have "rx_store m out ans (a + ?i) \<in> set ans" if "length ans = 64" for ans :: "byte list"
    using that by (metis nth_mem)
  moreover have "64 \<le> ?i" "?i < sz" using ab by auto
  ultimately show ?thesis using ab(1,2) by blast
qed

text \<open>Property C1. On a bus whose mutex is free, \<open>spiTransferBytes\<close> returns for every length and every two buffers,
  overlapping or not, with the mutex free and the bus configuration unchanged.  The peripheral has
  received the source (or \<open>0xFF\<close> bytes when there is none) in transactions of at most 64 bytes, each
  read from memory when it is sent, and its answers are stored in the destination and nowhere else.
  When the destination does not run ahead of the source (it starts at or before it, the buffers are
  disjoint, or there is only one transaction), the bytes received are those the source held at the
  call; otherwise the first answer overwrites bytes of the source that are still to be sent.  The
  hypotheses are the manual's account of the controller and its register layout.\<close>

theorem spiTransferBytes_exchange:
  assumes "controller_ok E xact" and "duplex_ok E xact peer" and "layout_ok (layout E)"
    and "lock_at s n = Some False"
  shows "\<exists>t. spiTransferBytes E (Some n) data out sz s = Inr t \<and> lock_at t n = Some False
    \<and> (mem t, hw t) = exchange_in (peer n (bus_config (dev_at s n))) data out (unat sz) (mem s, hw s)
    \<and> same_but_transfer n s t
    \<and> (no_clobber data out (unat sz) \<longrightarrow> exchanged peer n data out (unat sz) s t)
    \<and> (\<not> no_clobber data out (unat sz) \<longrightarrow>
         (\<exists>a b i. data = Some a \<and> out = Some b \<and> 64 \<le> i \<and> i < unat sz
            \<and> (\<forall>ans. length ans = 64 \<longrightarrow> rx_store (mem s) out ans (a + i) \<in> set ans)))"
proof -
  have "\<exists>a b i. data = Some a \<and> out = Some b \<and> 64 \<le> i \<and> i < unat sz
      \<and> (\<forall>ans. length ans = 64 \<longrightarrow> rx_store (mem s) out ans (a + i) \<in> set ans)"
    if clob: "\<not> no_clobber data out (unat sz)"
    by (rule clobbered [OF clob])
  with bytes_exchange_in [OF assms, of data out sz] show ?thesis
    unfolding exchanged_in_def by blast
qed

text \<open>The controller of \<open>demo_env\<close> answers every byte with its complement.\<close>

definition complement_xact :: "nat \<Rightarrow> spi_dev \<Rightarrow> byte list list \<Rightarrow> (nat \<Rightarrow> 32 word) \<times> byte list list" where
  "complement_xact n d h = (\<lambda>i. NOT (data_buf d i), h @ [sent_bytes d])"

definition complement_peer :: "byte list list peer" where
  "complement_peer n cfg bs h = (map (\<lambda>b. NOT b) bs, h @ [bs])"

lemma demo_controller_ok: "controller_ok demo_env complement_xact"
proof -
  have "usr_wait (complement_tick n) 18 (d, h) = Some (complement_tick n (d, h))"
    if "bit (cmd d) 18" for n d h
    using that
    by (subst usr_wait_unfold, subst usr_wait_unfold) (simp add: complement_tick_def bit_put_bit)
  then show ?thesis
    by (simp add: controller_ok_def esp32_layout_def complement_tick_def complement_xact_def)
qed

lemma word_bytes_not: "word_bytes (NOT w) = map (\<lambda>b. NOT b) (word_bytes w)"
proof (rule nth_equalityI)
  fix i
  assume "i < length (word_bytes (NOT w))"
  then have i: "i < 4" by simp
  show "word_bytes (NOT w) ! i = map (\<lambda>b. NOT b) (word_bytes w) ! i"
  proof (rule bit_word_eqI)
    fix n
    assume "n < LENGTH(8)"
    with i show "bit (word_bytes (NOT w) ! i) n = bit (map (\<lambda>b. NOT b) (word_bytes w) ! i) n"
      by (auto simp: bit_word_bytes bit_not_iff)
  qed
qed simp

lemma words_bytes_not: "words_bytes (map (\<lambda>i. NOT (b i)) xs) = map (\<lambda>b. NOT b) (words_bytes (map b xs))"
  by (induction xs) (simp_all add: word_bytes_not)

lemma demo_duplex_ok: "duplex_ok demo_env complement_xact complement_peer"
proof -
  have "sent_bytes d = take k (fifo_bytes (data_buf d))"
    if "1 \<le> k" "unat (get_low 24 (mosi_dlen d)) = 8 * k - 1" for d k
    using that by (simp add: sent_bytes_def fifo_bytes_def)
  then show ?thesis
    by (auto simp: duplex_ok_def esp32_layout_def complement_xact_def complement_peer_def
        fifo_bytes_def words_bytes_not take_map)
qed

text \<open>Seventy bytes exchanged in place; and 128 bytes with the destination one byte ahead, where the first byte of
  the second transaction is the last byte of the first answer.\<close>

lemma spiTransferBytes_exchange_witness:
  "(\<exists>t. spiTransferBytes demo_env (Some 2) (Some 100) (Some 100) 70 (demo_state (Some False) (\<lambda>_. 0x55)) = Inr t
      \<and> mem t 100 = 0xAA \<and> mem t 169 = 0xAA \<and> mem t 170 = 0x55 \<and> lock_at t 2 = Some False
      \<and> map length (hw t) = [64, 6])
   \<and> (\<exists>t. spiTransferBytes demo_env (Some 2) (Some 100) (Some 101) 128 (demo_state (Some False) (\<lambda>_. 0x55)) = Inr t
      \<and> hw t = [replicate 64 0x55, 0xAA # replicate 63 0x55])"
proof (intro conjI)
  let ?s = "demo_state (Some False) (\<lambda>_. 0x55)" and ?P = "complement_peer 2 (bus_config (dev_at (demo_state (Some False) (\<lambda>_. 0x55)) 2))"
  have "layout_ok (layout demo_env)" "lock_at ?s 2 = Some False"
    by (simp_all add: esp32_layout_ok)
  note x = spiTransferBytes_exchange [OF demo_controller_ok demo_duplex_ok this]
  have nc: "no_clobber (Some 100) (Some 100) (unat (70 :: 32 word))"
    by (simp add: no_clobber_def)
  obtain t where t: "spiTransferBytes demo_env (Some 2) (Some 100) (Some 100) 70 ?s = Inr t"
    "exchanged complement_peer 2 (Some 100) (Some 100) 70 ?s t" "lock_at t 2 = Some False"
    using x [of "Some 100" "Some 100" 70] nc by auto
  have src: "tx_bytes (mem ?s) (Some 100) 70 = replicate 64 0x55 @ replicate 6 0x55"
    by (simp add: tx_bytes_def mem_bytes_def map_replicate_const replicate_add [symmetric])
  have "exchange ?P (replicate 64 0x55 @ replicate 6 0x55) [] =
      (replicate 64 0xAA @ replicate 6 0xAA, [replicate 64 0x55, replicate 6 0x55])"
    by (simp add: exchange_more exchange_one complement_peer_def)
  with t(2) src have "hw t = [replicate 64 0x55, replicate 6 0x55]"
    "mem t = mem_store (\<lambda>_. 0x55) 100 (replicate 70 0xAA)"
    by (simp_all add: exchanged_def Let_def rx_store_def replicate_add [symmetric])
  with t(1,3) nc show "\<exists>t. spiTransferBytes demo_env (Some 2) (Some 100) (Some 100) 70 ?s = Inr t
      \<and> mem t 100 = 0xAA \<and> mem t 169 = 0xAA \<and> mem t 170 = 0x55 \<and> lock_at t 2 = Some False
      \<and> map length (hw t) = [64, 6]"
    by (simp add: mem_store_apply)
  let ?m = "mem_store (\<lambda>_. 0x55) 101 (replicate 64 0xAA)"
  have aa: "- 86 = (0xAA :: byte)" "- 171 = (0x55 :: byte)" by simp_all
  have first: "tx_bytes (\<lambda>_. 0x55) (Some 100) 64 = replicate 64 0x55"
    by (simp add: tx_bytes_def mem_bytes_def map_replicate_const)
  have "map (\<lambda>i. ?m (164 + i)) [0..<Suc 63] = 0xAA # map (\<lambda>i. 0x55) [0..<63]"
    by (subst upt_conv_Cons, simp, subst map_Suc_upt [symmetric]) (simp add: mem_store_apply)
  then have second: "tx_bytes ?m (Some 164) 64 = 0xAA # replicate 63 0x55"
    by (simp add: tx_bytes_def mem_bytes_def map_replicate_const del: upt_Suc)
  have "exchange_in ?P (Some 100) (Some 101) 128 (mem ?s, []) =
      exchange_in ?P (Some 164) (Some 165) 64 (?m, [replicate 64 0x55])"
    by (subst exchange_in_more [OF _ refl]) (simp_all add: first complement_peer_def rx_store_def advance_def aa)
  also have "\<dots> = (rx_store ?m (Some 165) (0x55 # replicate 63 0xAA), [replicate 64 0x55, 0xAA # replicate 63 0x55])"
    by (subst exchange_in_one [OF _ _ refl]) (simp_all add: second complement_peer_def aa)
  finally show "\<exists>t. spiTransferBytes demo_env (Some 2) (Some 100) (Some 101) 128 ?s = Inr t
      \<and> hw t = [replicate 64 0x55, 0xAA # replicate 63 0x55]"
    using x [of "Some 100" "Some 101" 128] by auto
qed

end
