(* ===== verification/Spi_Order.thy ===== *)
theory Spi_Order
  imports Spi_Duplex
begin

text \<open>
  Byte order on the wire: what the byte-swapping macros of \<^verbatim>\<open>esp32/esp32spi.c\<close> do to the bytes of
  a word, the relation between the locking word transfers and their lock-free counterparts, and the
  order in which a 32-bit value travels in either bit order.
\<close>

section \<open>The macros on bytes\<close>

lemma spiTranslate32_eq: "spiTranslate32 = MSB_32_SET"
  by (rule ext) (simp add: spiTranslate32_def MSB_32_SET_def)

lemma spiTranslate24_eq: "spiTranslate24 = MSB_24_SET"
  by (rule ext) (simp add: spiTranslate24_def MSB_24_SET_def)

lemma word_bytes_nth4: "word_bytes w = [word_bytes w ! 0, word_bytes w ! 1, word_bytes w ! 2, word_bytes w ! 3]"
  by (simp add: word_bytes_expand)

lemma word_bytes_MSB_32 [mems]: "word_bytes (MSB_32_SET w) = rev (word_bytes w)"
proof -
  have "MSB_32_SET w = bytes_word [word_bytes w ! 3, word_bytes w ! 2, word_bytes w ! 1, word_bytes w ! 0]"
    by (simp add: MSB_32_SET_def bytes_word_def Let_def)
  then have "word_bytes (MSB_32_SET w) = [word_bytes w ! 3, word_bytes w ! 2, word_bytes w ! 1, word_bytes w ! 0]"
    by (simp add: word_bytes_inverse)
  then show ?thesis by (simp add: word_bytes_expand)
qed

lemma word_bytes_MSB_24 [mems]: "word_bytes (MSB_24_SET w) = rev (take 3 (word_bytes w)) @ [0]"
proof -
  have "MSB_24_SET w = bytes_word [word_bytes w ! 2, word_bytes w ! 1, word_bytes w ! 0, 0]"
    by (simp add: MSB_24_SET_def bytes_word_def Let_def)
  then have "word_bytes (MSB_24_SET w) = [word_bytes w ! 2, word_bytes w ! 1, word_bytes w ! 0, 0]"
    by (simp add: word_bytes_inverse)
  then show ?thesis by (simp add: word_bytes_expand)
qed

lemma word_bytes_MSB_PIX [mems]:
  "word_bytes (MSB_PIX_SET w) = [word_bytes w ! 1, word_bytes w ! 0, word_bytes w ! 3, word_bytes w ! 2]"
proof -
  have "MSB_PIX_SET w = bytes_word [word_bytes w ! 1, word_bytes w ! 0, word_bytes w ! 3, word_bytes w ! 2]"
    by (simp add: MSB_PIX_SET_def bytes_word_def Let_def)
  then show ?thesis by (simp add: word_bytes_inverse)
qed

lemma mask_8: "(0xFF :: 32 word) = mask 8"
  by (simp add: mask_eq_exp_minus_1)

lemma mask_16: "(0xFF00 :: 32 word) = push_bit 8 (mask 8)"
  by (simp add: mask_eq_exp_minus_1 push_bit_eq_mult)

lemma bit_MSB_16:
  "bit (MSB_16_SET w) j \<longleftrightarrow> (j < 8 \<and> bit w (8 + j)) \<or> (8 \<le> j \<and> j < 16 \<and> bit w (j - 8))"
  unfolding MSB_16_SET_def mask_8 mask_16 bit_or_iff bit_drop_bit_eq bit_push_bit_iff bit_and_iff
    bit_mask_iff comp_def
  by (auto dest: bit_imp_le_length)

lemma word_bytes_MSB_16 [mems]: "word_bytes (MSB_16_SET w) = [word_bytes w ! 1, word_bytes w ! 0, 0, 0]"
proof (rule nth_equalityI)
  fix i
  assume "i < length (word_bytes (MSB_16_SET w))"
  then have "i < 4" by simp
  then consider "i = 0" | "i = 1" | "i = 2" | "i = 3" by linarith
  then show "word_bytes (MSB_16_SET w) ! i = [word_bytes w ! 1, word_bytes w ! 0, 0, 0] ! i"
    by cases (auto intro!: bit_word_eqI simp: bit_word_bytes bit_MSB_16 add.commute)
qed simp

lemma word_bytes_inj: "word_bytes v = word_bytes w \<Longrightarrow> v = w"
  by (metis bytes_word_inverse)

lemma MSB_32_involution: "MSB_32_SET (MSB_32_SET w) = w"
  by (rule word_bytes_inj) (simp add: word_bytes_MSB_32)

lemma bit_swap16:
  "bit (swap16 d) j \<longleftrightarrow> (j < 8 \<and> bit d (8 + j)) \<or> (8 \<le> j \<and> j < 16 \<and> bit d (j - 8))"
  by (auto simp: swap16_def bit_or_iff bit_drop_bit_eq bit_push_bit_iff dest: bit_imp_le_length)

lemma swap16_eq: "swap16 d = MSB_16_SET_short d"
proof (rule bit_word_eqI)
  fix j
  assume "j < LENGTH(16)"
  then show "bit (swap16 d) j = bit (MSB_16_SET_short d) j"
    by (auto simp: bit_swap16 MSB_16_SET_short_def bit_ucast_iff bit_MSB_16)
qed

lemma swap16_involution: "swap16 (swap16 d) = d"
proof (rule bit_word_eqI)
  fix j
  assume "j < LENGTH(16)"
  then show "bit (swap16 (swap16 d)) j = bit d j"
    by (cases "j < 8") (auto simp: bit_swap16)
qed

text \<open>The byte-order conversions are what the names say: the 32-bit conversion reverses the four bytes
  and undoes itself, the 24-bit one reverses the low three and clears the top, the 16-bit one swaps
  the low two and clears the rest, the pixel one swaps within each half; the two spellings of the
  16- and 32-bit conversions in the file agree.\<close>

lemma byte_order_conversions:
  "word_bytes (MSB_32_SET w) = rev (word_bytes w) \<and> MSB_32_SET (MSB_32_SET w) = w
   \<and> spiTranslate32 w = MSB_32_SET w
   \<and> word_bytes (MSB_24_SET w) = rev (take 3 (word_bytes w)) @ [0] \<and> spiTranslate24 w = MSB_24_SET w
   \<and> word_bytes (MSB_16_SET w) = [word_bytes w ! 1, word_bytes w ! 0, 0, 0]
   \<and> word_bytes (MSB_PIX_SET w) = [word_bytes w ! 1, word_bytes w ! 0, word_bytes w ! 3, word_bytes w ! 2]
   \<and> swap16 d = MSB_16_SET_short d \<and> swap16 (swap16 d) = d"
  by (simp add: word_bytes_MSB_32 MSB_32_involution spiTranslate32_eq word_bytes_MSB_24
      spiTranslate24_eq word_bytes_MSB_16 word_bytes_MSB_PIX swap16_eq [symmetric] swap16_involution)

section \<open>Locking and lock-free transfers\<close>

definition with_lock ::
  "nat \<Rightarrow> ('h spi_state \<Rightarrow> spi_fault + ('a \<times> 'h spi_state)) \<Rightarrow> 'h spi_state \<Rightarrow> spi_fault + ('a \<times> 'h spi_state)" where
  "with_lock n f s = bindr (mutex_lock n s) (\<lambda>s. bindr (f s) (\<lambda>(r, s). bindr (mutex_unlock n s) (\<lambda>s. Inr (r, s))))"

text \<open>Nothing a lock changes is read by the byte-order tests.\<close>

lemma lsb_set_lock [simp]:
  "wr_lsb E n (set_lock n l s) = wr_lsb E n s" "rd_lsb E n (set_lock n l s) = rd_lsb E n s"
  by (simp_all add: wr_lsb_def rd_lsb_def)

lemma mutex_lock_Inr: "mutex_lock n s = Inr t \<Longrightarrow> t = set_lock n (Some True) s"
  by (auto simp: mutex_lock_def split: option.splits bool.splits)

lemma mutex_unlock_Inr: "mutex_unlock n s = Inr t \<Longrightarrow> t = set_lock n (Some False) s"
  by (auto simp: mutex_unlock_def split: option.splits bool.splits)

lemma lsb_mutex:
  "mutex_lock n s = Inr t \<Longrightarrow> wr_lsb E n t = wr_lsb E n s"
  "mutex_unlock n s = Inr t \<Longrightarrow> rd_lsb E n t = rd_lsb E n s"
  by (auto dest!: mutex_lock_Inr mutex_unlock_Inr)

lemma bindr_cong: "r = r' \<Longrightarrow> (\<And>x. r' = Inr x \<Longrightarrow> f x = g x) \<Longrightarrow> bindr r f = bindr r' g"
  by (cases r') auto

lemma locked_exchange_eq: "locked_exchange E n k w = with_lock n (free_exchange E n k w)"
  by (rule ext) (simp add: locked_exchange_def with_lock_def free_exchange_def bindr_assoc Let_def)

lemma locked_eq: "locked n cs s = bindr (mutex_lock n s) (\<lambda>s. bindr (exec cs s) (mutex_unlock n))"
  by (simp add: locked_def exec_append [abs_def])

lemma locked_single: "locked n cs = locked n [exec cs]"
  by (rule ext) (simp add: locked_eq)

text \<open>A result computed after unlocking from what unlocking does not change can be computed before.\<close>

lemma with_lock_map:
  assumes "\<And>r s t. mutex_unlock n s = Inr t \<Longrightarrow> g r t = g r s"
  shows "bindr (with_lock n f s) (\<lambda>(r, t). Inr (g r t, t)) =
    with_lock n (\<lambda>s. bindr (f s) (\<lambda>(r, t). Inr (g r t, t))) s"
  using assms by (auto simp: with_lock_def bindr_assoc intro!: bindr_cong)

lemma with_lock_cong:
  "(\<And>t. mutex_lock n s = Inr t \<Longrightarrow> f t = g t) \<Longrightarrow> with_lock n f s = with_lock n g s"
  by (auto simp: with_lock_def intro!: bindr_cong)

lemma locked_step_cong:
  "(\<And>t. mutex_lock n s = Inr t \<Longrightarrow> f t = g t) \<Longrightarrow> locked n [f] s = locked n [g] s"
  by (auto simp: locked_eq intro!: bindr_cong)

lemma ucast_and_16: "(ucast (w AND 0xFFFF) :: 16 word) = ucast (w :: 32 word)"
proof -
  have m: "(0xFFFF :: 32 word) = mask 16" by (simp add: mask_eq_exp_minus_1)
  show ?thesis
    unfolding m
    by (rule bit_word_eqI, simp only: bit_ucast_iff bit_and_iff bit_mask_iff) auto
qed

lemma spiWriteWord_NL: "spiWriteWord E (Some n) d s = locked n [spiWriteShortNL E (Some n) d] s"
  unfolding spiWriteWord_def Let_def option.case
  by (subst locked_single, rule locked_step_cong)
    (simp add: spiWriteShortNL_def Let_def swap16_eq lsb_mutex cong: if_cong)

lemma spiWriteLong_NL: "spiWriteLong E (Some n) w s = locked n [spiWriteLongNL E (Some n) w] s"
  unfolding spiWriteLong_def Let_def option.case
  by (subst locked_single, rule locked_step_cong)
    (simp add: spiWriteLongNL_def Let_def spiTranslate32_eq lsb_mutex cong: if_cong)

lemma spiTransferByte_NL: "spiTransferByte E (Some n) b s = with_lock n (spiTransferByteNL E (Some n) b) s"
  unfolding spiTransferByte_def spiTransferByteNL_def locked_exchange_eq option.case
  by (rule with_lock_map) simp

lemma spiTransferWord_NL: "spiTransferWord E (Some n) d s = with_lock n (spiTransferShortNL E (Some n) d) s"
proof -
  let ?g = "\<lambda>r t. let data = ucast r in if \<not> rd_lsb E n t then swap16 data else data"
  let ?d = "if \<not> wr_lsb E n s then swap16 d else d"
  have "spiTransferWord E (Some n) d s =
      bindr (with_lock n (free_exchange E n 15 (ucast ?d)) s) (\<lambda>(r, t). Inr (?g r t, t))"
    by (simp add: spiTransferWord_def locked_exchange_eq Let_def)
  also have "\<dots> = with_lock n (\<lambda>s. bindr (free_exchange E n 15 (ucast ?d) s) (\<lambda>(r, t). Inr (?g r t, t))) s"
    by (rule with_lock_map) (simp add: lsb_mutex)
  also have "\<dots> = with_lock n (spiTransferShortNL E (Some n) d) s"
    by (rule with_lock_cong)
      (simp add: spiTransferShortNL_def Let_def swap16_eq lsb_mutex ucast_and_16 cong: if_cong)
  finally show ?thesis .
qed

lemma spiTransferLong_NL: "spiTransferLong E (Some n) w s = with_lock n (spiTransferLongNL E (Some n) w) s"
proof -
  let ?g = "\<lambda>r t. if \<not> rd_lsb E n t then spiTranslate32 r else r"
  let ?d = "if \<not> wr_lsb E n s then spiTranslate32 w else w"
  have "spiTransferLong E (Some n) w s =
      bindr (with_lock n (free_exchange E n 31 ?d) s) (\<lambda>(r, t). Inr (?g r t, t))"
    by (simp add: spiTransferLong_def locked_exchange_eq Let_def)
  also have "\<dots> = with_lock n (\<lambda>s. bindr (free_exchange E n 31 ?d s) (\<lambda>(r, t). Inr (?g r t, t))) s"
    by (rule with_lock_map) (simp add: lsb_mutex)
  also have "\<dots> = with_lock n (spiTransferLongNL E (Some n) w) s"
    by (rule with_lock_cong) (simp add: spiTransferLongNL_def Let_def spiTranslate32_eq lsb_mutex cong: if_cong)
  finally show ?thesis .
qed

text \<open>Property C19. Every locking byte, word and long transfer is exactly its lock-free counterpart bracketed by the bus
  mutex, faults included: same data, same byte order, same value returned.\<close>

theorem locking_transfers_are_NL:
  "spiWriteByte E (Some n) b s = locked n [spiWriteByteNL E (Some n) b] s
   \<and> spiWriteWord E (Some n) d s = locked n [spiWriteShortNL E (Some n) d] s
   \<and> spiWriteLong E (Some n) w s = locked n [spiWriteLongNL E (Some n) w] s
   \<and> spiTransferByte E (Some n) b s = with_lock n (spiTransferByteNL E (Some n) b) s
   \<and> spiTransferWord E (Some n) d s = with_lock n (spiTransferShortNL E (Some n) d) s
   \<and> spiTransferLong E (Some n) w s = with_lock n (spiTransferLongNL E (Some n) w) s"
proof -
  have "spiWriteByte E (Some n) b s = locked n [spiWriteByteNL E (Some n) b] s"
    by (simp add: spiWriteByte_def spiWriteByteNL_def locked_single [symmetric])
  then show ?thesis
    by (intro conjI spiWriteWord_NL spiWriteLong_NL spiTransferByte_NL spiTransferWord_NL
        spiTransferLong_NL)
qed


section \<open>Words on the wire\<close>

text \<open>A 32-bit exchange sends the value most significant byte first (network order) when the bus writes
  MSB first, least significant byte first otherwise, and assembles the four received bytes in the
  order set for reading; memory, the mutex and the configuration are untouched.\<close>

lemma spiTransferLongNL_byte_order:
  assumes "controller_ok E xact" and "duplex_ok E xact peer" and "layout_ok (layout E)"
  shows "\<exists>v t. spiTransferLongNL E (Some n) w s = Inr (v, t)
    \<and> (let r = peer n (bus_config (dev_at s n)) (if wr_lsb E n s then word_bytes w else rev (word_bytes w)) (hw s)
       in fst r = (if rd_lsb E n s then word_bytes v else rev (word_bytes v)) \<and> hw t = snd r)
    \<and> mem t = mem s \<and> same_but_transfer n s t"
proof -
  let ?d = "if \<not> wr_lsb E n s then MSB_32_SET w else w"
  let ?r = "peer n (bus_config (dev_at s n)) (word_bytes ?d) (hw s)"
  have fill: "fifo_put n 0 ?d u =
      Inr (upd_dev n (\<lambda>d. d\<lparr>data_buf := (\<lambda>i. if i < 1 then ?d else data_buf d i)\<rparr>) u)" for u :: "'a spi_state"
    by (auto simp: fifo_put_step fun_upd_def intro!: upd_dev_eqI)
  have "?r = peer n (bus_config (dev_at s n)) (take 4 (words_bytes (map (\<lambda>i. ?d) [0..<1]))) (hw s)"
    by simp
  from transaction_bytes [where k = 4 and w = 1 and f = "\<lambda>m i. ?d", OF assms _ _ _ _ fill this]
  obtain t where t: "exec ([set_mosi_dlen E n (of_nat 4 * 8 - 1), set_miso_dlen E n (of_nat 4 * 8 - 1),
        fifo_put n 0 ?d] @ run_usr E n) s = Inr t"
      "take 4 (fifo_bytes (data_buf (dev_at t n))) = fst ?r" "hw t = snd ?r"
      "mem t = mem s" "same_but_transfer n s t"
    by auto
  have "take 4 (fifo_bytes (data_buf (dev_at t n))) = word_bytes (data_buf (dev_at t n) 0)"
    using take_fifo_bytes [of 4 1 "data_buf (dev_at t n)"] by simp
  with t(2) have rx: "word_bytes (data_buf (dev_at t n) 0) = fst ?r" by simp
  have cfg: "ctrl (dev_at t n) = ctrl (dev_at s n)"
    using t(5) by (simp add: same_but_transfer_def bus_config_def)
  define v where "v = (if \<not> rd_lsb E n t then MSB_32_SET (data_buf (dev_at t n) 0) else data_buf (dev_at t n) 0)"
  have "spiTransferLongNL E (Some n) w s = Inr (v, t)"
    using t(1) by (simp add: spiTransferLongNL_def free_exchange_def word_exchange_def v_def Let_def
        del: exec.simps append_Cons)
  moreover have "word_bytes ?d = (if wr_lsb E n s then word_bytes w else rev (word_bytes w))"
    by (simp add: word_bytes_MSB_32)
  moreover have "fst ?r = (if rd_lsb E n s then word_bytes v else rev (word_bytes v))"
    by (simp add: v_def rx [symmetric] rd_lsb_def cfg word_bytes_MSB_32)
  ultimately show ?thesis using t(3-5) by (auto simp: Let_def)
qed

lemma word_bytes_mask:
  assumes "k \<le> 4"
  shows "word_bytes (w AND mask (8 * k)) = take k (word_bytes w) @ replicate (4 - k) 0"
proof (rule nth_equalityI)
  fix i
  assume "i < length (word_bytes (w AND mask (8 * k)))"
  then have i: "i < 4" by simp
  have "word_bytes (w AND mask (8 * k)) ! i = (if i < k then word_bytes w ! i else 0)"
  proof (rule bit_word_eqI)
    fix n
    assume "n < LENGTH(8)"
    then have "n < 8" by simp
    then have "8 * i + n < 8 * k \<longleftrightarrow> i < k" by linarith
    with \<open>n < 8\<close> i assms show "bit (word_bytes (w AND mask (8 * k)) ! i) n =
        bit (if i < k then word_bytes w ! i else 0) n"
      by (simp only: bit_word_bytes bit_and_iff bit_mask_iff if_distrib [of "\<lambda>b. bit b n"])
        (simp add: possible_bit_def)
  qed
  with i assms show "word_bytes (w AND mask (8 * k)) ! i = (take k (word_bytes w) @ replicate (4 - k) 0) ! i"
    by (simp add: nth_append)
qed (use assms in simp)

lemma bits_convert_sent:
  assumes "k \<in> {1, 2, 3, 4}"
  shows "take k (word_bytes (bits_convert k (data AND mask (8 * k)))) =
    (if k = 1 then [0] else rev (take k (word_bytes data)))"
proof -
  obtain b where b: "word_bytes (data AND mask (8 * k)) = b" "b = take k (word_bytes data) @ replicate (4 - k) 0"
    using word_bytes_mask [of k data] assms by auto
  moreover obtain c0 c1 c2 c3 where "word_bytes data = [c0, c1, c2, c3]"
    using word_bytes_nth4 by blast
  ultimately show ?thesis
    using assms by (auto simp: bits_convert_def word_bytes_MSB_16 word_bytes_MSB_24 word_bytes_MSB_32
        eval_nat_numeral)
qed

text \<open>Property C39. \<open>spiTransferBitsNL\<close> with 16, 24 or 32 bits in MSB-first order sends the low bytes of the value most
  significant first; with 8 bits it sends a zero byte whatever the value, because the conversion of
  a one-byte value is the 32-bit one, which moves the byte out of the position that is sent.\<close>

theorem spiTransferBitsNL_msb:
  assumes "controller_ok E xact" and "duplex_ok E xact peer" and "layout_ok (layout E)"
    and "\<not> wr_lsb E n s" and "k \<in> {1, 2, 3, 4}"
  shows "\<exists>t. spiTransferBitsNL E (Some n) data None (of_nat (8 * k)) s = Inr t
    \<and> hw t = snd (peer n (bus_config (dev_at s n)) (if k = 1 then [0] else rev (take k (word_bytes data))) (hw s))
    \<and> mem t = mem s \<and> same_but_transfer n s t"
proof -
  let ?d = "bits_convert k (data AND mask (8 * k))"
  have fill: "fifo_put n 0 ?d u =
      Inr (upd_dev n (\<lambda>d. d\<lparr>data_buf := (\<lambda>i. if i < 1 then ?d else data_buf d i)\<rparr>) u)" for u :: "'a spi_state"
    by (auto simp: fifo_put_step fun_upd_def intro!: upd_dev_eqI)
  have bits: "unat (of_nat (8 * k) :: 8 word) = 8 * k" "(8 * k + 7) div 8 = k" "\<not> 32 < (of_nat (8 * k) :: 8 word)"
    "ucast (of_nat (8 * k) :: 8 word) - 1 = (of_nat k * 8 - 1 :: 32 word)"
    using assms(5) by auto
  let ?r = "peer n (bus_config (dev_at s n)) (take k (words_bytes (map (\<lambda>i. ?d) [0..<1]))) (hw s)"
  have k: "1 \<le> k" "k \<le> 64" "k \<le> 4 * 1" "(1 :: nat) \<le> 16" using assms(5) by auto
  obtain t where t: "exec ([set_mosi_dlen E n (of_nat k * 8 - 1), set_miso_dlen E n (of_nat k * 8 - 1),
        fifo_put n 0 ?d] @ run_usr E n) s = Inr t"
      "hw t = snd ?r" "mem t = mem s" "same_but_transfer n s t"
    by (rule transaction_bytes [where f = "\<lambda>m i. ?d", OF assms(1-3) k fill refl])
  have "spiTransferBitsNL E (Some n) data None (of_nat (8 * k)) s = Inr t"
    using exec_then [OF t(1), of "[Inr]"] assms(4)
    by (simp only: spiTransferBitsNL_def option.case bits Let_def if_False if_True append_assoc
        exec_single refl simp_thms)
  then show ?thesis
    using t(2-4) bits_convert_sent [OF assms(5), of data] by simp
qed

lemma spiTransferBitsNL_msb_witness:
  "(\<exists>t. spiTransferBitsNL demo_env (Some 2) 0xABCD None 16 (demo_state None (\<lambda>_. 0)) = Inr t \<and> hw t = [[0xAB, 0xCD]])
   \<and> (\<exists>t. spiTransferBitsNL demo_env (Some 2) 0xCD None 8 (demo_state None (\<lambda>_. 0)) = Inr t \<and> hw t = [[0]])"
proof -
  let ?s = "demo_state None (\<lambda>_. 0)"
  have lay: "layout_ok (layout demo_env)" by (simp add: esp32_layout_ok)
  have msb: "\<not> wr_lsb demo_env 2 ?s" by (simp add: wr_lsb_def zero_dev_def)
  note run = spiTransferBitsNL_msb [OF demo_controller_ok demo_duplex_ok lay msb]
  have "rev (take 2 (word_bytes 0xABCD)) = [0xAB, 0xCD]"
    by (simp add: word_bytes_expand)
  then show ?thesis
    using run [of 2 "0xABCD"] run [of 1 "0xCD"] by (auto simp: complement_peer_def)
qed

end
