(* ===== verification/Spi_Burst.thy ===== *)
theory Spi_Burst
  imports Spi_Order
begin

text \<open>
  The buffer transfers used inside a transaction (\<open>spiTransferBytesNL\<close>, \<open>spiWriteNL\<close>,
  \<open>spiWritePixelsNL\<close> of \<^verbatim>\<open>esp32/esp32spi.c\<close>).  They move whole 32-bit words between memory and the
  FIFO, so a length that is not a multiple of four reaches past the buffer.
\<close>

section \<open>Rounds\<close>

lemma longs_of_eq: "longs_of len = (len + 3) div 4"
  unfolding longs_of_def by presburger

lemma longs_of_bounds: "len \<le> 4 * longs_of len" "4 * longs_of len < len + 4"
  unfolding longs_of_eq by presburger+

lemma longs_of_0 [simp]: "longs_of 0 = 0"
  by (simp add: longs_of_eq)

lemma longs_of_small: "len \<le> 64 \<Longrightarrow> longs_of len \<le> 16"
  unfolding longs_of_eq by presburger

lemma longs_of_add: "longs_of (64 + k) = 16 + longs_of k"
  unfolding longs_of_eq by presburger

lemma longs_of_more: "64 < len \<Longrightarrow> longs_of len = 16 + longs_of (len - 64) \<and> 16 < longs_of len"
  using longs_of_add [of "len - 64"] longs_of_bounds(1) [of "len - 64"] by simp

text \<open>The length of a round and its number of words, as the loops compute them.\<close>

lemma round_cases:
  assumes "len \<noteq> 0"
  obtains (last) "len \<le> 64" "(if len > 64 then 64 else len) = len"
      "(if longs_of len > 16 then 16 else longs_of len) = longs_of len" "longs_of len \<le> 16"
  | (more) "64 < len" "(if len > 64 then 64 else len) = 64"
      "(if longs_of len > 16 then 16 else longs_of len) = 16" "longs_of len - 16 = longs_of (len - 64)"
  using assms longs_of_small [of len] longs_of_more [of len] by (cases "64 < len") auto

lemma fifo_to_step:
  "w \<le> 16 \<Longrightarrow> fifo_to n w (Some a) s = Inr (store a (words_bytes (map (data_buf (dev_at s n)) [0..<w])) s)"
proof (induction w)
  case 0
  then show ?case by (simp add: fifo_to_def store_def)
next
  case (Suc w)
  have "fifo_to n (Suc w) (Some a) s = bindr (fifo_to n w (Some a) s) (fifo_get n w (a + 4 * w))"
    by (simp add: fifo_to_def exec_append)
  with Suc show ?case
    by (simp add: fifo_get_def store_def mem_store_append)
qed

definition source_word :: "ptr \<Rightarrow> memory \<Rightarrow> nat \<Rightarrow> 32 word" where
  "source_word data m i = (case data of Some a \<Rightarrow> mem_word m (a + 4 * i) | None \<Rightarrow> 0xFFFFFFFF)"

lemma fifo_from_or_ones_step:
  "w \<le> 16 \<Longrightarrow> fifo_from_or_ones n w data s =
     Inr (upd_dev n (\<lambda>d. d\<lparr>data_buf := (\<lambda>i. if i < w then source_word data (mem s) i else data_buf d i)\<rparr>) s)"
  by (cases data)
    (simp_all add: fifo_from_or_ones_def fifo_fill_step source_word_def cong: if_cong)

lemma replicate_4: "replicate 4 x = [x, x, x, x]"
  by (simp add: eval_nat_numeral)

lemma word_bytes_ones: "word_bytes 0xFFFFFFFF = replicate 4 0xFF"
  by (simp add: word_bytes_expand replicate_4)

lemma words_bytes_ones: "words_bytes (map (\<lambda>i. 0xFFFFFFFF) [0..<w]) = replicate (4 * w) 0xFF"
  by (induction w) (simp_all add: word_bytes_ones replicate_add [symmetric] add.commute)

lemma source_words_bytes:
  "words_bytes (map (source_word data m) [0..<w]) = tx_bytes m data (4 * w)"
  by (cases data) (simp_all add: source_word_def [abs_def] tx_bytes_def words_bytes_mem_words words_bytes_ones)

lemma take_tx_bytes: "j \<le> k \<Longrightarrow> take j (tx_bytes m data k) = tx_bytes m data j"
  by (auto simp: tx_bytes_def split: option.split)

section \<open>Full-duplex bursts\<close>

text \<open>One round of \<open>spiTransferBytesNL\<close>.\<close>

lemma burst_round:
  assumes "controller_ok E xact" and "duplex_ok E xact peer" and "layout_ok (layout E)"
    and k: "1 \<le> k" "k \<le> 64" and w: "k \<le> 4 * w" "w \<le> 16"
    and r: "r = peer n (bus_config (dev_at s n)) (tx_bytes (mem s) data k) (hw s)"
  obtains t rx where
    "exec ([set_mosi_dlen E n (of_nat k * 8 - 1), set_miso_dlen E n (of_nat k * 8 - 1),
            fifo_from_or_ones n w data] @ run_usr E n @
           (if result = None then [] else [fifo_to n w result])) s = Inr t"
    and "length rx = 4 * w" and "take k rx = fst r" and "hw t = snd r"
    and "mem t = rx_store (mem s) result rx" and "same_but_transfer n s t"
proof -
  have "r = peer n (bus_config (dev_at s n)) (take k (words_bytes (map (source_word data (mem s)) [0..<w]))) (hw s)"
    using w(1) r by (simp add: source_words_bytes take_tx_bytes)
  from transaction_bytes [OF assms(1,2,3) k w fifo_from_or_ones_step [OF w(2)] this]
  obtain t where t: "exec ([set_mosi_dlen E n (of_nat k * 8 - 1), set_miso_dlen E n (of_nat k * 8 - 1),
        fifo_from_or_ones n w data] @ run_usr E n) s = Inr t"
      "take k (fifo_bytes (data_buf (dev_at t n))) = fst r" "hw t = snd r" "mem t = mem s"
      "same_but_transfer n s t"
    by blast
  define rx where "rx = words_bytes (map (data_buf (dev_at t n)) [0..<w])"
  define u where "u = (case result of None \<Rightarrow> t | Some a \<Rightarrow> store a rx t)"
  have "exec (if result = None then [] else [fifo_to n w result]) t = Inr u"
    using w(2) by (auto simp: u_def rx_def fifo_to_step split: option.split)
  with exec_then [OF t(1)] have "exec ([set_mosi_dlen E n (of_nat k * 8 - 1), set_miso_dlen E n (of_nat k * 8 - 1),
      fifo_from_or_ones n w data] @ run_usr E n @ (if result = None then [] else [fifo_to n w result])) s = Inr u"
    by (simp only: append_assoc)
  moreover have "take k rx = fst r"
    using t(2) take_fifo_bytes [OF w] by (simp add: rx_def)
  ultimately show ?thesis
    using that [of u rx] t(3-5) by (simp add: u_def rx_def rx_store_def split: option.split)
qed

text \<open>The outcome: the peripheral's answer in the first \<open>len\<close> bytes, whole words stored.\<close>

definition burst_exchanged ::
  "'h peer \<Rightarrow> nat \<Rightarrow> ptr \<Rightarrow> ptr \<Rightarrow> nat \<Rightarrow> 'h spi_state \<Rightarrow> 'h spi_state \<Rightarrow> byte list \<Rightarrow> bool" where
  "burst_exchanged peer n data result len s t rx \<longleftrightarrow>
     (let q = exchange (peer n (bus_config (dev_at s n))) (tx_bytes (mem s) data len) (hw s)
      in length rx = 4 * longs_of len \<and> take len rx = fst q \<and> hw t = snd q
         \<and> mem t = rx_store (mem s) result rx \<and> same_but_transfer n s t)"

lemma burst_exchanged_step:
  assumes r: "r = peer n (bus_config (dev_at s n)) (tx_bytes (mem s) data 64) (hw s)"
    and t: "hw t = snd r" "length rx = 64" "rx = fst r" "mem t = rx_store (mem s) result rx"
      "same_but_transfer n s t"
    and nc: "no_clobber data result (64 + k)"
    and u: "burst_exchanged peer n (advance data 64) (advance result 64) k t u ry"
  shows "burst_exchanged peer n data result (64 + k) s u (rx @ ry)"
proof -
  let ?R = "peer n (bus_config (dev_at s n))"
  have cfg: "bus_config (dev_at t n) = bus_config (dev_at s n)"
    using t(5) by (simp add: same_but_transfer_def)
  have tx: "tx_bytes (rx_store (mem s) result (fst r)) (advance data 64) k = tx_bytes (mem s) (advance data 64) k"
    using tx_bytes_rx_store [OF nc t(2)] t(3) by simp
  have ex: "exchange ?R (tx_bytes (mem s) data (64 + k)) (hw s) =
      (fst r @ fst (exchange ?R (tx_bytes (mem s) (advance data 64) k) (snd r)),
       snd (exchange ?R (tx_bytes (mem s) (advance data 64) k) (snd r)))"
    using exchange_more [of "tx_bytes (mem s) data 64" ?R _ "hw s"] by (simp add: tx_bytes_split r)
  show ?thesis
    using u t(1-4) same_but_transfer_trans [OF t(5)]
    by (auto simp: burst_exchanged_def Let_def cfg tx ex longs_of_add rx_store_append)
qed

lemma burst_loop_0: "spiTransferBytesNL_loop E n data result longs 0 s = Inr s"
  by (subst spiTransferBytesNL_loop.simps) simp

lemma burst_loop:
  assumes "controller_ok E xact" and "duplex_ok E xact peer" and "layout_ok (layout E)"
    and "no_clobber data result len"
  shows "\<exists>t rx. spiTransferBytesNL_loop E n data result (longs_of len) len s = Inr t
    \<and> burst_exchanged peer n data result len s t rx"
  using assms(4)
proof (induction len arbitrary: data result s rule: less_induct)
  case (less len)
  show ?case
  proof (cases "len = 0")
    case True
    then show ?thesis
      by (auto simp: burst_loop_0 burst_exchanged_def Let_def tx_bytes_def mem_bytes_def
          split: option.split)
  next
    case False
    then show ?thesis
    proof (cases rule: round_cases)
      case last
      let ?r = "peer n (bus_config (dev_at s n)) (tx_bytes (mem s) data len) (hw s)"
      have k: "1 \<le> len" using False by simp
      obtain t rx where t: "exec ([set_mosi_dlen E n (of_nat len * 8 - 1), set_miso_dlen E n (of_nat len * 8 - 1),
            fifo_from_or_ones n (longs_of len) data] @ run_usr E n @
            (if result = None then [] else [fifo_to n (longs_of len) result])) s = Inr t"
          "length rx = 4 * longs_of len" "take len rx = fst ?r" "hw t = snd ?r"
          "mem t = rx_store (mem s) result rx" "same_but_transfer n s t"
        by (rule burst_round [OF assms(1-3) k last(1) longs_of_bounds(1) last(4) refl])
      have "tx_bytes (mem s) data len \<noteq> []"
        using k by (metis length_tx_bytes list.size(3) not_one_le_zero)
      then have "burst_exchanged peer n data result len s t rx"
        using t(2-6) last(1) by (simp add: burst_exchanged_def Let_def exchange_one)
      moreover have "spiTransferBytesNL_loop E n data result (longs_of len) len s = Inr t"
        using False spiTransferBytesNL_loop.simps [of E n data result "longs_of len" len s]
        by (simp only: last(2,3) Let_def if_False t(1) bindr_simps diff_self_eq_0 burst_loop_0)
      ultimately show ?thesis by blast
    next
      case more
      let ?r = "peer n (bus_config (dev_at s n)) (tx_bytes (mem s) data 64) (hw s)"
      obtain t rx where t: "exec ([set_mosi_dlen E n (of_nat 64 * 8 - 1), set_miso_dlen E n (of_nat 64 * 8 - 1),
            fifo_from_or_ones n 16 data] @ run_usr E n @
            (if result = None then [] else [fifo_to n 16 result])) s = Inr t"
          "length rx = 4 * 16" "take 64 rx = fst ?r" "hw t = snd ?r"
          "mem t = rx_store (mem s) result rx" "same_but_transfer n s t"
        by (rule burst_round [OF assms(1-3) _ _ _ _ refl, where k = 64 and w = 16]) auto
      have len: "64 + (len - 64) = len" using more(1) by simp
      then have nc: "no_clobber data result (64 + (len - 64))" using less.prems by simp
      obtain u ry where u: "spiTransferBytesNL_loop E n (advance data 64) (advance result 64)
            (longs_of (len - 64)) (len - 64) t = Inr u"
          "burst_exchanged peer n (advance data 64) (advance result 64) (len - 64) t u ry"
        using less.IH [of "len - 64" "advance data 64" "advance result 64" t] more(1)
          no_clobber_advance [OF nc] by auto
      have "spiTransferBytesNL_loop E n data result (longs_of len) len s = Inr u"
        using False spiTransferBytesNL_loop.simps [of E n data result "longs_of len" len s]
        by (simp only: more(2,3,4) Let_def if_False t(1) bindr_simps arith_simps u(1))
      moreover have "rx = fst ?r" using t(2,3) by simp
      ultimately show ?thesis
        using burst_exchanged_step [OF refl t(4) _ _ t(5,6) nc u(2)] t(2) len by auto
    qed
  qed
qed


text \<open>Property C20. For a destination that does not run ahead of the source (\<open>no_clobber\<close>), \<open>spiTransferBytesNL\<close> exchanges exactly the
  caller's \<open>len\<close> bytes with the peripheral, in 64-byte transactions and without touching the mutex, and the
  peripheral's answer is the first \<open>len\<close> bytes of what is stored; but what is stored is whole words, so
  that up to three bytes behind the destination buffer are overwritten.\<close>

theorem spiTransferBytesNL_exchange:
  assumes "controller_ok E xact" and "duplex_ok E xact peer" and "layout_ok (layout E)"
    and "no_clobber data result (unat len)"
  shows "\<exists>t rx. spiTransferBytesNL E (Some n) data result len s = Inr t
    \<and> burst_exchanged peer n data result (unat len) s t rx \<and> lock_at t n = lock_at s n"
proof -
  obtain t rx where "spiTransferBytesNL_loop E n data result (longs_of (unat len)) (unat len) s = Inr t"
    "burst_exchanged peer n data result (unat len) s t rx"
    using burst_loop [OF assms] by blast
  then show ?thesis
    by (auto simp: spiTransferBytesNL_def burst_exchanged_def Let_def same_but_transfer_def)
qed

lemma spiTransferBytesNL_exchange_witness:
  "no_clobber (Some 100) (Some 200) (unat (5 :: 32 word)) \<and>
   (\<exists>t rx. spiTransferBytesNL demo_env (Some 2) (Some 100) (Some 200) 5 (demo_state None (\<lambda>_. 0x55)) = Inr t
      \<and> length rx = 8 \<and> take 5 rx = replicate 5 0xAA \<and> mem t = mem_store (\<lambda>_. 0x55) 200 rx
      \<and> hw t = [replicate 5 0x55])"
proof -
  let ?s = "demo_state None (\<lambda>_. 0x55)"
  have nc: "no_clobber (Some 100) (Some 200) (unat (5 :: 32 word))"
    by (simp add: no_clobber_def)
  have "layout_ok (layout demo_env)" by (simp add: esp32_layout_ok)
  from spiTransferBytesNL_exchange [OF demo_controller_ok demo_duplex_ok this nc, of 2 ?s]
  obtain t rx where t: "spiTransferBytesNL demo_env (Some 2) (Some 100) (Some 200) 5 ?s = Inr t"
    "burst_exchanged complement_peer 2 (Some 100) (Some 200) 5 ?s t rx"
    by auto
  have src: "tx_bytes (mem ?s) (Some 100) 5 = replicate 5 0x55"
    by (simp add: tx_bytes_def mem_bytes_def map_replicate_const)
  have "longs_of 5 = 2" by (simp add: longs_of_eq)
  with t nc src show ?thesis
    by (auto simp: burst_exchanged_def Let_def exchange_one complement_peer_def rx_store_def)
qed

section \<open>Write-only bursts\<close>

text \<open>A peripheral that is sent a buffer in transactions of at most 64 bytes.\<close>

function drain :: "(byte list \<Rightarrow> 'h \<Rightarrow> 'h) \<Rightarrow> byte list \<Rightarrow> 'h \<Rightarrow> 'h" where
  "drain W bs h = (if bs = [] then h else drain W (drop 64 bs) (W (take 64 bs) h))"
  by pat_completeness auto
termination
  by (relation "measure (\<lambda>(W, bs, h). length bs)") auto

declare drain.simps [simp del]

lemma drain_Nil [simp]: "drain W [] h = h"
  by (simp add: drain.simps)

lemma drain_one: "bs \<noteq> [] \<Longrightarrow> length bs \<le> 64 \<Longrightarrow> drain W bs h = W bs h"
  by (subst drain.simps) simp

lemma drain_more: "length bs = 64 \<Longrightarrow> drain W (bs @ cs) h = drain W cs (W bs h)"
  by (subst drain.simps) auto

text \<open>What a pixel write puts on the wire, most significant bit first: the two bytes of every 16-bit
  pixel swapped.\<close>

fun swap_pairs :: "byte list \<Rightarrow> byte list" where
  "swap_pairs (a # b # bs) = b # a # swap_pairs bs"
| "swap_pairs bs = bs"

definition wire :: "bool \<Rightarrow> byte list \<Rightarrow> byte list" where
  "wire msb bs = (if msb then swap_pairs bs else bs)"

lemma length_swap_pairs [simp]: "length (swap_pairs bs) = length bs"
  by (induction bs rule: swap_pairs.induct) simp_all

lemma length_wire [simp]: "length (wire msb bs) = length bs"
  by (simp add: wire_def)

lemma swap_pairs_append: "even (length bs) \<Longrightarrow> swap_pairs (bs @ cs) = swap_pairs bs @ swap_pairs cs"
  by (induction bs rule: swap_pairs.induct) simp_all

lemma wire_append: "even (length bs) \<Longrightarrow> wire msb (bs @ cs) = wire msb bs @ wire msb cs"
  by (simp add: wire_def swap_pairs_append)

lemma word_bytes_PIX: "word_bytes (MSB_PIX_SET w) = swap_pairs (word_bytes w)"
  using word_bytes_nth4 [of w] swap_pairs.simps by (metis word_bytes_MSB_PIX)

lemma words_bytes_PIX: "words_bytes (map (\<lambda>i. MSB_PIX_SET (f i)) is) = swap_pairs (words_bytes (map f is))"
  by (induction "is") (simp_all add: word_bytes_PIX swap_pairs_append)

lemma pixel_tail:
  assumes "r = 1 \<or> r = 2"
  shows "take r (word_bytes (if r = 2 then MSB_16_SET w else w AND 0xFF)) = swap_pairs (take r (word_bytes w))"
proof -
  have "ucast (w AND 0xFF) = (ucast w :: byte)"
    unfolding mask_8 by (rule bit_word_eqI, simp only: bit_ucast_iff bit_and_iff bit_mask_iff) auto
  then have "word_bytes (w AND 0xFF) ! 0 = word_bytes w ! 0"
    by (simp add: word_bytes_expand)
  moreover have "take 1 bs = [bs ! 0]" "take 2 bs = [bs ! 0, bs ! 1]" if "length bs = 4" for bs :: "byte list"
    using that by (auto simp: numeral_eq_Suc length_Suc_conv)
  ultimately show ?thesis
    using assms by (auto simp: word_bytes_MSB_16)
qed

text \<open>The words of one round, for a round length that is not 3 modulo 4.\<close>

lemma pixel_words_wire:
  assumes "msb \<longrightarrow> k mod 4 \<noteq> 3"
  shows "take k (words_bytes (map (\<lambda>i. pixel_word msb (k mod 4) (longs_of k) i (f i)) [0..<longs_of k]))
    = wire msb (take k (words_bytes (map f [0..<longs_of k])))"
proof (cases msb)
  case False
  then show ?thesis by (simp add: pixel_word_def wire_def)
next
  case True
  define q r where "q = k div 4" and "r = k mod 4"
  have k: "k = 4 * q + r" by (simp add: q_def r_def)
  have full: "words_bytes (map (\<lambda>i. pixel_word True r w i (f i)) [0..<q]) = swap_pairs (words_bytes (map f [0..<q]))"
    if "r \<noteq> 0 \<longrightarrow> w = Suc q" for w
  proof -
    have "map (\<lambda>i. pixel_word True r w i (f i)) [0..<q] = map (\<lambda>i. MSB_PIX_SET (f i)) [0..<q]"
      using that by (auto simp: pixel_word_def)
    then show ?thesis by (simp only: words_bytes_PIX)
  qed
  have "r = 0 \<or> r = 1 \<or> r = 2"
    using assms True mod_less_divisor [of 4 k] unfolding r_def by linarith
  then show ?thesis
  proof
    assume r: "r = 0"
    then have "longs_of k = q" by (simp add: longs_of_def q_def r_def)
    then show ?thesis
      using full [of q] k r by (simp add: True wire_def r_def [symmetric])
  next
    assume r: "r = 1 \<or> r = 2"
    then have l: "longs_of k = Suc q" by (auto simp: longs_of_def q_def r_def)
    have "pixel_word True r (Suc q) q (f q) = (if r = 2 then MSB_16_SET (f q) else f q AND 0xFF)"
      using r by (auto simp: pixel_word_def)
    then have "take k (words_bytes (map (\<lambda>i. pixel_word True r (Suc q) i (f i)) [0..<Suc q])) =
        swap_pairs (words_bytes (map f [0..<q])) @ swap_pairs (take r (word_bytes (f q)))"
      using full [of "Suc q"] pixel_tail [OF r, of "f q"] by (simp add: k)
    also have "\<dots> = swap_pairs (take k (words_bytes (map f [0..<Suc q])))"
      by (simp add: k swap_pairs_append)
    finally show ?thesis
      by (simp only: True wire_def r_def [symmetric] l if_True)
  qed
qed


lemma pixels_from_step:
  "w \<le> 16 \<Longrightarrow> pixels_from n msb l w (Some a) s =
     Inr (upd_dev n (\<lambda>d. d\<lparr>data_buf := (\<lambda>i. if i < w
       then pixel_word msb l w i (mem_word (mem s) (a + 4 * i)) else data_buf d i)\<rparr>) s)"
  by (simp add: pixels_from_def fifo_fill_step)

text \<open>One round of a pixel write.\<close>

lemma pixel_round:
  assumes "controller_ok E xact" and "write_ok E xact sink" and "layout_ok (layout E)"
    and k: "1 \<le> k" "k \<le> 64" and m3: "msb \<longrightarrow> k mod 4 \<noteq> 3" and lw: "l = k mod 4" "longs_of k = w"
  obtains t where
    "exec ([set_mosi_dlen E n (of_nat k * 8 - 1), set_miso_dlen E n 0,
            pixels_from n msb l w (Some a)] @ run_usr E n) s = Inr t"
    and "hw t = sink n (bus_config (dev_at s n)) (wire msb (mem_bytes (mem s) a k)) (hw s)"
    and "mem t = mem s" and "same_but_transfer n s t"
proof -
  let ?f = "\<lambda>m i. pixel_word msb (k mod 4) (longs_of k) i (mem_word m (a + 4 * i))"
  have w: "k \<le> 4 * longs_of k" "longs_of k \<le> 16"
    using longs_of_bounds(1) [of k] longs_of_small [OF k(2)] by simp_all
  have sent: "take k (words_bytes (map (?f (mem s)) [0..<longs_of k])) = wire msb (mem_bytes (mem s) a k)"
    using pixel_words_wire [OF m3, of "\<lambda>i. mem_word (mem s) (a + 4 * i)"] w(1)
    by (simp add: words_bytes_mem_words min_def)
  obtain t where "exec ([set_mosi_dlen E n (of_nat k * 8 - 1), set_miso_dlen E n 0,
        pixels_from n msb (k mod 4) (longs_of k) (Some a)] @ run_usr E n) s = Inr t"
    "hw t = sink n (bus_config (dev_at s n)) (take k (words_bytes (map (?f (mem s)) [0..<longs_of k]))) (hw s)"
    "mem t = mem s" "same_but_transfer n s t"
    by (rule transaction_write [where f = ?f, OF assms(1-3) k w pixels_from_step [OF w(2)]])
  then show ?thesis
    using sent by (intro that [of t]) (simp_all only: lw)
qed

definition drained ::
  "'h sink \<Rightarrow> nat \<Rightarrow> byte list \<Rightarrow> 'h spi_state \<Rightarrow> 'h spi_state \<Rightarrow> bool" where
  "drained sink n bs s t \<longleftrightarrow> hw t = drain (sink n (bus_config (dev_at s n))) bs (hw s)
     \<and> mem t = mem s \<and> same_but_transfer n s t"

lemma pixels_loop_0: "spiWritePixelsNL_loop E n msb data longs 0 s = Inr s"
  by (subst spiWritePixelsNL_loop.simps) simp

lemma drained_step:
  assumes "hw t = sink n (bus_config (dev_at s n)) (wire msb (mem_bytes (mem s) a 64)) (hw s)"
    and "mem t = mem s" and same: "same_but_transfer n s t"
    and "drained sink n (wire msb (mem_bytes (mem t) (a + 64) k)) t u"
  shows "drained sink n (wire msb (mem_bytes (mem s) a (64 + k))) s u"
proof -
  have "bus_config (dev_at t n) = bus_config (dev_at s n)"
    using same by (simp add: same_but_transfer_def)
  then show ?thesis
    using assms same_but_transfer_trans [OF same]
    by (simp add: drained_def mem_bytes_add wire_append drain_more)
qed

lemma pixels_loop:
  assumes "controller_ok E xact" and "write_ok E xact sink" and "layout_ok (layout E)"
    and "msb \<longrightarrow> len mod 4 \<noteq> 3"
  shows "\<exists>t. spiWritePixelsNL_loop E n msb (Some a) (longs_of len) len s = Inr t
    \<and> drained sink n (wire msb (mem_bytes (mem s) a len)) s t"
  using assms(4)
proof (induction len arbitrary: a s rule: less_induct)
  case (less len)
  show ?case
  proof (cases "len = 0")
    case True
    then show ?thesis by (simp add: pixels_loop_0 drained_def mem_bytes_def wire_def)
  next
    case False
    then show ?thesis
    proof (cases rule: round_cases)
      case last
      have k: "1 \<le> len" using False by simp
      obtain t where t: "exec ([set_mosi_dlen E n (of_nat len * 8 - 1), set_miso_dlen E n 0,
            pixels_from n msb (len mod 4) (longs_of len) (Some a)] @ run_usr E n) s = Inr t"
          "hw t = sink n (bus_config (dev_at s n)) (wire msb (mem_bytes (mem s) a len)) (hw s)"
          "mem t = mem s" "same_but_transfer n s t"
        by (rule pixel_round [OF assms(1-3) k last(1) less.prems refl refl])
      have "wire msb (mem_bytes (mem s) a len) \<noteq> []"
        using k by (metis length_mem_bytes length_wire list.size(3) not_one_le_zero)
      then have "drained sink n (wire msb (mem_bytes (mem s) a len)) s t"
        using t(2-4) last(1) by (simp add: drained_def drain_one)
      moreover have "spiWritePixelsNL_loop E n msb (Some a) (longs_of len) len s = Inr t"
        using False spiWritePixelsNL_loop.simps [of E n msb "Some a" "longs_of len" len s]
        by (simp only: last(2,3) Let_def if_False t(1) bindr_simps diff_self_eq_0 pixels_loop_0)
      ultimately show ?thesis by blast
    next
      case more
      have l64: "longs_of 64 = 16" by (simp add: longs_of_eq)
      obtain t where t: "exec ([set_mosi_dlen E n (of_nat 64 * 8 - 1), set_miso_dlen E n 0,
            pixels_from n msb (64 mod 4) 16 (Some a)] @ run_usr E n) s = Inr t"
          "hw t = sink n (bus_config (dev_at s n)) (wire msb (mem_bytes (mem s) a 64)) (hw s)"
          "mem t = mem s" "same_but_transfer n s t"
        by (rule pixel_round [OF assms(1-3) _ _ _ refl l64]) simp_all
      have len: "len = 64 + (len - 64)" using more(1) by simp
      have "(64 + j) mod 4 = j mod 4" for j :: nat by presburger
      with len less.prems have "msb \<longrightarrow> (len - 64) mod 4 \<noteq> 3" by metis
      then obtain u where u: "spiWritePixelsNL_loop E n msb (Some (a + 64)) (longs_of (len - 64)) (len - 64) t = Inr u"
          "drained sink n (wire msb (mem_bytes (mem t) (a + 64) (len - 64))) t u"
        using less.IH [of "len - 64" "a + 64" t] more(1) by auto
      have "spiWritePixelsNL_loop E n msb (Some a) (longs_of len) len s = Inr u"
        using False spiWritePixelsNL_loop.simps [of E n msb "Some a" "longs_of len" len s]
        by (simp only: more(2,3,4) Let_def if_False t(1) bindr_simps advance_def option.map
            arith_simps u(1))
      moreover have "drained sink n (wire msb (mem_bytes (mem s) a len)) s u"
        using drained_step [OF t(2-4) u(2)] len by simp
      ultimately show ?thesis by blast
    qed
  qed
qed


text \<open>Without the byte swap the pixel loop is the loop of \<open>spiWriteNL\<close>.\<close>

lemma write_loop_is_pixel_loop:
  "spiWriteNL_loop E n data longs len s = spiWritePixelsNL_loop E n False data longs len s"
proof (induction len arbitrary: data longs s rule: less_induct)
  case (less len)
  have fill: "pixels_from n False l w d = fifo_from n w d" for l w d
    by (rule ext) (simp add: pixels_from_def fifo_from_def pixel_word_def split: option.split)
  show ?case
  proof (cases "len = 0")
    case True
    then show ?thesis
      by (simp add: spiWriteNL_loop.simps [of E n data longs 0] pixels_loop_0)
  next
    case False
    then show ?thesis
      by (subst spiWriteNL_loop.simps, subst spiWritePixelsNL_loop.simps)
        (simp only: Let_def fill if_False, intro bindr_cong refl less.IH, simp)
  qed
qed

text \<open>Property C33. \<open>spiWriteNL\<close> sends the peripheral exactly the \<open>len\<close> bytes of the buffer, in order and in
  transactions of at most 64 bytes; memory, the mutex and the bus configuration stay as they are.\<close>

theorem spiWriteNL_drains:
  assumes "controller_ok E xact" and "write_ok E xact sink" and "layout_ok (layout E)"
  shows "\<exists>t. spiWriteNL E (Some n) (Some a) len s = Inr t
    \<and> drained sink n (mem_bytes (mem s) a (unat len)) s t \<and> lock_at t n = lock_at s n"
proof -
  obtain t where "spiWritePixelsNL_loop E n False (Some a) (longs_of (unat len)) (unat len) s = Inr t"
    "drained sink n (wire False (mem_bytes (mem s) a (unat len))) s t"
    using pixels_loop [OF assms] by blast
  then show ?thesis
    by (auto simp: spiWriteNL_def write_loop_is_pixel_loop wire_def drained_def same_but_transfer_def)
qed

text \<open>The world of \<open>demo_env\<close> records the bytes of every transaction.\<close>

definition recording_sink :: "byte list list sink" where
  "recording_sink n cfg bs h = h @ [bs]"

lemma demo_write_ok: "write_ok demo_env complement_xact recording_sink"
proof -
  have "sent_bytes d = take k (fifo_bytes (data_buf d))"
    if "1 \<le> k" "unat (get_low 24 (mosi_dlen d)) = 8 * k - 1" for d k
    using that by (simp add: sent_bytes_def fifo_bytes_def)
  then show ?thesis
    by (auto simp: write_ok_def esp32_layout_def complement_xact_def recording_sink_def)
qed

definition counting :: memory where
  "counting x = of_nat x"

lemma spiWriteNL_drains_witness:
  "\<exists>t. spiWriteNL demo_env (Some 2) (Some 1) 3 (demo_state None counting) = Inr t \<and> hw t = [[1, 2, 3]]"
proof -
  have "layout_ok (layout demo_env)" by (simp add: esp32_layout_ok)
  moreover have "mem_bytes counting 1 3 = [1, 2, 3]"
    by (simp add: mem_bytes_def counting_def upt_rec)
  ultimately show ?thesis
    using spiWriteNL_drains [OF demo_controller_ok demo_write_ok, of 2 1 3 "demo_state None counting"]
    by (auto simp: drained_def drain_one recording_sink_def)
qed

text \<open>Property C34. In MSB-first order \<open>spiWritePixelsNL\<close> swaps the two bytes of every 16-bit pixel and otherwise
  sends the buffer as it is, in transactions of at most 64 bytes, for every length that is not 3
  modulo 4; in LSB-first order it sends the buffer unchanged, whatever the length.\<close>

theorem spiWritePixelsNL_swaps:
  assumes "controller_ok E xact" and "write_ok E xact sink" and "layout_ok (layout E)"
    and "\<not> wr_lsb E n s \<longrightarrow> unat len mod 4 \<noteq> 3"
  shows "\<exists>t. spiWritePixelsNL E (Some n) (Some a) len s = Inr t
    \<and> drained sink n (if wr_lsb E n s then mem_bytes (mem s) a (unat len)
                     else swap_pairs (mem_bytes (mem s) a (unat len))) s t
    \<and> lock_at t n = lock_at s n"
proof -
  obtain t where "spiWritePixelsNL_loop E n (\<not> wr_lsb E n s) (Some a) (longs_of (unat len)) (unat len) s = Inr t"
    "drained sink n (wire (\<not> wr_lsb E n s) (mem_bytes (mem s) a (unat len))) s t"
    using pixels_loop [OF assms] by blast
  then show ?thesis
    by (auto simp: spiWritePixelsNL_def wire_def drained_def same_but_transfer_def)
qed

lemma spiWritePixelsNL_swaps_witness:
  "\<not> wr_lsb demo_env 2 (demo_state None counting) \<and>
   (\<exists>t. spiWritePixelsNL demo_env (Some 2) (Some 1) 6 (demo_state None counting) = Inr t
      \<and> hw t = [[2, 1, 4, 3, 6, 5]])"
proof -
  let ?s = "demo_state None counting"
  have lay: "layout_ok (layout demo_env)" by (simp add: esp32_layout_ok)
  have msb: "\<not> wr_lsb demo_env 2 ?s" by (simp add: wr_lsb_def zero_dev_def)
  have "mem_bytes counting 1 6 = [1, 2, 3, 4, 5, 6]"
    by (simp add: mem_bytes_def counting_def upt_rec)
  with msb spiWritePixelsNL_swaps [OF demo_controller_ok demo_write_ok lay, of 2 ?s 6 1]
  show ?thesis
    by (auto simp: drained_def drain_one recording_sink_def)
qed

text \<open>With a remainder of three bytes the MSB-first pixel write does not send the buffer: of a three-byte
  buffer only the first byte reaches the wire, followed by two zero bytes.\<close>

lemma pixel_tail_of_three_lost:
  assumes "controller_ok E xact" and "write_ok E xact sink" and "layout_ok (layout E)"
    and "\<not> wr_lsb E n s"
  shows "\<exists>t. spiWritePixelsNL E (Some n) (Some a) 3 s = Inr t \<and> drained sink n [mem s a, 0, 0] s t"
proof -
  let ?f = "\<lambda>m i. pixel_word True 3 1 i (mem_word m (a + 4 * i))"
  obtain t where t: "exec ([set_mosi_dlen E n (of_nat 3 * 8 - 1), set_miso_dlen E n 0,
        pixels_from n True 3 1 (Some a)] @ run_usr E n) s = Inr t"
    "hw t = sink n (bus_config (dev_at s n)) (take 3 (words_bytes (map (?f (mem s)) [0..<1]))) (hw s)"
    "mem t = mem s" "same_but_transfer n s t"
    by (rule transaction_write [where f = ?f and k = 3 and w = 1 and n = n and s = s,
          OF assms(1-3) _ _ _ _ pixels_from_step]) simp_all
  have and_ff: "ucast (w AND 0xFF) = (ucast w :: byte)" "drop_bit 8 (w AND 0xFF) = 0"
    "drop_bit 16 (w AND 0xFF) = 0" for w :: "32 word"
    unfolding mask_8
    by (rule bit_word_eqI, simp only: bit_ucast_iff bit_drop_bit_eq bit_and_iff bit_mask_iff comp_def, auto)+
  have "word_bytes (mem_word (mem s) a) ! 0 = mem s a"
    by (simp add: word_bytes_mem_word mem_bytes_def)
  then have "ucast (mem_word (mem s) a) = mem s a"
    by (simp add: word_bytes_expand)
  then have sent: "take 3 (words_bytes (map (?f (mem s)) [0..<1])) = [mem s a, 0, 0]"
    by (simp add: pixel_word_def word_bytes_expand and_ff numeral_3_eq_3)
  have loop: "spiWritePixelsNL_loop E n True (Some a) 1 3 s = Inr t"
    using t(1) by (subst spiWritePixelsNL_loop.simps) (simp add: Let_def pixels_loop_0 del: exec.simps append_Cons)
  have "longs_of 3 = 1" by (simp add: longs_of_def)
  with loop have "spiWritePixelsNL E (Some n) (Some a) 3 s = Inr t"
    using assms(4) by (simp add: spiWritePixelsNL_def)
  with t(2-4) sent show ?thesis
    by (simp add: drained_def drain_one)
qed

end
