(* ===== verification/Spi_Locks.thy ===== *)
theory Spi_Locks
  imports Spi_Burst
begin

text \<open>
  The locking protocol of \<^verbatim>\<open>esp32/esp32spi.c\<close> as a whole.  \<open>bus_op\<close> lists the calls a client makes on
  a bus outside a transaction and \<open>burst_op\<close> those it makes inside one; both are interpreted by the
  definitions of \<open>Spi_Config\<close> and \<open>Spi_Transfer\<close>.  The lemmas show that no sequence of calls gets
  stuck or loses the mutex, and what a NULL bus and a bus whose mutex is held do to each call.
\<close>

section \<open>The calls\<close>

datatype bus_op =
    AttachSCK "8 word" | AttachMISO "8 word" | AttachMOSI "8 word"
  | DetachSCK "8 word" | DetachMISO "8 word" | DetachMOSI "8 word"
  | AttachSS "8 word" "8 word" | DetachSS "8 word" | EnableSSPins "8 word" | DisableSSPins "8 word"
  | SSEnable | SSDisable | SSSet | SSClear
  | SetClockDiv "32 word" | SetDataMode "8 word" | SetBitOrder "8 word" | StopBus | WaitReady
  | Write ptr "8 word" | Transfer ptr "8 word"
  | WriteByte "8 word" | WriteWord "16 word" | WriteLong "32 word"
  | TransferByte "8 word" | TransferWord "16 word" | TransferLong "32 word"
  | TransferBytes ptr ptr "32 word" | TransferBits "32 word" ptr "8 word"

datatype burst_op =
    WriteByteNL "8 word" | WriteShortNL "16 word" | WriteLongNL "32 word"
  | TransferByteNL "8 word" | TransferShortNL "16 word" | TransferLongNL "32 word"
  | WriteNL ptr "32 word" | WritePixelsNL ptr "32 word"
  | TransferBytesNL ptr ptr "32 word" | TransferBitsNL "32 word" ptr "8 word"

text \<open>A call whose returned value is ignored.\<close>

definition void :: "('s \<Rightarrow> 'e + ('a \<times> 's)) \<Rightarrow> ('e, 's) step" where
  "void f s = bindr (f s) (\<lambda>(r, s). Inr s)"

primrec bus_step :: "'h spi_env \<Rightarrow> spi_ptr \<Rightarrow> bus_op \<Rightarrow> (spi_fault, 'h spi_state) step" where
  "bus_step E spi (AttachSCK p) = spiAttachSCK E spi p"
| "bus_step E spi (AttachMISO p) = spiAttachMISO E spi p"
| "bus_step E spi (AttachMOSI p) = spiAttachMOSI E spi p"
| "bus_step E spi (DetachSCK p) = spiDetachSCK E spi p"
| "bus_step E spi (DetachMISO p) = spiDetachMISO E spi p"
| "bus_step E spi (DetachMOSI p) = spiDetachMOSI E spi p"
| "bus_step E spi (AttachSS c p) = spiAttachSS E spi c p"
| "bus_step E spi (DetachSS p) = spiDetachSS E spi p"
| "bus_step E spi (EnableSSPins m) = spiEnableSSPins spi m"
| "bus_step E spi (DisableSSPins m) = spiDisableSSPins spi m"
| "bus_step E spi SSEnable = spiSSEnable E spi"
| "bus_step E spi SSDisable = spiSSDisable E spi"
| "bus_step E spi SSSet = spiSSSet E spi"
| "bus_step E spi SSClear = spiSSClear E spi"
| "bus_step E spi (SetClockDiv v) = spiSetClockDiv spi v"
| "bus_step E spi (SetDataMode m) = spiSetDataMode E spi m"
| "bus_step E spi (SetBitOrder b) = spiSetBitOrder E spi b"
| "bus_step E spi StopBus = spiStopBus E spi"
| "bus_step E spi WaitReady = spiWaitReady E spi"
| "bus_step E spi (Write data len) = spiWrite E spi data len"
| "bus_step E spi (Transfer data len) = spiTransfer E spi data len"
| "bus_step E spi (WriteByte b) = spiWriteByte E spi b"
| "bus_step E spi (WriteWord d) = spiWriteWord E spi d"
| "bus_step E spi (WriteLong w) = spiWriteLong E spi w"
| "bus_step E spi (TransferByte b) = void (spiTransferByte E spi b)"
| "bus_step E spi (TransferWord d) = void (spiTransferWord E spi d)"
| "bus_step E spi (TransferLong w) = void (spiTransferLong E spi w)"
| "bus_step E spi (TransferBytes data out sz) = spiTransferBytes E spi data out sz"
| "bus_step E spi (TransferBits data out bits) = spiTransferBits E spi data out bits"

primrec burst_step :: "'h spi_env \<Rightarrow> spi_ptr \<Rightarrow> burst_op \<Rightarrow> (spi_fault, 'h spi_state) step" where
  "burst_step E spi (WriteByteNL b) = spiWriteByteNL E spi b"
| "burst_step E spi (WriteShortNL d) = spiWriteShortNL E spi d"
| "burst_step E spi (WriteLongNL w) = spiWriteLongNL E spi w"
| "burst_step E spi (TransferByteNL b) = void (spiTransferByteNL E spi b)"
| "burst_step E spi (TransferShortNL d) = void (spiTransferShortNL E spi d)"
| "burst_step E spi (TransferLongNL w) = void (spiTransferLongNL E spi w)"
| "burst_step E spi (WriteNL data len) = spiWriteNL E spi data len"
| "burst_step E spi (WritePixelsNL data len) = spiWritePixelsNL E spi data len"
| "burst_step E spi (TransferBytesNL data out len) = spiTransferBytesNL E spi data out len"
| "burst_step E spi (TransferBitsNL data out bits) = spiTransferBitsNL E spi data out bits"

text \<open>The calls that dereference their buffer without a check are given one.\<close>

fun bus_buffers :: "bus_op \<Rightarrow> bool" where
  "bus_buffers (Write data len) = (data \<noteq> None)"
| "bus_buffers (Transfer data len) = (data \<noteq> None)"
| "bus_buffers _ = True"

fun burst_buffers :: "burst_op \<Rightarrow> bool" where
  "burst_buffers (WriteNL data len) = (data \<noteq> None)"
| "burst_buffers (WritePixelsNL data len) = (data \<noteq> None)"
| "burst_buffers _ = True"

text \<open>The calls that take the mutex.\<close>

fun takes_mutex :: "bus_op \<Rightarrow> bool" where
  "takes_mutex (AttachSCK p) = False"
| "takes_mutex (AttachMOSI p) = False"
| "takes_mutex (DetachSCK p) = False"
| "takes_mutex (DetachMISO p) = False"
| "takes_mutex (DetachMOSI p) = False"
| "takes_mutex (DetachSS p) = False"
| "takes_mutex WaitReady = False"
| "takes_mutex (AttachSS c p) = (c \<le> 2)"
| "takes_mutex _ = True"

section \<open>Classes of statements\<close>

text \<open>
  What a transfer does to the state is a composition of a few statements.  A class of statements that
  is decided state by state, is closed under sequencing and holds the statements below therefore
  holds every lock-free transfer of the driver.
\<close>

locale transfer_class =
  fixes good :: "(spi_fault, 'h spi_state) step \<Rightarrow> bool" and E :: "'h spi_env" and n :: nat
    and xact :: "nat \<Rightarrow> spi_dev \<Rightarrow> 'h \<Rightarrow> (nat \<Rightarrow> 32 word) \<times> 'h"
  assumes good_Inr: "good Inr"
    and good_bind: "good c \<Longrightarrow> good d \<Longrightarrow> good (\<lambda>s. bindr (c s) d)"
    and good_point: "(\<And>s. \<exists>d. good d \<and> c s = d s) \<Longrightarrow> good c"
    and good_dlen: "good (set_mosi_dlen E n v)" "good (set_miso_dlen E n v)" "good (set_usr E n)"
    and good_fill: "k \<le> 16 \<Longrightarrow> good (fifo_fill n k f)"
    and good_put: "i < 16 \<Longrightarrow> good (fifo_put n i w)"
    and good_store: "good (\<lambda>s. Inr (store a bs s))"
    and good_wait: "controller_ok E xact \<Longrightarrow> good (wait_usr E n)"
begin

lemma good_exec: "(\<And>c. c \<in> set cs \<Longrightarrow> good c) \<Longrightarrow> good (exec cs)"
  by (induction cs) (simp_all add: good_Inr exec_Cons_fun good_bind)

lemma good_split: "good (exec cs) \<Longrightarrow> good (exec ds) \<Longrightarrow> good (exec (cs @ ds))"
  using good_bind [of "exec cs" "exec ds"] by (simp add: exec_append [abs_def])

lemma good_store_at: "good (\<lambda>s. Inr (store a (bs s) s))"
proof (rule good_point)
  fix s
  show "\<exists>d. good d \<and> Inr (store a (bs s) s) = d s"
    by (rule exI [of _ "\<lambda>t. Inr (store a (bs s) t)"]) (simp add: good_store)
qed

lemma good_out: "good (\<lambda>s. case out of None \<Rightarrow> Inr s | Some a \<Rightarrow> Inr (store a (bs a s) s))"
  by (cases out) (simp_all add: good_Inr good_store_at)

lemma good_get: "i < 16 \<Longrightarrow> good (fifo_get n i a)"
  using good_store_at by (simp add: fifo_get_def [abs_def])

lemma good_to: "k \<le> 16 \<Longrightarrow> good (fifo_to n k (Some a))"
  by (auto simp: fifo_to_def intro!: good_exec good_get)

lemma good_from: "k \<le> 16 \<Longrightarrow> good (fifo_from n k (Some a))" "k \<le> 16 \<Longrightarrow> good (fifo_from_or_ones n k data)"
    "k \<le> 16 \<Longrightarrow> good (pixels_from n msb l k (Some a))"
  using good_fill [of k]
  by (cases data; simp add: fifo_from_def [abs_def] fifo_from_or_ones_def pixels_from_def [abs_def])+

lemmas goods = good_Inr good_dlen good_fill good_put good_to good_from

lemma good_run: "controller_ok E xact \<Longrightarrow> good (exec (run_usr E n))"
  unfolding run_usr_def by (rule good_exec) (auto intro: goods good_wait)

lemma good_word:
  assumes "controller_ok E xact"
  shows "good (exec (word_write E n k w))" "good (exec (word_exchange E n k w))"
  unfolding word_write_def word_exchange_def
  by (rule good_split, (rule good_exec, auto intro: goods)[1], rule good_run [OF assms])+

lemma good_chunk:
  assumes "controller_ok E xact"
  shows "good (spiTransferBytes_chunk E n data out k)"
proof (rule good_point)
  fix s
  have "(if k > 64 then 64 else k) \<le> 64" by simp
  then have w: "((if k > 64 then 64 else k) + 3) div 4 \<le> 16" by presburger
  have body: "\<exists>d. good d \<and> exec (cs @ run_usr E n @ [f]) s = d s" if "\<And>c. c \<in> set cs \<Longrightarrow> good c" "good f" for cs f
    by (rule exI [of _ "exec (cs @ run_usr E n @ [f])"], intro conjI refl good_split good_run [OF assms])
      (rule good_exec, use that in \<open>auto intro: goods\<close>)+
  show "\<exists>d. good d \<and> spiTransferBytes_chunk E n data out k s = d s"
    unfolding spiTransferBytes_chunk_def Let_def
    by (rule body) (auto intro: goods good_out w)
qed

lemma good_bytes_loop:
  assumes "controller_ok E xact"
  shows "good (spiTransferBytes_loop E n data out sz)"
proof (induction sz arbitrary: data out rule: less_induct)
  case (less sz)
  have eq: "spiTransferBytes_loop E n data out sz =
     (if sz = 0 then Inr
      else if sz > 64 then (\<lambda>s. bindr (spiTransferBytes_chunk E n data out 64 s)
          (spiTransferBytes_loop E n (advance data 64) (advance out 64) (sz - 64)))
      else spiTransferBytes_chunk E n data out sz)"
    by (rule ext) (simp add: spiTransferBytes_loop.simps [of E n data out sz])
  show ?case
    unfolding eq using less good_chunk [OF assms] by (auto intro: goods good_bind)
qed

lemma good_burst_loop:
  assumes "controller_ok E xact"
  shows "good (spiTransferBytesNL_loop E n data result longs len)"
proof (induction len arbitrary: data result longs rule: less_induct)
  case (less len)
  let ?c = "if len > 64 then 64 else len" and ?w = "if longs > 16 then 16 else longs"
  have eq: "spiTransferBytesNL_loop E n data result longs len =
     (if len = 0 then Inr
      else (\<lambda>s. bindr (exec ([set_mosi_dlen E n (of_nat ?c * 8 - 1), set_miso_dlen E n (of_nat ?c * 8 - 1),
            fifo_from_or_ones n ?w data] @ run_usr E n @
            (if result = None then [] else [fifo_to n ?w result])) s)
          (spiTransferBytesNL_loop E n (advance data (4 * ?w)) (advance result (4 * ?w)) (longs - ?w) (len - ?c))))"
    by (rule ext) (subst spiTransferBytesNL_loop.simps, simp only: Let_def if_distribR)
  have out: "good (exec (if result = None then [] else [fifo_to n ?w result]))"
    by (cases result) (auto intro!: good_exec goods)
  have "good (exec ([set_mosi_dlen E n (of_nat ?c * 8 - 1), set_miso_dlen E n (of_nat ?c * 8 - 1),
      fifo_from_or_ones n ?w data] @ run_usr E n @ (if result = None then [] else [fifo_to n ?w result])))"
    by (intro good_split good_run [OF assms] out, rule good_exec) (auto intro: goods)
  then show ?case
    unfolding eq using less by (auto intro!: good_Inr good_bind simp del: exec.simps append_Cons)
qed

lemma good_pixels_loop:
  assumes "controller_ok E xact"
  shows "good (spiWritePixelsNL_loop E n msb (Some a) longs len)"
proof (induction len arbitrary: a longs rule: less_induct)
  case (less len)
  let ?c = "if len > 64 then 64 else len" and ?w = "if longs > 16 then 16 else longs"
  have eq: "spiWritePixelsNL_loop E n msb (Some a) longs len =
     (if len = 0 then Inr
      else (\<lambda>s. bindr (exec ([set_mosi_dlen E n (of_nat ?c * 8 - 1), set_miso_dlen E n 0,
            pixels_from n msb (?c mod 4) ?w (Some a)] @ run_usr E n) s)
          (spiWritePixelsNL_loop E n msb (Some (a + 4 * ?w)) (longs - ?w) (len - ?c))))"
    by (rule ext) (subst spiWritePixelsNL_loop.simps, simp only: Let_def if_distribR advance_def option.map)
  have "good (exec ([set_mosi_dlen E n (of_nat ?c * 8 - 1), set_miso_dlen E n 0,
      pixels_from n msb (?c mod 4) ?w (Some a)] @ run_usr E n))"
    by (intro good_split good_run [OF assms], rule good_exec) (auto intro: goods)
  then show ?case
    unfolding eq using less by (auto intro!: good_Inr good_bind simp del: exec.simps append_Cons)
qed

lemma good_bits:
  assumes "controller_ok E xact"
  shows "good (spiTransferBitsNL E (Some n) data out bits)"
proof (rule good_point)
  fix s
  have fin: "good (\<lambda>s. let data = data_buf (dev_at s n) 0 in
      case out of None \<Rightarrow> Inr s
      | Some a \<Rightarrow>
          let s = store a (word_bytes data) s
          in Inr (if \<not> rd_lsb E n s then store a (word_bytes (bits_convert k data)) s else s))" for k
  proof (rule good_point)
    fix s
    show "\<exists>d. good d \<and> (let data = data_buf (dev_at s n) 0 in
      case out of None \<Rightarrow> Inr s
      | Some a \<Rightarrow>
          let s = store a (word_bytes data) s
          in Inr (if \<not> rd_lsb E n s then store a (word_bytes (bits_convert k data)) s else s)) = d s"
    proof (cases out)
      case None
      then show ?thesis by (intro exI [of _ Inr]) (simp add: good_Inr)
    next
      case (Some a)
      let ?b1 = "word_bytes (data_buf (dev_at s n) 0)" and ?b2 = "word_bytes (bits_convert k (data_buf (dev_at s n) 0))"
      let ?one = "\<lambda>t. Inr (store a ?b1 t)"
      let ?two = "\<lambda>t. bindr (?one t) (\<lambda>t. Inr (store a ?b2 t))"
      have "good ?one" "good ?two" by (rule good_store, rule good_bind [OF good_store good_store])
      then show ?thesis
        using Some by (cases "rd_lsb E n (store a ?b1 s)") (force simp: Let_def)+
    qed
  qed
  have body: "\<exists>d. good d \<and>
      exec ([set_mosi_dlen E n v, set_miso_dlen E n v, fifo_put n 0 w] @ run_usr E n @ [f]) s = d s"
    if "good f" for v w f
    by (rule exI [of _ "exec ([set_mosi_dlen E n v, set_miso_dlen E n v, fifo_put n 0 w] @ run_usr E n @ [f])"],
        intro conjI refl good_split good_run [OF assms])
      (rule good_exec, use that in \<open>auto intro: goods\<close>)+
  show "\<exists>d. good d \<and> spiTransferBitsNL E (Some n) data out bits s = d s"
    unfolding spiTransferBitsNL_def option.case
    by (subst Let_def, subst Let_def, subst Let_def, subst Let_def) (rule body [OF fin])
qed

lemma good_exchange_value:
  assumes "controller_ok E xact"
  shows "good (void (\<lambda>s. bindr (free_exchange E n k (f s) s) (\<lambda>(r, s). Inr (g r s, s))))"
proof (rule good_point)
  fix s
  have "void (\<lambda>s. bindr (free_exchange E n k (f s) s) (\<lambda>(r, s). Inr (g r s, s))) s
      = exec (word_exchange E n k (f s)) s"
    by (cases "exec (word_exchange E n k (f s)) s") (simp_all add: void_def free_exchange_def bindr_assoc)
  then show "\<exists>d. good d \<and> void (\<lambda>s. bindr (free_exchange E n k (f s) s) (\<lambda>(r, s). Inr (g r s, s))) s = d s"
    using good_word(2) [OF assms] by blast
qed

lemma good_exchanges:
  assumes "controller_ok E xact"
  shows "good (void (spiTransferByteNL E (Some n) b))" "good (void (spiTransferShortNL E (Some n) d))"
    "good (void (spiTransferLongNL E (Some n) w))"
proof -
  show "good (void (spiTransferByteNL E (Some n) b))"
    using good_exchange_value [OF assms, where f = "\<lambda>_. ucast b" and g = "\<lambda>r s. ucast (r AND 0xFF) :: byte"]
    by (simp add: spiTransferByteNL_def [abs_def] void_def)
  show "good (void (spiTransferShortNL E (Some n) d))"
    using good_exchange_value [OF assms, where f = "\<lambda>s. ucast (if \<not> wr_lsb E n s then MSB_16_SET_short d else d)"
        and g = "\<lambda>r s. let data = ucast (r AND 0xFFFF) in if \<not> rd_lsb E n s then MSB_16_SET_short data else data"]
    by (simp add: spiTransferShortNL_def [abs_def] Let_def void_def)
  show "good (void (spiTransferLongNL E (Some n) w))"
    using good_exchange_value [OF assms, where f = "\<lambda>s. if \<not> wr_lsb E n s then MSB_32_SET w else w"
        and g = "\<lambda>r s. if \<not> rd_lsb E n s then MSB_32_SET r else r"]
    by (simp add: spiTransferLongNL_def [abs_def] Let_def void_def)
qed

lemma good_words:
  assumes "controller_ok E xact"
  shows "good (spiWriteByteNL E (Some n) b)" "good (spiWriteShortNL E (Some n) d)"
    "good (spiWriteLongNL E (Some n) w)"
proof -
  have "good (\<lambda>s. exec (word_write E n k (f s)) s)" for k f
    by (rule good_point) (use good_word(1) [OF assms] in blast)
  then show "good (spiWriteByteNL E (Some n) b)" "good (spiWriteShortNL E (Some n) d)"
    "good (spiWriteLongNL E (Some n) w)"
    by (simp_all add: spiWriteByteNL_def [abs_def] spiWriteShortNL_def [abs_def] spiWriteLongNL_def [abs_def] Let_def)
qed

lemma burst_good:
  assumes "controller_ok E xact" and "burst_buffers op"
  shows "good (burst_step E (Some n) op)"
proof (cases op)
  case (WriteNL data len)
  then obtain a where "data = Some a" using assms(2) by auto
  then show ?thesis
    using good_pixels_loop [OF assms(1), of False a]
    by (simp add: WriteNL spiWriteNL_def [abs_def] write_loop_is_pixel_loop [abs_def])
next
  case (WritePixelsNL data len)
  then obtain a where a: "data = Some a" using assms(2) by auto
  show ?thesis
  proof (rule good_point)
    fix s
    show "\<exists>d. good d \<and> burst_step E (Some n) op s = d s"
      using good_pixels_loop [OF assms(1), of _ a] a
      by (auto simp: WritePixelsNL spiWritePixelsNL_def)
  qed
next
  case (TransferBytesNL data out len)
  then show ?thesis using good_burst_loop [OF assms(1)] by (simp add: spiTransferBytesNL_def [abs_def])
next
  case (TransferBitsNL data out bits)
  then show ?thesis using good_bits [OF assms(1)] by simp
qed (use good_words [OF assms(1)] good_exchanges [OF assms(1)] in simp_all)

end

section \<open>Statements that return and keep every mutex\<close>

definition quiet :: "(spi_fault, 'h spi_state) step \<Rightarrow> bool" where
  "quiet c \<longleftrightarrow> (\<forall>s. \<exists>t. c s = Inr t \<and> (\<forall>k. lock_at t k = lock_at s k))"

named_theorems quiets

lemma quietD:
  assumes "quiet c"
  obtains t where "c s = Inr t" "\<And>k. lock_at t k = lock_at s k"
  using assms by (auto simp: quiet_def)

lemma quiet_Inr [quiets]: "quiet Inr"
  by (simp add: quiet_def)

lemma quiet_bind [quiets]: "quiet c \<Longrightarrow> quiet d \<Longrightarrow> quiet (\<lambda>s. bindr (c s) d)"
  unfolding quiet_def by (metis bindr_simps(2))

lemma quiet_exec [quiets]: "(\<And>c. c \<in> set cs \<Longrightarrow> quiet c) \<Longrightarrow> quiet (exec cs)"
proof (induction cs)
  case Nil
  then show ?case by (simp add: quiet_Inr)
next
  case (Cons c cs)
  then show ?case by (simp add: exec_Cons_fun quiet_bind)
qed

lemma quiet_reg [quiets]: "quiet (reg n f)"
  by (simp add: quiet_def reg_step)

lemma quiet_emit [quiets]: "quiet (emit cs)"
  by (simp add: quiet_def emit_step)

lemma quiet_dlen [quiets]: "quiet (set_mosi_dlen E n v)" "quiet (set_miso_dlen E n v)" "quiet (set_usr E n)"
  by (simp_all add: dlen_steps quiet_reg)

lemma quiet_fill [quiets]: "k \<le> 16 \<Longrightarrow> quiet (fifo_fill n k f)"
  by (simp add: quiet_def fifo_fill_step)

lemma quiet_put [quiets]: "i < 16 \<Longrightarrow> quiet (fifo_put n i w)"
  by (simp add: quiet_def fifo_put_step)

lemma quiet_from [quiets]: "k \<le> 16 \<Longrightarrow> quiet (fifo_from n k (Some a))"
  by (simp add: quiet_def fifo_from_def fifo_fill_step)

lemma quiet_ones [quiets]: "k \<le> 16 \<Longrightarrow> quiet (fifo_from_or_ones n k data)"
  by (simp add: quiet_def fifo_from_or_ones_step)

lemma quiet_pixels [quiets]: "k \<le> 16 \<Longrightarrow> quiet (pixels_from n msb l k (Some a))"
  by (simp add: quiet_def pixels_from_step)

lemma quiet_to [quiets]: "k \<le> 16 \<Longrightarrow> quiet (fifo_to n k (Some a))"
  by (simp add: quiet_def fifo_to_step)

lemma quiet_store [quiets]: "quiet (\<lambda>s. Inr (store (a s) (bs s) s))"
  by (simp add: quiet_def)

lemma quiet_wait:
  assumes "controller_ok E xact"
  shows "quiet (wait_usr E n)"
proof -
  have "\<exists>t. wait_usr E n s = Inr t \<and> (\<forall>k. lock_at t k = lock_at s k)" for s
  proof (cases "bit (cmd (dev_at s n)) (b_usr (layout E))")
    case True
    then show ?thesis using wait_usr_step [OF assms] by auto
  next
    case False
    then show ?thesis by (simp add: wait_usr_def usr_wait_unfold)
  qed
  then show ?thesis by (simp add: quiet_def)
qed

lemma quiet_point: "(\<And>s. \<exists>d. quiet d \<and> c s = d s) \<Longrightarrow> quiet c"
  unfolding quiet_def by metis

interpretation quiets: transfer_class quiet E n xact for E n xact
  by unfold_locales (auto intro: quiet_bind quiet_point quiets quiet_wait)

lemmas quiet_bytes_loop = quiets.good_bytes_loop
lemmas quiet_bits = quiets.good_bits
lemmas quiet_exchanges = quiets.good_exchanges
lemmas burst_quiet = quiets.burst_good

text \<open>A locked sequence of such statements returns from a free bus and leaves every mutex as it was.\<close>

interpretation bus_locks: lock_interface "mutex_lock n" "mutex_unlock n"
    "\<lambda>s. (\<lambda>k. lock_at s k) = L(n := Some False)" "\<lambda>s. (\<lambda>k. lock_at s k) = L(n := Some True)" for n L
proof unfold_locales
  fix s :: "'a spi_state"
  assume "(\<lambda>k. lock_at s k) = L(n := Some False)"
  then have "lock_at s k = (L(n := Some False)) k" for k by metis
  then show "\<exists>t. mutex_lock n s = Inr t \<and> (\<lambda>k. lock_at t k) = L(n := Some True)"
    by (auto simp: mutex_lock_def fun_eq_iff)
next
  fix s :: "'a spi_state"
  assume "(\<lambda>k. lock_at s k) = L(n := Some True)"
  then have "lock_at s k = (L(n := Some True)) k" for k by metis
  then show "\<exists>e. mutex_lock n s = Inl e" "\<exists>t. mutex_unlock n s = Inr t \<and> (\<lambda>k. lock_at t k) = L(n := Some False)"
    by (auto simp: mutex_lock_def mutex_unlock_def fun_eq_iff)
qed

definition clean :: "nat \<Rightarrow> (spi_fault, 'h spi_state) step \<Rightarrow> bool" where
  "clean n c \<longleftrightarrow> (\<forall>s. lock_at s n = Some False \<longrightarrow> (\<exists>t. c s = Inr t \<and> (\<forall>k. lock_at t k = lock_at s k)))"

lemma locked_clean:
  assumes "\<And>c. c \<in> set cs \<Longrightarrow> quiet c"
  shows "clean n (locked n cs)"
proof -
  have "\<exists>t. locked n cs s = Inr t \<and> (\<forall>k. lock_at t k = lock_at s k)" if "lock_at s n = Some False" for s
  proof -
    define L where "L = (\<lambda>k. lock_at s k)"
    have "(\<lambda>k. lock_at s k) = L(n := Some False)" using that by (auto simp: L_def)
    moreover have "\<exists>t. c s = Inr t \<and> (\<lambda>k. lock_at t k) = L(n := Some True)"
      if "c \<in> set cs" "(\<lambda>k. lock_at s k) = L(n := Some True)" for c s
    proof -
      have "quiet c" by (rule assms [OF that(1)])
      then obtain t where "c s = Inr t" "\<forall>k. lock_at t k = lock_at s k"
        unfolding quiet_def by blast
      with that(2) show ?thesis by simp
    qed
    ultimately have "\<exists>t. locked n cs s = Inr t \<and> (\<lambda>k. lock_at t k) = L(n := Some False)"
      unfolding locked_def by (intro bus_locks.bracket_returns) auto
    moreover have "L(n := Some False) = L" using that by (auto simp: L_def)
    ultimately show ?thesis by (metis L_def)
  qed
  then show ?thesis by (simp add: clean_def)
qed

lemma quiet_clean: "quiet c \<Longrightarrow> clean n c"
  by (auto simp: quiet_def clean_def)

lemma clean_exec:
  assumes "\<And>c. c \<in> set cs \<Longrightarrow> clean n c" and "lock_at s n = Some False"
  shows "\<exists>t. exec cs s = Inr t \<and> (\<forall>k. lock_at t k = lock_at s k)"
  using assms
proof (induction cs arbitrary: s)
  case Nil
  then show ?case by simp
next
  case (Cons c cs)
  have "clean n c" by (rule Cons.prems(1)) simp
  then obtain u where u: "c s = Inr u" "\<forall>k. lock_at u k = lock_at s k"
    using Cons.prems(2) by (auto simp: clean_def)
  then show ?case using Cons.IH [of u] Cons.prems by auto
qed


section \<open>Every call\<close>

lemma quiet_at: "quiet f \<Longrightarrow> \<exists>t. f s = Inr t \<and> (\<forall>k. lock_at t k = lock_at s k)"
  by (simp add: quiet_def)

lemma void_with_lock: "void (with_lock n f) = locked n [void f]"
proof
  fix s
  show "void (with_lock n f) s = locked n [void f] s"
    by (simp add: void_def with_lock_def locked_eq bindr_assoc)
      (auto intro!: bindr_cong simp: split_def bindr_def split: sum.split)
qed


lemma spiWrite_eq: "spiWrite E (Some n) data len = locked n
    ([set_mosi_dlen E n (ucast (min len 16) * 32 - 1), set_miso_dlen E n 0,
      fifo_from n (unat (min len 16)) data] @ run_usr E n)"
  by (simp add: spiWrite_def Let_def min_def linorder_not_less [symmetric])

lemma spiTransfer_eq: "spiTransfer E (Some n) data len = locked n
    ([set_mosi_dlen E n (ucast (min len 16) * 32 - 1), set_miso_dlen E n (ucast (min len 16) * 32 - 1),
      fifo_from n (unat (min len 16)) data] @ run_usr E n @ [fifo_to n (unat (min len 16)) data])"
  by (simp add: spiTransfer_def Let_def min_def linorder_not_less [symmetric])

lemma unat_min_16: "unat (min len (16 :: 8 word)) \<le> 16"
  by (simp add: min_def word_le_nat_alt)


lemma clean_write:
  assumes "controller_ok E xact"
  shows "clean n (spiWrite E (Some n) (Some a) len)" "clean n (spiTransfer E (Some n) (Some a) len)"
  unfolding spiWrite_eq spiTransfer_eq run_usr_def
  by (rule locked_clean, auto intro: quiets quiet_wait [OF assms] simp: unat_min_16)+

lemma clean_locked_step: "quiet c \<Longrightarrow> clean n (locked n [c])"
  by (rule locked_clean) simp

lemma clean_words:
  assumes "controller_ok E xact"
  shows "clean n (spiWriteByte E (Some n) b)" "clean n (spiWriteWord E (Some n) d)"
    "clean n (spiWriteLong E (Some n) w)"
  using clean_locked_step [OF quiets.good_words(1) [OF assms]] clean_locked_step [OF quiets.good_words(2) [OF assms]]
    clean_locked_step [OF quiets.good_words(3) [OF assms]]
  by (simp_all add: clean_def spiWriteWord_NL spiWriteLong_NL spiWriteByte_def spiWriteByteNL_def
      locked_single [symmetric])

lemma spiAttachSS_shape:
  obtains cs ds m where "spiAttachSS E (Some n) c p =
    (if 2 < c then Inr else exec [emit cs, emit ds, spiEnableSSPins (Some n) m])"
  unfolding spiAttachSS_def option.case Let_def by blast

lemma clean_attach: "clean n (exec [emit cs, emit ds, spiEnableSSPins (Some n) m])"
proof -
  have "clean n (spiEnableSSPins (Some n) m)"
    unfolding spiEnableSSPins_def option.case by (rule locked_clean) (auto intro: quiets)
  then have "clean n c" if "c \<in> set [emit cs, emit ds, spiEnableSSPins (Some n) m]" for c
    using that by (auto intro: quiet_clean quiets)
  then show ?thesis
    unfolding clean_def [of n "exec _"] by (intro allI impI clean_exec)
qed

lemma bus_clean:
  assumes "controller_ok E xact" and "bus_buffers op"
  shows "clean n (bus_step E (Some n) op)"
proof (cases op)
  case (AttachSS c p)
  obtain cs ds m where "spiAttachSS E (Some n) c p =
      (if 2 < c then Inr else exec [emit cs, emit ds, spiEnableSSPins (Some n) m])"
    by (rule spiAttachSS_shape)
  then show ?thesis
    by (cases "2 < c") (simp_all only: AttachSS bus_step.simps if_True if_False clean_attach quiet_clean quiet_Inr)
next
  case (Write data len)
  then show ?thesis using clean_write(1) [OF assms(1)] assms(2) by auto
next
  case (Transfer data len)
  then show ?thesis using clean_write(2) [OF assms(1)] assms(2) by auto
next
  case (TransferByte b)
  have "spiTransferByte E (Some n) b = with_lock n (spiTransferByteNL E (Some n) b)"
    by (rule ext) (rule spiTransferByte_NL)
  then show ?thesis
    using clean_locked_step [OF quiet_exchanges(1) [OF assms(1)]] by (simp add: TransferByte void_with_lock)
next
  case (TransferWord d)
  have "spiTransferWord E (Some n) d = with_lock n (spiTransferShortNL E (Some n) d)"
    by (rule ext) (rule spiTransferWord_NL)
  then show ?thesis
    using clean_locked_step [OF quiet_exchanges(2) [OF assms(1)]] by (simp add: TransferWord void_with_lock)
next
  case (TransferLong w)
  have "spiTransferLong E (Some n) w = with_lock n (spiTransferLongNL E (Some n) w)"
    by (rule ext) (rule spiTransferLong_NL)
  then show ?thesis
    using clean_locked_step [OF quiet_exchanges(3) [OF assms(1)]] by (simp add: TransferLong void_with_lock)
next
  case (TransferBytes data out sz)
  then show ?thesis
    using clean_locked_step [OF quiet_bytes_loop [OF assms(1)]] by (simp add: spiTransferBytes_def)
next
  case (TransferBits data out bits)
  then show ?thesis
    using clean_locked_step [OF quiet_bits [OF assms(1)]] by (simp add: spiTransferBits_def)
next
  case WaitReady
  then show ?thesis using quiet_clean [OF quiet_wait [OF assms(1)]] by (simp add: spiWaitReady_def)
next
  case (AttachMISO p)
  then show ?thesis by (auto simp: spiAttachMISO_def Let_def intro!: locked_clean intro: quiets)
next
  case (SetDataMode m)
  then show ?thesis
    by (auto simp: spiSetDataMode_def mode_switch_regs intro!: locked_clean intro: quiets)
next
  case (SetBitOrder b)
  then show ?thesis
    by (auto simp: spiSetBitOrder_def order_switch_regs intro!: locked_clean intro: quiets)
qed (use clean_words [OF assms(1)] in
  \<open>auto simp: spiAttachSCK_def spiAttachMOSI_def spiDetachSCK_def spiDetachMISO_def spiDetachMOSI_def
      spiDetachSS_def spiEnableSSPins_def spiDisableSSPins_def spiSSEnable_def spiSSDisable_def
      spiSSSet_def spiSSClear_def spiSetClockDiv_def spiStopBus_def Let_def
      simp del: exec.simps intro!: locked_clean quiet_clean [OF quiet_exec] intro: quiets\<close>)

lemma mutex_lock_blocks: "lock_at s n = Some True \<Longrightarrow> mutex_lock n s = Inl MutexDeadlock"
  by (simp add: mutex_lock_def)

lemma with_lock_blocks: "lock_at s n = Some True \<Longrightarrow> with_lock n f s = Inl MutexDeadlock"
  by (simp add: with_lock_def mutex_lock_blocks)

lemma takes_mutex_blocks:
  assumes "lock_at s n = Some True" and "takes_mutex op"
  shows "bus_step E (Some n) op s = Inl MutexDeadlock"
proof (cases "\<exists>c p. op = AttachSS c p")
  case True
  then obtain c p where op: "op = AttachSS c p" by blast
  obtain cs ds m where "spiAttachSS E (Some n) c p =
      (if 2 < c then Inr else exec [emit cs, emit ds, spiEnableSSPins (Some n) m])"
    by (rule spiAttachSS_shape)
  with op assms show ?thesis
    by (simp add: emit_def spiEnableSSPins_def locked_blocks linorder_not_less [symmetric])
next
  case False
  with assms(2) show ?thesis
    by (cases op)
      (simp_all add: spiAttachMISO_def spiEnableSSPins_def spiDisableSSPins_def
        spiSSEnable_def spiSSDisable_def spiSSSet_def spiSSClear_def spiSetClockDiv_def
        spiSetDataMode_def spiSetBitOrder_def spiStopBus_def spiWrite_def spiTransfer_def
        spiWriteByte_def spiWriteWord_NL spiWriteLong_NL spiTransferByte_NL spiTransferWord_NL
        spiTransferLong_NL spiTransferBytes_def spiTransferBits_def Let_def void_def
        locked_blocks [OF assms(1)] with_lock_blocks [OF assms(1)])
qed

section \<open>The protocol\<close>

text \<open>Property C2. No sequence of the driver's calls outside a transaction gets stuck: on a bus whose mutex exists and is
  free, with a controller that finishes its transactions and non-NULL buffers where the code needs
  them, every sequence of calls with any arguments returns, and every mutex is as it was before.\<close>

theorem calls_never_stuck:
  assumes "controller_ok E xact" and "\<forall>op \<in> set ops. bus_buffers op" and "lock_at s n = Some False"
  shows "\<exists>t. exec (map (bus_step E (Some n)) ops) s = Inr t \<and> (\<forall>k. lock_at t k = lock_at s k)"
  using assms by (intro clean_exec) (auto intro: bus_clean)

lemma calls_never_stuck_witness:
  "\<exists>t. exec (map (bus_step demo_env (Some 2)) [SetDataMode 1, Write (Some 0) 200, TransferLong 7, AttachSS 1 5,
        TransferBits 5 None 3, StopBus]) (demo_state (Some False) (\<lambda>_. 0)) = Inr t \<and> lock_at t 2 = Some False"
  using calls_never_stuck [OF demo_controller_ok, where s = "demo_state (Some False) (\<lambda>_. 0)" and n = 2
      and ops = "[SetDataMode 1, Write (Some 0) 200, TransferLong 7, AttachSS 1 5, TransferBits 5 None 3, StopBus]"]
  by (auto simp del: exec.simps list.map)

text \<open>Property C3. A transaction brackets any sequence of the lock-free calls: \<open>spiTransaction\<close>, the calls and
  \<open>spiEndTransaction\<close> return with the mutex free again, and after every prefix of the calls the
  mutex is held, so that a call that takes the mutex would wait for ever there.\<close>

theorem transaction_brackets:
  assumes "controller_ok E xact" and "\<forall>op \<in> set (ops @ ops'). burst_buffers op"
    and "lock_at s n = Some False"
  shows "\<exists>t u. exec (spiTransaction E (Some n) c m b # map (burst_step E (Some n)) ops) s = Inr t
    \<and> lock_at t n = Some True
    \<and> (\<forall>op. takes_mutex op \<longrightarrow> bus_step E (Some n) op t = Inl MutexDeadlock)
    \<and> exec (map (burst_step E (Some n)) ops' @ [spiEndTransaction (Some n)]) t = Inr u
    \<and> lock_at u n = Some False"
proof -
  let ?step = "burst_step E (Some n)"
  obtain s1 where s1: "spiTransaction E (Some n) c m b s = Inr s1" "lock_at s1 n = Some True"
    using spiTransaction_eq [OF assms(3)] by auto
  have q: "quiet (exec (map ?step os))" if "set os \<subseteq> set (ops @ ops')" for os
    using that assms(2) by (intro quiet_exec) (auto intro: burst_quiet [OF assms(1)])
  obtain t where t: "exec (map ?step ops) s1 = Inr t" "lock_at t n = Some True"
    using quiet_at [OF q [of ops], of s1] s1(2) by auto
  obtain v where v: "exec (map ?step ops') t = Inr v" "lock_at v n = Some True"
    using quiet_at [OF q [of ops'], of t] t(2) by auto
  have "bus_step E (Some n) op t = Inl MutexDeadlock" if "takes_mutex op" for op
    using takes_mutex_blocks [OF t(2) that] .
  then show ?thesis
    using s1 t v by (simp add: exec_append spiEndTransaction_def mutex_unlock_held)
qed


lemma transaction_brackets_witness:
  "\<exists>t u. exec (spiTransaction demo_env (Some 2) 5 SPI_MODE1 SPI_MSBFIRST #
        map (burst_step demo_env (Some 2)) [WriteByteNL 1, WriteNL (Some 0) 70])
        (demo_state (Some False) (\<lambda>_. 0)) = Inr t
    \<and> bus_step demo_env (Some 2) (WriteByte 1) t = Inl MutexDeadlock
    \<and> exec (map (burst_step demo_env (Some 2)) [TransferLongNL 9] @ [spiEndTransaction (Some 2)]) t = Inr u
    \<and> lock_at u 2 = Some False"
proof -
  have "\<forall>op \<in> set ([WriteByteNL 1, WriteNL (Some 0) 70] @ [TransferLongNL 9]). burst_buffers op" by simp
  moreover have "lock_at (demo_state (Some False) (\<lambda>_. 0)) 2 = Some False" by simp
  ultimately have "\<exists>t u. exec (spiTransaction demo_env (Some 2) 5 SPI_MODE1 SPI_MSBFIRST #
        map (burst_step demo_env (Some 2)) [WriteByteNL 1, WriteNL (Some 0) 70])
        (demo_state (Some False) (\<lambda>_. 0)) = Inr t
    \<and> lock_at t 2 = Some True
    \<and> (\<forall>op. takes_mutex op \<longrightarrow> bus_step demo_env (Some 2) op t = Inl MutexDeadlock)
    \<and> exec (map (burst_step demo_env (Some 2)) [TransferLongNL 9] @ [spiEndTransaction (Some 2)]) t = Inr u
    \<and> lock_at u 2 = Some False"
    by (rule transaction_brackets [OF demo_controller_ok])
  moreover have "takes_mutex (WriteByte 1)" by simp
  ultimately show ?thesis by blast
qed

text \<open>What a call made with a NULL bus does: nothing, except that the two burst writes dereference it.\<close>

fun null_burst :: "burst_op \<Rightarrow> 'h spi_state \<Rightarrow> spi_fault + 'h spi_state" where
  "null_burst (WriteNL data len) s = (if len = 0 then Inr s else Inl NullBus)"
| "null_burst (WritePixelsNL data len) s = Inl NullBus"
| "null_burst op s = Inr s"

text \<open>A NULL bus: every call outside a transaction and the transaction calls do nothing, and so do the
  lock-free calls except \<open>spiWriteNL\<close> and \<open>spiWritePixelsNL\<close>, which dereference the pointer.\<close>

lemma null_bus:
  "bus_step E None op s = Inr s
   \<and> spiTransaction E None c m b s = Inr s \<and> spiSimpleTransaction None s = Inr s
   \<and> spiEndTransaction None s = Inr s
   \<and> burst_step E None op' s = null_burst op' s"
proof -
  have "bus_step E None op s = Inr s"
    by (cases op)
      (simp_all add: spiAttachSCK_def spiAttachMISO_def spiAttachMOSI_def spiDetachSCK_def
        spiDetachMISO_def spiDetachMOSI_def spiAttachSS_def spiDetachSS_def spiEnableSSPins_def
        spiDisableSSPins_def spiSSEnable_def spiSSDisable_def spiSSSet_def spiSSClear_def
        spiSetClockDiv_def spiSetDataMode_def spiSetBitOrder_def spiStopBus_def spiWaitReady_def
        spiWrite_def spiTransfer_def spiWriteByte_def spiWriteWord_def spiWriteLong_def
        spiTransferByte_def spiTransferWord_def spiTransferLong_def spiTransferBytes_def
        spiTransferBits_def void_def)
  moreover have "burst_step E None op' s = null_burst op' s"
    by (cases op')
      (simp_all add: spiWriteByteNL_def spiWriteShortNL_def spiWriteLongNL_def spiTransferByteNL_def
        spiTransferShortNL_def spiTransferLongNL_def spiWriteNL_def spiWritePixelsNL_def
        spiTransferBytesNL_def spiTransferBitsNL_def void_def)
  ultimately show ?thesis
    by (simp add: spiTransaction_def spiSimpleTransaction_def spiEndTransaction_def)
qed

end
