(* ===== verification/Spi_Clock.thy ===== *)
theory Spi_Clock
  imports Prelude
begin

text \<open>
  The clock calculators of \<^verbatim>\<open>esp32/esp32spi.c\<close>: the contents of the clock register as the union
  \<open>spiClk_t\<close>, the frequency a register value stands for, and the search for the register value of
  the highest frequency not above the requested one.  \<open>CPU_CLK_FREQ\<close> and \<open>SPI_CLK_EQU_SYSCLK\<close> come
  from the SDK and are parameters (documented: 80 MHz and bit 31).  C's \<open>int\<close> is \<open>int\<close> with the
  conversion to 32 bits written out.
\<close>

section \<open>The clock register\<close>

record spiClk_t =
  regL :: int
  regH :: int
  regN :: int
  regPre :: int
  regEQU :: int

record clk_sdk =
  CPU_CLK_FREQ :: int
  SPI_CLK_EQU_SYSCLK :: "32 word"

definition zeroClk :: spiClk_t where
  "zeroClk = \<lparr>regL = 0, regH = 0, regN = 0, regPre = 0, regEQU = 0\<rparr>"

definition regValue :: "spiClk_t \<Rightarrow> 32 word" where
  "regValue r = word_of_int (regL r + 2 ^ 6 * regH r + 2 ^ 12 * regN r + 2 ^ 18 * regPre r + 2 ^ 31 * regEQU r)"

definition clk_of :: "32 word \<Rightarrow> spiClk_t" where
  "clk_of w = (let v = uint w in
     \<lparr>regL = v mod 2 ^ 6, regH = v div 2 ^ 6 mod 2 ^ 6, regN = v div 2 ^ 12 mod 2 ^ 6,
      regPre = v div 2 ^ 18 mod 2 ^ 13, regEQU = v div 2 ^ 31\<rparr>)"

definition ClkRegToFreq :: "clk_sdk \<Rightarrow> spiClk_t \<Rightarrow> int" where
  "ClkRegToFreq K r = CPU_CLK_FREQ K div ((regPre r + 1) * (regN r + 1))"

definition spiClockDivToFrequency :: "clk_sdk \<Rightarrow> 32 word \<Rightarrow> 32 word" where
  "spiClockDivToFrequency K clockDiv = word_of_int (ClkRegToFreq K (clk_of clockDiv))"

section \<open>The search\<close>

definition int32 :: "int \<Rightarrow> int" where
  \<comment> \<open>conversion of an \<open>unsigned\<close> or \<open>int\<close> expression to \<open>int32_t\<close>\<close>
  "int32 x = (x + 2 ^ 31) mod 2 ^ 32 - 2 ^ 31"

definition calPre :: "clk_sdk \<Rightarrow> int \<Rightarrow> int \<Rightarrow> int \<Rightarrow> int" where
  "calPre K freq calN calPreVari = int32 ((CPU_CLK_FREQ K div (calN + 1)) div freq - 1 + calPreVari)"

definition candidate :: "clk_sdk \<Rightarrow> int \<Rightarrow> int \<Rightarrow> int \<Rightarrow> spiClk_t" where
  "candidate K freq calN calPreVari =
     (let pre = calPre K freq calN calPreVari
      in zeroClk\<lparr>regN := calN,
           regPre := (if pre > 0x1FFF then 0x1FFF else if pre \<le> 0 then 0 else pre),
           regL := (calN + 1) div 2\<rparr>)"

text \<open>\<^verbatim>\<open>while(calPreVari++ <= 1)\<close>: the result is the last \<open>calFreq\<close>, \<open>bestReg\<close> and \<open>bestFreq\<close>.\<close>

function pre_loop ::
  "clk_sdk \<Rightarrow> int \<Rightarrow> int \<Rightarrow> int \<Rightarrow> int \<Rightarrow> spiClk_t \<Rightarrow> int \<Rightarrow> int \<times> spiClk_t \<times> int" where
  "pre_loop K freq calN calPreVari calFreq bestReg bestFreq =
     (if calPreVari \<le> 1 then
        let calPreVari = calPreVari + 1;
            reg = candidate K freq calN calPreVari;
            calFreq = ClkRegToFreq K reg
        in if calFreq = freq then (calFreq, reg, bestFreq)
           else if calFreq < freq \<and> \<bar>int32 (freq - calFreq)\<bar> < \<bar>int32 (freq - bestFreq)\<bar> then
             pre_loop K freq calN calPreVari calFreq reg calFreq
           else pre_loop K freq calN calPreVari calFreq bestReg bestFreq
      else (calFreq, bestReg, bestFreq))"
  by pat_completeness auto
termination
  by (relation "measure (\<lambda>(K, freq, calN, calPreVari, calFreq, bestReg, bestFreq). nat (2 - calPreVari))") auto

function n_loop :: "clk_sdk \<Rightarrow> int \<Rightarrow> int \<Rightarrow> spiClk_t \<Rightarrow> int \<Rightarrow> spiClk_t" where
  "n_loop K freq calN bestReg bestFreq =
     (if calN \<le> 0x3F then
        case pre_loop K freq calN (-2) 0 bestReg bestFreq of
          (calFreq, bestReg, bestFreq) \<Rightarrow>
            if calFreq = freq then bestReg else n_loop K freq (calN + 1) bestReg bestFreq
      else bestReg)"
  by pat_completeness auto
termination
  by (relation "measure (\<lambda>(K, freq, calN, bestReg, bestFreq). nat (64 - calN))") auto

declare pre_loop.simps [simp del] n_loop.simps [simp del]

definition minFreqReg :: "32 word" where "minFreqReg = 0x7FFFF000"

definition spiFrequencyToClockDiv :: "clk_sdk \<Rightarrow> 32 word \<Rightarrow> 32 word" where
  "spiFrequencyToClockDiv K freq =
     (if uint freq \<ge> CPU_CLK_FREQ K then SPI_CLK_EQU_SYSCLK K
      else if uint freq < ClkRegToFreq K (clk_of minFreqReg) then minFreqReg
      else regValue (n_loop K (uint freq) 1 zeroClk 0))"

section \<open>Lemmas\<close>

lemma int32_id: "-(2 ^ 31) \<le> x \<Longrightarrow> x < 2 ^ 31 \<Longrightarrow> int32 x = x"
  by (simp add: int32_def)

text \<open>Register values with all fields in range, as the search builds them.\<close>

definition clk_ok :: "spiClk_t \<Rightarrow> bool" where
  "clk_ok r \<longleftrightarrow> 0 \<le> regL r \<and> regL r < 64 \<and> regH r = 0 \<and> 0 \<le> regN r \<and> regN r \<le> 0x3F
     \<and> 0 \<le> regPre r \<and> regPre r \<le> 0x1FFF \<and> regEQU r = 0"

lemma low_field: "0 \<le> a \<Longrightarrow> a < m \<Longrightarrow> (a + m * b) mod m = a \<and> (a + m * b) div m = b" for a b m :: int
  by simp

lemma clk_of_regValue: "clk_ok r \<Longrightarrow> clk_of (regValue r) = r"
proof -
  assume ok: "clk_ok r"
  let ?v = "regL r + 2 ^ 12 * regN r + 2 ^ 18 * regPre r"
  have b: "0 \<le> ?v" "?v < 2 ^ 31"
    using ok by (auto simp: clk_ok_def)
  have "regValue r = word_of_int ?v"
    unfolding regValue_def by (rule arg_cong [where f = word_of_int]) (use ok in \<open>simp add: clk_ok_def\<close>)
  then have "uint (regValue r) = ?v mod 2 ^ LENGTH(32)"
    by (simp only: uint_word_of_int)
  with b have v: "uint (regValue r) = ?v" by simp
  have r: "0 \<le> regL r" "regL r < 64" "0 \<le> regN r" "regN r < 64" "0 \<le> regPre r" "regPre r < 2 ^ 13"
    using ok by (simp_all add: clk_ok_def)
  have "?v = regL r + 2 ^ 6 * (2 ^ 6 * (regN r + 2 ^ 6 * regPre r))" by simp
  then have f1: "?v mod 2 ^ 6 = regL r" "?v div 2 ^ 6 mod 2 ^ 6 = 0"
    using r low_field [of "regL r" "2 ^ 6" "2 ^ 6 * (regN r + 2 ^ 6 * regPre r)"]
    by (simp_all add: add.assoc)
  have "?v = regL r + 2 ^ 12 * (regN r + 2 ^ 6 * regPre r)" by simp
  then have f2: "?v div 2 ^ 12 mod 2 ^ 6 = regN r"
    using r low_field [of "regL r" "2 ^ 12" "regN r + 2 ^ 6 * regPre r"]
      low_field [of "regN r" "2 ^ 6" "regPre r"] by (simp add: add.assoc)
  have "?v = (regL r + 2 ^ 12 * regN r) + 2 ^ 18 * regPre r" by simp
  then have f3: "?v div 2 ^ 18 mod 2 ^ 13 = regPre r"
    using r low_field [of "regL r + 2 ^ 12 * regN r" "2 ^ 18" "regPre r"] by (simp add: add.assoc)
  have f4: "?v div 2 ^ 31 = 0" using b by simp
  show ?thesis
    unfolding clk_of_def v Let_def f1 f2 f3 f4 using ok by (simp add: clk_ok_def)
qed

text \<open>The frequency of divider values \<open>n\<close> and \<open>pre\<close>, as a division of the frequency after the first divider.\<close>

abbreviation clk_freq :: "clk_sdk \<Rightarrow> int \<Rightarrow> int \<Rightarrow> int" where
  "clk_freq K n pre \<equiv> CPU_CLK_FREQ K div ((pre + 1) * (n + 1))"

lemma clk_freq_split: "0 \<le> pre \<Longrightarrow> clk_freq K n pre = CPU_CLK_FREQ K div (n + 1) div (pre + 1)"
  by (simp add: zdiv_zmult2_eq mult.commute [of "pre + 1"])

definition clamp :: "int \<Rightarrow> int" where "clamp d = max 1 (min 0x2000 d)"

lemma div_antimono: "0 \<le> m \<Longrightarrow> 0 < d \<Longrightarrow> d \<le> e \<Longrightarrow> m div e \<le> m div d" for m :: int
  by (rule zdiv_mono2)

text \<open>The best second divider for a first one is \<open>m div f\<close> or \<open>m div f + 1\<close>, both of which the search
  tries, unless they leave the field.\<close>

lemma best_divider:
  fixes m f d :: int
  assumes "0 \<le> m" and "0 < f" and "1 \<le> d" and "d \<le> 0x2000" and "m div d \<le> f"
    and "m div clamp (m div f) \<noteq> f"
  shows "m div d \<le> m div clamp (m div f + 1) \<and> m div clamp (m div f + 1) < f"
proof -
  let ?q = "m div f"
  have e: "f * ?q + m mod f = m" by simp
  have "f * (?q + 1) = f * ?q + f" by (simp add: distrib_left)
  with e have q: "f * ?q \<le> m" "m < f * (?q + 1)" "0 \<le> ?q"
    using assms(1,2) pos_mod_bound [of f m] pos_mod_sign [of f m]
    by (linarith, linarith, simp add: pos_imp_zdiv_nonneg_iff)
  have "?q + 1 \<le> d"
  proof (rule ccontr)
    assume "\<not> ?q + 1 \<le> d"
    then have dq: "d \<le> ?q" and "0 < ?q" using assms(3) by linarith+
    have "f = f * ?q div ?q" using \<open>0 < ?q\<close> by simp
    also have "\<dots> \<le> m div ?q" using q(1) \<open>0 < ?q\<close> by (rule zdiv_mono1)
    finally have "f \<le> m div ?q" .
    moreover have "m div ?q \<le> m div clamp ?q" "m div clamp ?q \<le> m div d"
      using dq assms(1,3,4) by (auto simp: clamp_def intro!: div_antimono)
    ultimately show False using assms(5,6) by linarith
  qed
  moreover from this have "clamp (?q + 1) = ?q + 1"
    using q(3) assms(4) by (simp add: clamp_def)
  moreover have "m div (?q + 1) < f"
  proof (rule ccontr)
    assume "\<not> m div (?q + 1) < f"
    then have "f * (?q + 1) \<le> m div (?q + 1) * (?q + 1)" using q(3) by (simp add: mult_right_mono)
    also have "\<dots> \<le> m"
    proof -
      have "(?q + 1) * (m div (?q + 1)) + m mod (?q + 1) = m" by (rule mult_div_mod_eq)
      moreover have "0 \<le> m mod (?q + 1)" using q(3) by (intro pos_mod_sign) simp
      ultimately show ?thesis by (simp only: mult.commute [of "m div _"])
    qed
    finally show False using q(2) by simp
  qed
  ultimately show ?thesis
    using div_antimono [OF assms(1), of "?q + 1" d] q(3) by simp
qed


section \<open>The two loops\<close>

text \<open>The values the search works with: at least \<open>2^19\<close> so that the largest divider leaves a frequency.\<close>

definition clk_sdk_ok :: "clk_sdk \<Rightarrow> bool" where
  "clk_sdk_ok K \<longleftrightarrow> 2 ^ 19 \<le> CPU_CLK_FREQ K \<and> CPU_CLK_FREQ K < 2 ^ 31"

lemma candidate_pre:
  assumes "clk_sdk_ok K" and "0 < f" and "1 \<le> n" and "-1 \<le> v" and "v \<le> 2"
  shows "regPre (candidate K f n v) + 1 = clamp (CPU_CLK_FREQ K div (n + 1) div f + v)"
proof -
  let ?m = "CPU_CLK_FREQ K div (n + 1)"
  have "?m \<le> CPU_CLK_FREQ K div 2" using assms(1,3) by (intro div_antimono) (simp_all add: clk_sdk_ok_def)
  moreover have "0 \<le> ?m" using assms(1,3) by (simp add: clk_sdk_ok_def pos_imp_zdiv_nonneg_iff)
  moreover have "?m div f \<le> ?m" using calculation assms(2) div_antimono [of ?m 1 f] by simp
  moreover have "0 \<le> ?m div f" using calculation assms(2) by (simp add: pos_imp_zdiv_nonneg_iff)
  moreover have "2 * (CPU_CLK_FREQ K div 2) \<le> CPU_CLK_FREQ K" by simp
  moreover have "CPU_CLK_FREQ K < 2 * 2 ^ 30" using assms(1) by (simp add: clk_sdk_ok_def)
  ultimately have "-(2 ^ 31) \<le> ?m div f - 1 + v" "?m div f - 1 + v < 2 ^ 31"
    using assms(4,5) by simp_all
  then have "int32 (?m div f - 1 + v) = ?m div f - 1 + v" by (rule int32_id)
  then show ?thesis
    by (simp add: candidate_def calPre_def Let_def clamp_def)
qed

lemma candidate_ok:
  assumes "1 \<le> n" and "n \<le> 0x3F"
  shows "clk_ok (candidate K f n v)" and "regN (candidate K f n v) = n"
  using assms by (simp_all add: candidate_def Let_def clk_ok_def zeroClk_def)

lemma candidate_freq:
  assumes "clk_sdk_ok K" and "0 < f" and "1 \<le> n" and "n \<le> 0x3F" and "-1 \<le> v" and "v \<le> 2"
  shows "ClkRegToFreq K (candidate K f n v) =
    CPU_CLK_FREQ K div (n + 1) div clamp (CPU_CLK_FREQ K div (n + 1) div f + v)"
proof -
  let ?r = "candidate K f n v"
  have "0 \<le> regPre ?r" using candidate_ok [OF assms(3,4)] by (simp add: clk_ok_def)
  then have "ClkRegToFreq K ?r = CPU_CLK_FREQ K div (n + 1) div (regPre ?r + 1)"
    by (simp add: ClkRegToFreq_def clk_freq_split candidate_ok(2) [OF assms(3,4)])
  then show ?thesis by (simp add: candidate_pre [OF assms(1-3,5,6)])
qed

text \<open>Outcome of the inner loop from \<open>calPreVari = v\<close>: an exact hit, or the better of the old value and
  the remaining candidates below the request.\<close>

lemma pre_loop_outcome:
  assumes "f < 2 ^ 31" and "\<And>u. 0 \<le> ClkRegToFreq K (candidate K f n u)"
    and "0 \<le> bf" and "bf < f" and "pre_loop K f n v cf0 best bf = (cf, best', bf')"
  shows "(v \<le> 1 \<and> cf = f \<and> (\<exists>u. best' = candidate K f n u \<and> ClkRegToFreq K best' = f))
    \<or> ((v \<le> 1 \<longrightarrow> cf \<noteq> f) \<and> bf \<le> bf' \<and> bf' < f
       \<and> (\<forall>u. v < u \<longrightarrow> u \<le> 2 \<longrightarrow> ClkRegToFreq K (candidate K f n u) \<noteq> f
            \<and> (ClkRegToFreq K (candidate K f n u) < f \<longrightarrow> ClkRegToFreq K (candidate K f n u) \<le> bf'))
       \<and> ((best' = best \<and> bf' = bf) \<or> (\<exists>u. best' = candidate K f n u \<and> ClkRegToFreq K best' = bf')))"
  using assms(3-5)
proof (induction "nat (2 - v)" arbitrary: v cf0 best bf)
  case 0
  then show ?case by (subst (asm) pre_loop.simps) auto
next
  case (Suc k)
  let ?r = "candidate K f n (v + 1)" and ?c = "ClkRegToFreq K (candidate K f n (v + 1))"
  have v: "v \<le> 1" and k: "k = nat (2 - (v + 1))" using Suc.hyps(2) by auto
  show ?case
  proof (cases "?c = f")
    case True
    then show ?thesis using v Suc.prems(3) by (subst (asm) pre_loop.simps) (auto simp: Let_def)
  next
    case False
    define upd where "upd = (?c < f \<and> bf < ?c)"
    have abs: "\<bar>int32 (f - ?c)\<bar> < \<bar>int32 (f - bf)\<bar> \<longleftrightarrow> bf < ?c" if "?c < f"
      using that assms(1) assms(2) [of "v + 1"] Suc.prems(1,2) by (simp add: int32_id)
    let ?best = "if upd then ?r else best" and ?bf = "if upd then ?c else bf"
    have run: "pre_loop K f n (v + 1) ?c ?best ?bf = (cf, best', bf')"
      using v False abs Suc.prems(3) by (subst (asm) pre_loop.simps) (auto simp: Let_def upd_def split: if_splits)
    have "0 \<le> ?bf" "?bf < f" using Suc.prems(1,2) assms(2) [of "v + 1"] by (auto simp: upd_def)
    note IH = Suc.hyps(1) [OF k this run]
    show ?thesis
    proof (cases "v + 1 \<le> 1 \<and> cf = f")
      case True
      then show ?thesis using IH v by auto
    next
      case no: False
      have cf: "cf \<noteq> f"
      proof (cases "v + 1 \<le> 1")
        case True
        then show ?thesis using no by simp
      next
        case last: False
        have "cf = ?c" using run last by (subst (asm) pre_loop.simps) auto
        then show ?thesis using False by simp
      qed
      with IH no have tail: "?bf \<le> bf'" "bf' < f"
        "\<forall>u. v + 1 < u \<longrightarrow> u \<le> 2 \<longrightarrow> ClkRegToFreq K (candidate K f n u) \<noteq> f
            \<and> (ClkRegToFreq K (candidate K f n u) < f \<longrightarrow> ClkRegToFreq K (candidate K f n u) \<le> bf')"
        "(best' = ?best \<and> bf' = ?bf) \<or> (\<exists>u. best' = candidate K f n u \<and> ClkRegToFreq K best' = bf')"
        by auto
      have "?c < f \<longrightarrow> ?c \<le> bf'" "bf \<le> bf'"
        using tail(1) by (auto simp: upd_def split: if_splits)
      moreover have "u = v + 1 \<or> v + 1 < u" if "v < u" for u using that by linarith
      moreover have "(best' = best \<and> bf' = bf) \<or> (\<exists>u. best' = candidate K f n u \<and> ClkRegToFreq K best' = bf')"
        using tail(4) by (auto split: if_splits)
      ultimately show ?thesis using cf False tail(2,3) by blast
    qed
  qed
qed


text \<open>All settings with a first divider below \<open>n\<close> that do not exceed the request are at most \<open>bf\<close>.\<close>

definition searched :: "clk_sdk \<Rightarrow> int \<Rightarrow> int \<Rightarrow> int \<Rightarrow> bool" where
  "searched K f n bf \<longleftrightarrow> (\<forall>k pre. 1 \<le> k \<longrightarrow> k < n \<longrightarrow> 0 \<le> pre \<longrightarrow> pre \<le> 0x1FFF \<longrightarrow>
     clk_freq K k pre \<le> f \<longrightarrow> clk_freq K k pre \<le> bf)"

definition holds_freq :: "clk_sdk \<Rightarrow> spiClk_t \<Rightarrow> int \<Rightarrow> bool" where
  "holds_freq K r g \<longleftrightarrow> clk_ok r \<and> 1 \<le> regN r \<and> ClkRegToFreq K r = g"

lemma searched_next:
  assumes ok: "clk_sdk_ok K" and f: "0 < f" and n: "1 \<le> n" "n \<le> 0x3F" and s: "searched K f n bf" "bf \<le> bf'"
    and none: "\<And>u. -2 < u \<Longrightarrow> u \<le> 2 \<Longrightarrow> ClkRegToFreq K (candidate K f n u) \<noteq> f
      \<and> (ClkRegToFreq K (candidate K f n u) < f \<longrightarrow> ClkRegToFreq K (candidate K f n u) \<le> bf')"
  shows "searched K f (n + 1) bf'"
  unfolding searched_def
proof (intro allI impI)
  fix k pre
  assume k: "1 \<le> k" "k < n + 1" and pre: "0 \<le> pre" "pre \<le> 0x1FFF" and le: "clk_freq K k pre \<le> f"
  show "clk_freq K k pre \<le> bf'"
  proof (cases "k < n")
    case True
    then show ?thesis using s k pre le by (fastforce simp: searched_def)
  next
    case False
    then have kn: "k = n" using k by simp
    let ?m = "CPU_CLK_FREQ K div (n + 1)"
    have m: "0 \<le> ?m" using ok n by (simp add: clk_sdk_ok_def pos_imp_zdiv_nonneg_iff)
    have c: "ClkRegToFreq K (candidate K f n v) = ?m div clamp (?m div f + v)" if "v = 0 \<or> v = 1" for v
      using candidate_freq [OF ok f n, of v] that by auto
    have "?m div (pre + 1) \<le> f" using le pre by (simp add: kn clk_freq_split)
    moreover have "?m div clamp (?m div f) \<noteq> f" using none [of 0] c [of 0] by simp
    ultimately have "?m div (pre + 1) \<le> ?m div clamp (?m div f + 1)" "?m div clamp (?m div f + 1) < f"
      using best_divider [OF m f, of "pre + 1"] pre by auto
    then show ?thesis using none [of 1] c [of 1] pre by (simp add: kn clk_freq_split)
  qed
qed

lemma n_loop_outcome:
  assumes ok: "clk_sdk_ok K" and f: "0 < f" "f < 2 ^ 31"
    and "1 \<le> n" and "n \<le> 64" and "0 \<le> bf" and "bf < f" and "bf = 0 \<or> holds_freq K best bf"
    and "searched K f n bf"
  shows "\<exists>g. 0 \<le> g \<and> g \<le> f \<and> searched K f 64 g \<and> (g = 0 \<or> holds_freq K (n_loop K f n best bf) g)"
  using assms(4-9)
proof (induction "nat (64 - n)" arbitrary: n best bf)
  case 0
  then have "n = 64" by simp
  with 0 show ?case by (subst n_loop.simps) (auto intro: exI [of _ bf])
next
  case (Suc k)
  have n: "1 \<le> n" "n \<le> 0x3F" and k: "k = nat (64 - (n + 1))" using Suc.hyps(2) Suc.prems(1) by auto
  obtain cf best' bf' where p: "pre_loop K f n (-2) 0 best bf = (cf, best', bf')"
    by (cases "pre_loop K f n (-2) 0 best bf") auto
  have nonneg: "0 \<le> ClkRegToFreq K (candidate K f n u)" for u
    using ok candidate_ok [OF n, of K f u]
    by (auto simp: clk_sdk_ok_def clk_ok_def ClkRegToFreq_def intro!: div_int_pos_iff [THEN iffD2])
  have loop: "n_loop K f n best bf = (if cf = f then best' else n_loop K f (n + 1) best' bf')"
    using n p by (subst n_loop.simps) simp
  let ?hit = "cf = f \<and> (\<exists>u. best' = candidate K f n u \<and> ClkRegToFreq K best' = f)"
  show ?case
  proof (cases ?hit)
    case True
    then show ?thesis
      using loop candidate_ok [OF n] n f(1) by (intro exI [of _ f]) (auto simp: holds_freq_def searched_def)
  next
    case False
    then have h: "cf \<noteq> f" "bf \<le> bf'" "bf' < f"
      and none: "\<forall>u. - 2 < u \<longrightarrow> u \<le> 2 \<longrightarrow> ClkRegToFreq K (candidate K f n u) \<noteq> f
            \<and> (ClkRegToFreq K (candidate K f n u) < f \<longrightarrow> ClkRegToFreq K (candidate K f n u) \<le> bf')"
      and best: "best' = best \<and> bf' = bf \<or> (\<exists>u. best' = candidate K f n u \<and> ClkRegToFreq K best' = bf')"
      using pre_loop_outcome [OF f(2) nonneg Suc.prems(3,4) p] by (simp_all, blast+)
    have "searched K f (n + 1) bf'"
      using searched_next [OF ok f(1) n Suc.prems(6) h(2)] none by blast
    moreover have "bf' = 0 \<or> holds_freq K best' bf'"
      using best Suc.prems(5) candidate_ok [OF n] n by (auto simp: holds_freq_def)
    ultimately have "\<exists>g. 0 \<le> g \<and> g \<le> f \<and> searched K f 64 g
        \<and> (g = 0 \<or> holds_freq K (n_loop K f (n + 1) best' bf') g)"
      using Suc.hyps(1) [OF k] n h Suc.prems(3) by auto
    then show ?thesis using loop h(1) by simp
  qed
qed


lemma clk_freq_div: "ClkRegToFreq K r = clk_freq K (regN r) (regPre r)"
  by (simp add: ClkRegToFreq_def)

lemma minFreq: "ClkRegToFreq K (clk_of minFreqReg) = clk_freq K 0x3F 0x1FFF"
  by (simp add: ClkRegToFreq_def clk_of_def minFreqReg_def)

lemma divToFrequency_regValue:
  assumes "holds_freq K r g" and "0 \<le> g" and "g < 2 ^ 31"
  shows "uint (spiClockDivToFrequency K (regValue r)) = g"
  using assms by (simp add: holds_freq_def spiClockDivToFrequency_def clk_of_regValue uint_word_of_int)

text \<open>The frequencies the search ranges over, and the frequency a request is answered with.\<close>

definition dividable :: "clk_sdk \<Rightarrow> int \<Rightarrow> bool" where
  "dividable K g \<longleftrightarrow> (\<exists>n pre. 1 \<le> n \<and> n \<le> 0x3F \<and> 0 \<le> pre \<and> pre \<le> 0x1FFF \<and> g = clk_freq K n pre)"

abbreviation granted :: "clk_sdk \<Rightarrow> 32 word \<Rightarrow> int" where
  "granted K freq \<equiv> uint (spiClockDivToFrequency K (spiFrequencyToClockDiv K freq))"

lemma dividableI: "1 \<le> n \<Longrightarrow> n \<le> 0x3F \<Longrightarrow> 0 \<le> pre \<Longrightarrow> pre \<le> 0x1FFF \<Longrightarrow> g = clk_freq K n pre \<Longrightarrow> dividable K g"
  unfolding dividable_def by blast

lemma dividable_least: "dividable K (clk_freq K 0x3F 0x1FFF)"
  by (rule dividableI [of "0x3F" "0x1FFF"]) simp_all

lemma least_pos: "clk_sdk_ok K \<Longrightarrow> 0 < clk_freq K 0x3F 0x1FFF"
proof -
  assume ok: "clk_sdk_ok K"
  have "(2 ^ 19 :: int) div 2 ^ 19 \<le> CPU_CLK_FREQ K div 2 ^ 19"
    by (rule zdiv_mono1) (use ok in \<open>simp_all add: clk_sdk_ok_def\<close>)
  then show ?thesis by simp
qed

lemma search_best:
  assumes ok: "clk_sdk_ok K" and "uint freq < CPU_CLK_FREQ K" and "clk_freq K 0x3F 0x1FFF \<le> uint freq"
  shows "granted K freq \<le> uint freq" "dividable K (granted K freq)"
    "dividable K g \<Longrightarrow> g \<le> uint freq \<Longrightarrow> g \<le> granted K freq"
proof -
  let ?f = "uint freq" and ?r = "n_loop K (uint freq) 1 zeroClk 0"
  note pos = least_pos [OF ok]
  then have f: "0 < ?f" "?f < 2 ^ 31" using assms by (auto simp: clk_sdk_ok_def)
  have "searched K ?f 1 0" by (simp add: searched_def)
  with n_loop_outcome [OF ok f, of 1 0 zeroClk] f
  obtain g where g: "0 \<le> g" "g \<le> ?f" "searched K ?f 64 g" "g = 0 \<or> holds_freq K ?r g"
    by auto
  have "clk_freq K 0x3F 0x1FFF \<le> g"
    using g(3) [unfolded searched_def, rule_format, of "0x3F" "0x1FFF"] assms(3) by simp
  with pos g(4) have h: "holds_freq K ?r g" by auto
  have "spiFrequencyToClockDiv K freq = regValue ?r"
    using assms(2,3) by (simp add: spiFrequencyToClockDiv_def minFreq)
  then have gr: "granted K freq = g"
    using divToFrequency_regValue [OF h g(1)] g(2) f(2) by simp
  show "granted K freq \<le> ?f" using gr g(2) by simp
  show "dividable K (granted K freq)"
    using h gr by (intro dividableI [of "regN ?r" "regPre ?r"]) (simp_all add: holds_freq_def clk_ok_def clk_freq_div)
  show "dividable K g' \<Longrightarrow> g' \<le> ?f \<Longrightarrow> g' \<le> granted K freq" for g'
    using g(3) gr by (auto simp: dividable_def searched_def)
qed

text \<open>Property C8. For a request between the lowest divided frequency and the source clock, the register value that
  \<open>spiFrequencyToClockDiv\<close> returns stands for the greatest frequency not above the request that any
  setting of the two dividers the search ranges over gives (first divider at least 2).\<close>

theorem clock_search_optimal:
  assumes "clk_sdk_ok K" and "uint freq < CPU_CLK_FREQ K" and "clk_freq K 0x3F 0x1FFF \<le> uint freq"
  shows "0 < granted K freq \<and> granted K freq \<le> uint freq \<and> dividable K (granted K freq)
    \<and> (\<forall>n pre. 1 \<le> n \<longrightarrow> n \<le> 0x3F \<longrightarrow> 0 \<le> pre \<longrightarrow> pre \<le> 0x1FFF \<longrightarrow> clk_freq K n pre \<le> uint freq \<longrightarrow>
          clk_freq K n pre \<le> granted K freq)"
proof -
  note best = search_best [OF assms]
  have "clk_freq K n pre \<le> granted K freq"
    if "1 \<le> n" "n \<le> 0x3F" "0 \<le> pre" "pre \<le> 0x1FFF" "clk_freq K n pre \<le> uint freq" for n pre
    using that by (intro best(3) dividableI [of n pre]) simp_all
  moreover have "0 < granted K freq"
    using least_pos [OF assms(1)] best(3) [OF dividable_least assms(3)] by linarith
  ultimately show ?thesis using best(1,2) by blast
qed

text \<open>The values of the ESP32.\<close>

definition esp32_clk :: clk_sdk where
  "esp32_clk = \<lparr>CPU_CLK_FREQ = 80000000, SPI_CLK_EQU_SYSCLK = 0x80000000\<rparr>"

lemma esp32_clk_ok: "clk_sdk_ok esp32_clk"
  by (simp add: clk_sdk_ok_def esp32_clk_def)

lemma clock_search_optimal_witness:
  "uint (spiClockDivToFrequency esp32_clk (spiFrequencyToClockDiv esp32_clk 1000000)) = 1000000"
proof -
  have "uint (1000000 :: 32 word) < CPU_CLK_FREQ esp32_clk"
    "clk_freq esp32_clk 0x3F 0x1FFF \<le> uint (1000000 :: 32 word)"
    by (simp_all add: esp32_clk_def)
  note opt = clock_search_optimal [OF esp32_clk_ok this]
  from opt [THEN conjunct2, THEN conjunct2, THEN conjunct2, rule_format, of 1 39]
  have "1000000 \<le> uint (spiClockDivToFrequency esp32_clk (spiFrequencyToClockDiv esp32_clk 1000000))"
    by (simp add: esp32_clk_def)
  with opt show ?thesis by simp
qed

text \<open>Requests outside that range saturate: from the source clock upwards the undivided clock is selected,
  which runs at the source frequency, and below the lowest divided frequency the register with both
  dividers at their maximum, which runs at that lowest frequency.\<close>

lemma clock_search_saturates:
  assumes "clk_sdk_ok K" and "clk_of (SPI_CLK_EQU_SYSCLK K) = zeroClk\<lparr>regEQU := 1\<rparr>"
  shows "(CPU_CLK_FREQ K \<le> uint freq \<longrightarrow>
      uint (spiClockDivToFrequency K (spiFrequencyToClockDiv K freq)) = CPU_CLK_FREQ K)
    \<and> (uint freq < clk_freq K 0x3F 0x1FFF \<longrightarrow>
      uint (spiClockDivToFrequency K (spiFrequencyToClockDiv K freq)) = clk_freq K 0x3F 0x1FFF)"
proof -
  have b: "0 \<le> CPU_CLK_FREQ K" "CPU_CLK_FREQ K < 2 ^ 31" using assms(1) by (simp_all add: clk_sdk_ok_def)
  have lo: "clk_freq K 0x3F 0x1FFF \<le> CPU_CLK_FREQ K" "0 \<le> clk_freq K 0x3F 0x1FFF"
    using b div_antimono [OF b(1), of 1 "2 ^ 19"] by (simp_all add: pos_imp_zdiv_nonneg_iff)
  then have "uint (spiClockDivToFrequency K minFreqReg) = clk_freq K 0x3F 0x1FFF"
    using b by (simp add: spiClockDivToFrequency_def minFreq uint_word_of_int)
  moreover have "uint (spiClockDivToFrequency K (SPI_CLK_EQU_SYSCLK K)) = CPU_CLK_FREQ K"
    using b by (simp add: spiClockDivToFrequency_def assms(2) ClkRegToFreq_def zeroClk_def uint_word_of_int)
  ultimately show ?thesis
    using lo(1) by (auto simp: spiFrequencyToClockDiv_def minFreq)
qed

text \<open>Property C9. Requests and grants over the whole range of 32-bit frequencies: a higher request is never granted a
  lower frequency, a request inside the range is never exceeded, and a granted frequency is stable:
  requesting it again grants exactly that frequency.\<close>

theorem clock_grants_stable:
  assumes "clk_sdk_ok K" and "clk_of (SPI_CLK_EQU_SYSCLK K) = zeroClk\<lparr>regEQU := 1\<rparr>" and "freq \<le> freq'"
  shows "granted K freq \<le> granted K freq'
    \<and> (clk_freq K 0x3F 0x1FFF \<le> uint freq \<longrightarrow> granted K freq \<le> uint freq)
    \<and> granted K (spiClockDivToFrequency K (spiFrequencyToClockDiv K freq)) = granted K freq"
proof -
  let ?lo = "clk_freq K 0x3F 0x1FFF" and ?hi = "CPU_CLK_FREQ K"
  note sat = clock_search_saturates [OF assms(1,2)] and best = search_best [OF assms(1)]
  have lohi: "?lo \<le> ?hi" using assms(1) div_antimono [of ?hi 1 "2 ^ 19"] by (simp add: clk_sdk_ok_def)
  have le: "uint freq \<le> uint freq'" using assms(3) by (simp add: word_le_def)
  have lo: "?lo \<le> granted K f" for f
    using sat [of f] lohi best(3) [OF _ _ dividable_least, of f] by fastforce
  have hi: "granted K f \<le> ?hi" for f
    using sat [of f] lohi best(1) [of f] by fastforce
  have mono: "granted K freq \<le> granted K freq'"
  proof (cases "?lo \<le> uint freq \<and> uint freq' < ?hi")
    case True
    then have "dividable K (granted K freq)" "granted K freq \<le> uint freq'"
      using best(1,2) [of freq] le by auto
    then show ?thesis using best(3) [of freq'] True le by simp
  next
    case False
    then show ?thesis using sat [of freq] sat [of freq'] lo [of freq'] hi [of freq] by auto
  qed
  have below: "granted K f \<le> uint f" if "?lo \<le> uint f" for f
    using sat [of f] best(1) [of f] that by fastforce
  have "granted K (spiClockDivToFrequency K (spiFrequencyToClockDiv K freq)) = granted K freq"
  proof (cases "granted K freq = ?hi")
    case True
    then show ?thesis using sat [of "spiClockDivToFrequency K (spiFrequencyToClockDiv K freq)"] by simp
  next
    case False
    then have in_range: "granted K freq < ?hi" using hi [of freq] by simp
    then have "dividable K (granted K freq)"
      using sat [of freq] best(2) [of freq] dividable_least [of K] by (cases "uint freq < ?lo"; cases "?hi \<le> uint freq") auto
    then have "granted K freq \<le> granted K (spiClockDivToFrequency K (spiFrequencyToClockDiv K freq))"
      using best(3) [OF in_range lo] by simp
    with below [OF lo [of freq]] show ?thesis by (rule antisym)
  qed
  with mono below show ?thesis by simp
qed

lemma clock_grants_stable_witness:
  "granted esp32_clk 999999 \<le> granted esp32_clk 1000000
   \<and> granted esp32_clk (spiClockDivToFrequency esp32_clk (spiFrequencyToClockDiv esp32_clk 999999)) = granted esp32_clk 999999"
proof -
  have "clk_of (SPI_CLK_EQU_SYSCLK esp32_clk) = zeroClk\<lparr>regEQU := 1\<rparr>"
    by (simp add: clk_of_def esp32_clk_def zeroClk_def)
  from clock_grants_stable [OF esp32_clk_ok this, of 999999 1000000] show ?thesis by simp
qed

end
