(* ===== verification/Spi_Bus.thy ===== *)
theory Spi_Bus
  imports Spi_Locks Spi_Clock
begin

text \<open>
  The class \<open>SpiBus\<close> (\<^verbatim>\<open>esp32/spibus.cpp\<close>) on top of the driver of \<^verbatim>\<open>esp32/esp32spi.c\<close>: it starts
  the bus, caches the clock divider, and frames every transfer by a chip-select pin.  The members
  kept by the base class of the core library are the pins; the chip-select pin of a message is a
  parameter.
\<close>

section \<open>Interface: a clock that can be set\<close>

text \<open>What the class relies on: setting a divider on a usable port succeeds, leaves the port usable and
  makes the divider the current one.\<close>

locale clock_port =
  fixes set_div :: "32 word \<Rightarrow> ('e, 's) step" and div_of :: "'s \<Rightarrow> 32 word" and usable :: "'s \<Rightarrow> bool"
  assumes set_div_ok: "usable s \<Longrightarrow> \<exists>t. set_div d s = Inr t \<and> div_of t = d \<and> usable t"
begin

text \<open>Skipping the write when the cached divider is the wanted one is safe when the cache is right.\<close>

lemma cached_set:
  assumes "usable s" and "div_of s = cache"
  shows "\<exists>t. (if cache = d then Inr s else set_div d s) = Inr t \<and> div_of t = d \<and> usable t"
  using set_div_ok [OF assms(1)] assms by auto

end

interpretation spi_clock: clock_port "spiSetClockDiv (Some n)" "spiGetClockDiv (Some n)"
    "\<lambda>s. lock_at s n = Some False" for n
  by unfold_locales (simp add: spiSetClockDiv_eq spiGetClockDiv_def)

section \<open>The class\<close>

record spi_object =
  o_frequency :: "32 word"
  o_num :: "8 word"
  o_div :: "32 word"
  o_spi :: spi_ptr
  o_clk :: "8 word"
  o_miso :: "8 word"
  o_mosi :: "8 word"

definition SpiBus_ctor ::
  "clk_sdk \<Rightarrow> 'h spi_env \<Rightarrow> 8 word \<Rightarrow> 8 word \<Rightarrow> 8 word \<Rightarrow> 8 word \<Rightarrow> 'h spi_state
     \<Rightarrow> spi_fault + (spi_object \<times> 'h spi_state)" where
  "SpiBus_ctor K E clk miso mosi num s =
     (let freq = 1000000; clkdiv = spiFrequencyToClockDiv K freq in
      bindr (spiStartBus E num clkdiv SPI_MODE0 SPI_MSBFIRST s) (\<lambda>(spi, s).
      bindr (exec [spiAttachSCK E spi clk, spiAttachMISO E spi miso, spiAttachMOSI E spi mosi] s)
        (\<lambda>s. Inr (\<lparr>o_frequency = freq, o_num = num, o_div = clkdiv, o_spi = spi,
                  o_clk = clk, o_miso = miso, o_mosi = mosi\<rparr>, s))))"

definition SpiBus_dtor :: "'h spi_env \<Rightarrow> spi_object \<Rightarrow> (spi_fault, 'h spi_state) step" where
  "SpiBus_dtor E this = exec [spiDetachMOSI E (o_spi this) (o_mosi this),
     spiDetachMISO E (o_spi this) (o_miso this), spiDetachSCK E (o_spi this) (o_clk this),
     spiStopBus E (o_spi this)]"

definition SpiBus_setFrequency ::
  "clk_sdk \<Rightarrow> 32 word \<Rightarrow> spi_object \<Rightarrow> 'h spi_state \<Rightarrow> spi_fault + (spi_object \<times> 'h spi_state)" where
  "SpiBus_setFrequency K freq this s =
     (let clkdiv = spiFrequencyToClockDiv K freq; this = this\<lparr>o_frequency := freq\<rparr> in
      if o_div this = clkdiv then Inr (this, s)
      else bindr (spiSetClockDiv (o_spi this) clkdiv s) (\<lambda>s. Inr (this\<lparr>o_div := clkdiv\<rparr>, s)))"

text \<open>\<open>cs v\<close> writes the chip-select pin of the message; the result is the returned \<open>true\<close>.\<close>

definition SpiBus_transfer ::
  "'h spi_env \<Rightarrow> (bool \<Rightarrow> (spi_fault, 'h spi_state) step) \<Rightarrow> ptr \<Rightarrow> ptr \<Rightarrow> 32 word \<Rightarrow> spi_object
     \<Rightarrow> 'h spi_state \<Rightarrow> spi_fault + (bool \<times> 'h spi_state)" where
  "SpiBus_transfer E cs txdata rxdata sz this s =
     bindr (exec [cs False, spiTransferBytes E (o_spi this) txdata rxdata sz, cs True] s) (\<lambda>s. Inr (True, s))"

section \<open>The cached divider\<close>

text \<open>The invariant: the clock register holds the cached divider, which is that of the last frequency
  asked for, and the mutex of the bus is free.\<close>

definition bus_synced :: "clk_sdk \<Rightarrow> spi_object \<Rightarrow> 'h spi_state \<Rightarrow> bool" where
  "bus_synced K this s \<longleftrightarrow> o_div this = spiFrequencyToClockDiv K (o_frequency this)
     \<and> (\<forall>n. o_spi this = Some n \<longrightarrow> spiGetClockDiv (Some n) s = o_div this \<and> lock_at s n = Some False)"

lemma bus_synced_setFrequency:
  assumes "bus_synced K this s"
  shows "\<exists>this' t. SpiBus_setFrequency K freq this s = Inr (this', t) \<and> bus_synced K this' t
    \<and> o_frequency this' = freq \<and> o_spi this' = o_spi this"
proof (cases "o_spi this")
  case None
  then show ?thesis
    using assms by (auto simp: SpiBus_setFrequency_def Let_def bus_synced_def spiSetClockDiv_def)
next
  case (Some n)
  let ?d = "spiFrequencyToClockDiv K freq"
  obtain t where t: "(if o_div this = ?d then Inr s else spiSetClockDiv (Some n) ?d s) = Inr t"
    "spiGetClockDiv (Some n) t = ?d" "lock_at t n = Some False"
    using spi_clock.cached_set [of s n "o_div this" ?d] assms Some by (auto simp: bus_synced_def)
  then show ?thesis
    using Some by (auto simp: SpiBus_setFrequency_def Let_def bus_synced_def split: if_splits)
qed

text \<open>A chip-select write that returns and leaves the controllers and memory alone.\<close>

definition cs_ok :: "(bool \<Rightarrow> (spi_fault, 'h spi_state) step) \<Rightarrow> bool" where
  "cs_ok cs \<longleftrightarrow> (\<forall>v s. \<exists>t. cs v s = Inr t \<and> buses t = buses s \<and> mem t = mem s)"

lemma bus_synced_transfer:
  assumes "controller_ok E xact" and "duplex_ok E xact peer" and "layout_ok (layout E)" and "cs_ok cs"
    and "bus_synced K this s" and "no_clobber txdata rxdata (unat sz)"
  shows "\<exists>t. SpiBus_transfer E cs txdata rxdata sz this s = Inr (True, t) \<and> bus_synced K this t"
proof -
  obtain u where u: "cs False s = Inr u" "buses u = buses s"
    using assms(4) by (auto simp: cs_ok_def)
  have "\<exists>v. spiTransferBytes E (o_spi this) txdata rxdata sz u = Inr v \<and> bus_synced K this v"
  proof (cases "o_spi this")
    case None
    then show ?thesis using assms(5) by (simp add: spiTransferBytes_def bus_synced_def)
  next
    case (Some n)
    then have "lock_at u n = Some False" "clock (dev_at u n) = o_div this"
      using assms(5) u(2) by (simp_all add: bus_synced_def spiGetClockDiv_def)
    then obtain v where "spiTransferBytes E (Some n) txdata rxdata sz u = Inr v"
      "exchanged peer n txdata rxdata (unat sz) u v" "lock_at v n = Some False"
      using bytes_exchange [OF assms(1-3) _ assms(6)] by blast
    then show ?thesis
      using assms(5) Some \<open>clock (dev_at u n) = o_div this\<close>
      by (auto simp: bus_synced_def exchanged_def Let_def same_but_transfer_def bus_config_def spiGetClockDiv_def)
  qed
  then obtain v where v: "spiTransferBytes E (o_spi this) txdata rxdata sz u = Inr v" "bus_synced K this v"
    by blast
  obtain t where t: "cs True v = Inr t" "buses t = buses v"
    using assms(4) by (auto simp: cs_ok_def)
  have "bus_synced K this t"
    using v(2) t(2) by (simp add: bus_synced_def spiGetClockDiv_def split: option.splits)
  with u v t show ?thesis by (simp add: SpiBus_transfer_def)
qed

text \<open>What a client does with a bus object; a transfer is a pair of buffers and a length.\<close>

datatype bus_use = SetFrequency "32 word" | Xfer ptr ptr "32 word"

fun use_bus ::
  "clk_sdk \<Rightarrow> 'h spi_env \<Rightarrow> (bool \<Rightarrow> (spi_fault, 'h spi_state) step) \<Rightarrow> bus_use
     \<Rightarrow> spi_object \<times> 'h spi_state \<Rightarrow> spi_fault + (spi_object \<times> 'h spi_state)" where
  "use_bus K E cs (SetFrequency f) (this, s) = SpiBus_setFrequency K f this s"
| "use_bus K E cs (Xfer tx rx sz) (this, s) =
     bindr (SpiBus_transfer E cs tx rx sz this s) (\<lambda>(ok, s). Inr (this, s))"

fun use_ok :: "bus_use \<Rightarrow> bool" where
  "use_ok (SetFrequency f) = True"
| "use_ok (Xfer tx rx sz) = no_clobber tx rx (unat sz)"

fun last_frequency :: "bus_use list \<Rightarrow> 32 word \<Rightarrow> 32 word" where
  "last_frequency [] f = f"
| "last_frequency (SetFrequency g # us) f = last_frequency us g"
| "last_frequency (Xfer tx rx sz # us) f = last_frequency us f"

lemma uses_synced:
  assumes "controller_ok E xact" and "duplex_ok E xact peer" and "layout_ok (layout E)" and "cs_ok cs"
    and "\<forall>u \<in> set us. use_ok u" and "bus_synced K this s"
  shows "\<exists>this' t. exec (map (use_bus K E cs) us) (this, s) = Inr (this', t) \<and> bus_synced K this' t
    \<and> o_frequency this' = last_frequency us (o_frequency this) \<and> o_spi this' = o_spi this"
  using assms(5,6)
proof (induction us arbitrary: this s)
  case Nil
  then show ?case by simp
next
  case (Cons u us)
  have "\<exists>this1 s1. use_bus K E cs u (this, s) = Inr (this1, s1) \<and> bus_synced K this1 s1
      \<and> last_frequency (u # us) (o_frequency this) = last_frequency us (o_frequency this1)
      \<and> o_spi this1 = o_spi this"
  proof (cases u)
    case (SetFrequency f)
    then show ?thesis using bus_synced_setFrequency [OF Cons.prems(2), of f] by auto
  next
    case (Xfer tx rx sz)
    then show ?thesis
      using bus_synced_transfer [OF assms(1-4) Cons.prems(2), of tx rx sz] Cons.prems(1) by auto
  qed
  then show ?case using Cons.IH Cons.prems(1) by (fastforce simp: bindr_eq_Inr_iff)
qed

lemma ctor_synced:
  assumes "layout_ok (layout E)" and "num \<le> 3 \<Longrightarrow> startable E (unat num) s"
  shows "\<exists>this t. SpiBus_ctor K E clk miso mosi num s = Inr (this, t) \<and> bus_synced K this t
    \<and> o_frequency this = 1000000 \<and> o_spi this = (if num \<le> 3 then Some (unat num) else None)"
proof -
  let ?d = "spiFrequencyToClockDiv K 1000000"
  have "\<exists>spi t. spiStartBus E num ?d SPI_MODE0 SPI_MSBFIRST s = Inr (spi, t)
      \<and> spi = (if num \<le> 3 then Some (unat num) else None)
      \<and> (\<forall>n. spi = Some n \<longrightarrow> clock (dev_at t n) = ?d \<and> lock_at t n = Some False)"
  proof (cases "num \<le> 3")
    case False
    then show ?thesis by (simp add: spiStartBus_def linorder_not_le)
  next
    case True
    then show ?thesis
      using start_bus [OF assms(1) assms(2) [OF True] True, of ?d SPI_MODE0 SPI_MSBFIRST]
      by (auto simp: started_dev_def)
  qed
  then obtain spi t where t: "spiStartBus E num ?d SPI_MODE0 SPI_MSBFIRST s = Inr (spi, t)"
    "spi = (if num \<le> 3 then Some (unat num) else None)"
    "\<And>n. spi = Some n \<Longrightarrow> clock (dev_at t n) = ?d \<and> lock_at t n = Some False"
    by blast
  have "\<exists>u. exec [spiAttachSCK E spi clk, spiAttachMISO E spi miso, spiAttachMOSI E spi mosi] t = Inr u
      \<and> (\<forall>n. spi = Some n \<longrightarrow> clock (dev_at u n) = ?d \<and> lock_at u n = Some False)"
    using t(3)
    by (cases spi) (auto simp: spiAttachSCK_def spiAttachMISO_def spiAttachMOSI_def locked_def stmt Let_def)
  with t(1,2) show ?thesis
    by (auto simp: SpiBus_ctor_def Let_def bus_synced_def spiGetClockDiv_def)
qed

text \<open>Property C18. The clock of a bus object always is the one of the last frequency asked for: for every sequence of
  frequency changes and transfers on a freshly constructed object, all calls return, the transfers
  return true, the clock register holds the divider of the last frequency (1 MHz before the first
  change) although unchanged dividers are not written again, and the mutex is free.\<close>

theorem bus_clock_follows_frequency:
  assumes "controller_ok E xact" and "duplex_ok E xact peer" and "layout_ok (layout E)" and "cs_ok cs"
    and "\<forall>u \<in> set us. use_ok u" and "num \<le> 3" and "startable E (unat num) s"
  shows "\<exists>this t this' t'. SpiBus_ctor K E clk miso mosi num s = Inr (this, t)
    \<and> exec (map (use_bus K E cs) us) (this, t) = Inr (this', t')
    \<and> clock (dev_at t' (unat num)) = spiFrequencyToClockDiv K (last_frequency us 1000000)
    \<and> lock_at t' (unat num) = Some False"
proof -
  obtain this t where c: "SpiBus_ctor K E clk miso mosi num s = Inr (this, t)" "bus_synced K this t"
    "o_frequency this = 1000000" "o_spi this = Some (unat num)"
    using ctor_synced [OF assms(3,7), of K clk miso mosi] assms(6) by auto
  obtain this' t' where u: "exec (map (use_bus K E cs) us) (this, t) = Inr (this', t')" "bus_synced K this' t'"
    "o_frequency this' = last_frequency us 1000000" "o_spi this' = Some (unat num)"
    using uses_synced [OF assms(1-5) c(2)] c(3,4) by auto
  then have "clock (dev_at t' (unat num)) = spiFrequencyToClockDiv K (last_frequency us 1000000)"
    "lock_at t' (unat num) = Some False"
    by (simp_all add: bus_synced_def spiGetClockDiv_def)
  with c(1) u(1) show ?thesis by blast
qed

lemma bus_clock_follows_frequency_witness:
  "\<exists>this t this' t'. SpiBus_ctor esp32_clk demo_env 18 19 23 3 (demo_state None (\<lambda>_. 0)) = Inr (this, t)
    \<and> exec (map (use_bus esp32_clk demo_env (\<lambda>v. emit [gpio_set_level 5 (if v then 1 else 0)]))
          [SetFrequency 4000000, Xfer (Some 0) (Some 0) 100]) (this, t) = Inr (this', t')
    \<and> clock (dev_at t' 3) = spiFrequencyToClockDiv esp32_clk 4000000"
proof -
  have "cs_ok (\<lambda>v. emit [gpio_set_level 5 (if v then 1 else 0)])" by (simp add: cs_ok_def emit_step)
  moreover have "layout_ok (layout demo_env)" by (simp add: esp32_layout_ok)
  moreover have "\<forall>u \<in> set [SetFrequency 4000000, Xfer (Some 0) (Some 0) 100]. use_ok u"
    by (simp add: no_clobber_def)
  moreover have "startable demo_env (unat (3 :: 8 word)) (demo_state None (\<lambda>_. 0))" by (simp add: startable_def)
  ultimately show ?thesis
    using bus_clock_follows_frequency [OF demo_controller_ok demo_duplex_ok, of "\<lambda>v. emit [gpio_set_level 5 (if v then 1 else 0)]"
        "[SetFrequency 4000000, Xfer (Some 0) (Some 0) 100]" 3 "demo_state None (\<lambda>_. 0)" esp32_clk 18 19 23]
    by (auto simp del: exec.simps list.map)
qed

end
