(* ===== verification/Gpio_Pins.thy ===== *)
theory Gpio_Pins
  imports Gpio
begin

text \<open>
  What the calls of the GPIO chip do to the pins.  The SDK's driver is a parameter: a state \<open>'d\<close>,
  the effect \<open>drive\<close> of a call and the configuration \<open>pads\<close> of every pin, under the hypothesis
  \<open>pads_ok\<close> that each call does to its pin what the driver's documentation says, on the pins that
  have an output stage.  Over it, sequences of uses of the chip follow a machine that remembers the
  last mode and the last level of each pin, and pins that share an open-drain line read the
  conjunction of their levels.
\<close>

section \<open>Pins\<close>

text \<open>Direction (\<open>None\<close> while the pin is disabled), pull resistors and output latch of a pin.\<close>

record pad =
  pad_dir :: "gpio_dir option"
  pull_up :: bool
  pull_down :: bool
  latch :: bool

text \<open>The documented driver, on the pins \<open>P\<close>.\<close>

fun pad_effect :: "gpio_call \<Rightarrow> pad \<Rightarrow> pad" where
  "pad_effect (gpio_set_direction p d) x = x\<lparr>pad_dir := Some d\<rparr>"
| "pad_effect (gpio_pullup_en p) x = x\<lparr>pull_up := True\<rparr>"
| "pad_effect (gpio_pullup_dis p) x = x\<lparr>pull_up := False\<rparr>"
| "pad_effect (gpio_pulldown_dis p) x = x\<lparr>pull_down := False\<rparr>"
| "pad_effect (gpio_set_pull_floating p) x = x\<lparr>pull_up := False, pull_down := False\<rparr>"
| "pad_effect (gpio_set_level p v) x = x\<lparr>latch := v \<noteq> 0\<rparr>"
| "pad_effect (gpio_matrix_out p sig iv oen) x = x"
| "pad_effect (gpio_matrix_in p sig iv) x = x"

fun is_matrix :: "gpio_call \<Rightarrow> bool" where
  "is_matrix (gpio_matrix_out p sig iv oen) = True"
| "is_matrix (gpio_matrix_in p sig iv) = True"
| "is_matrix _ = False"

definition pads_ok :: "(gpio_call \<Rightarrow> 'd \<Rightarrow> 'd) \<Rightarrow> ('d \<Rightarrow> int \<Rightarrow> pad) \<Rightarrow> int set \<Rightarrow> bool" where
  "pads_ok drive pads P \<longleftrightarrow> (\<forall>c d. \<not> is_matrix c \<longrightarrow> (\<forall>p \<in> P.
     pads (drive c d) p = (if call_pin c = p then pad_effect c (pads d p) else pads d p)))"

text \<open>What a pin puts on its line, and whether its input stage is on.\<close>

definition drives :: "pad \<Rightarrow> bool option" where
  "drives x = (case pad_dir x of
       Some GPIO_MODE_OUTPUT \<Rightarrow> Some (latch x)
     | Some GPIO_MODE_INPUT_OUTPUT_OD \<Rightarrow> if latch x then None else Some False
     | _ \<Rightarrow> None)"

definition input_on :: "pad \<Rightarrow> bool" where
  "input_on x \<longleftrightarrow> pad_dir x \<in> {Some GPIO_MODE_INPUT, Some GPIO_MODE_INPUT_OUTPUT_OD}"

text \<open>\<open>gpio_get_level\<close> as documented: a pin without its input stage reads 0.  A pin with it reads its
  line, which joins the pins \<open>line p\<close> and has a pull-up resistor: while no pin drives the line high,
  it is high unless one of them drives it low.\<close>

definition levels_ok ::
  "('d \<Rightarrow> int \<Rightarrow> nat) \<Rightarrow> ('d \<Rightarrow> int \<Rightarrow> pad) \<Rightarrow> (int \<Rightarrow> int set) \<Rightarrow> bool" where
  "levels_ok get_level pads line \<longleftrightarrow> (\<forall>d p.
     (\<not> input_on (pads d p) \<longrightarrow> get_level d p = 0)
     \<and> (input_on (pads d p) \<and> (\<forall>q \<in> line p. drives (pads d q) \<noteq> Some True) \<longrightarrow>
          get_level d p = (if \<exists>q \<in> line p. drives (pads d q) = Some False then 0 else 1)))"

section \<open>Uses of the chip\<close>

datatype chip_use = Mode int pin_mode | RawMode int int | Write int bool | OpenDrain int | OdWrite int bool

fun use_chip :: "chip_use \<Rightarrow> ('h, 'w) gpio_soc \<Rightarrow> ('h, 'w) gpio_soc" where
  "use_chip (Mode p m) s = gpio_mode p m s"
| "use_chip (RawMode p r) s = pinMode p r s"
| "use_chip (Write p v) s = gpio_write p v s"
| "use_chip (OpenDrain p) s = setOpenDrain p s"
| "use_chip (OdWrite p v) s = odWrite p v s"

text \<open>The driver's state after it has done the calls that a sequence of uses makes.\<close>

definition driven ::
  "(gpio_call \<Rightarrow> 'd \<Rightarrow> 'd) \<Rightarrow> chip_use list \<Rightarrow> ('h, 'w) gpio_soc \<Rightarrow> 'd \<Rightarrow> 'd" where
  "driven drive us s d = fold drive (drop (length (idf_calls s)) (idf_calls (fold use_chip us s))) d"

text \<open>The machine of one pin: the last mode it was given, if any, and its level.\<close>

type_synonym pin_view = "pin_mode option \<times> bool"

fun known_mode :: "pin_mode \<Rightarrow> bool" where
  "known_mode (PinMode_other k) = False"
| "known_mode _ = True"

fun raw_to_mode :: "int \<Rightarrow> pin_mode option" where
  "raw_to_mode r = (if r = 1 then Some INPUT else if r = 2 then Some OUTPUT
     else if r = 3 then Some OUTPUT_OPEN_DRAIN else None)"

fun pin_next :: "int \<Rightarrow> chip_use \<Rightarrow> pin_view \<Rightarrow> pin_view" where
  "pin_next p (Mode q m) (k, l) = (if q = p \<and> known_mode m then Some m else k, l)"
| "pin_next p (RawMode q r) (k, l) = (if q = p \<and> raw_to_mode r \<noteq> None then raw_to_mode r else k, l)"
| "pin_next p (Write q v) (k, l) = (k, if q = p then v else l)"
| "pin_next p (OpenDrain q) (k, l) = (if q = p then (Some OUTPUT_OPEN_DRAIN, True) else (k, l))"
| "pin_next p (OdWrite q v) (k, l) = (k, if q = p then v else l)"

fun mode_dir :: "pin_mode \<Rightarrow> gpio_dir" where
  "mode_dir OUTPUT = GPIO_MODE_OUTPUT"
| "mode_dir OUTPUT_OPEN_DRAIN = GPIO_MODE_INPUT_OUTPUT_OD"
| "mode_dir _ = GPIO_MODE_INPUT"

text \<open>The pad a view stands for, when the pin started as \<open>x\<close>.\<close>

fun pad_of :: "pad \<Rightarrow> pin_view \<Rightarrow> pad" where
  "pad_of x (None, l) = x\<lparr>latch := l\<rparr>"
| "pad_of x (Some m, l) =
     \<lparr>pad_dir = Some (mode_dir m), pull_up = (m = INPUT_PULLUP), pull_down = False, latch = l\<rparr>"

definition pin_after :: "pad \<Rightarrow> int \<Rightarrow> chip_use list \<Rightarrow> pin_view" where
  "pin_after x p uses = fold (pin_next p) uses (None, latch x)"

section \<open>Lemmas\<close>

text \<open>The calls a use records.\<close>

fun use_calls :: "chip_use \<Rightarrow> gpio_call list" where
  "use_calls (Mode p m) = mode_calls p m"
| "use_calls (RawMode p r) = pinMode_calls p r"
| "use_calls (Write p v) = write_calls p v"
| "use_calls (OpenDrain p) = mode_calls p OUTPUT_OPEN_DRAIN @ write_calls p True"
| "use_calls (OdWrite p v) = write_calls p v"

lemma use_chip_records: "idf_calls (use_chip u s) = idf_calls s @ use_calls u"
  by (cases u) (simp_all add: gpio_mode_def pinMode_def gpio_write_def setOpenDrain_def odWrite_def
      write_calls_def)

lemma uses_record: "idf_calls (fold use_chip us s) = idf_calls s @ concat (map use_calls us)"
  by (induction us arbitrary: s) (simp_all add: use_chip_records)

lemma mode_calls_no_matrix: "c \<in> set (mode_calls p m) \<Longrightarrow> \<not> is_matrix c"
  by (cases m) auto

lemma use_calls_no_matrix: "c \<in> set (use_calls u) \<Longrightarrow> \<not> is_matrix c"
  by (cases u) (auto simp: pinMode_calls_def write_calls_def dest: mode_calls_no_matrix split: if_splits)

text \<open>Driving a list of calls, seen from one pin.\<close>

lemma drive_pad:
  assumes "pads_ok drive pads P" and "p \<in> P" and "\<And>c. c \<in> set cs \<Longrightarrow> \<not> is_matrix c"
  shows "pads (fold drive cs d) p = fold pad_effect (filter (\<lambda>c. call_pin c = p) cs) (pads d p)"
  using assms(3)
proof (induction cs arbitrary: d)
  case (Cons c cs)
  then have "pads (drive c d) p = (if call_pin c = p then pad_effect c (pads d p) else pads d p)"
    using assms(1,2) by (simp add: pads_ok_def)
  then show ?case using Cons by simp
qed simp

lemma mode_calls_filter:
  "filter (\<lambda>c. call_pin c = p) (mode_calls q m) = (if q = p then mode_calls q m else [])"
  by (cases m) auto

lemma mode_pad:
  "\<not> pull_down x \<Longrightarrow> known_mode m \<Longrightarrow> fold pad_effect (mode_calls p m) (pad_of x (k, l)) = pad_of x (Some m, l)"
  by (cases m; cases k) simp_all

lemma mode_pad_unknown: "\<not> known_mode m \<Longrightarrow> mode_calls p m = []"
  by (cases m) simp_all

lemma level_pad [simp]: "(pad_of x (k, l))\<lparr>latch := v\<rparr> = pad_of x (k, v)"
  by (cases k) simp_all

lemma use_pad:
  assumes "\<not> pull_down x"
  shows "fold pad_effect (filter (\<lambda>c. call_pin c = p) (use_calls u)) (pad_of x v) = pad_of x (pin_next p u v)"
proof -
  obtain k l where v: "v = (k, l)" by (cases v)
  have known: "fold pad_effect (mode_calls p m) (pad_of x (k, l))
      = pad_of x (if known_mode m then Some m else k, l)" for m
    using mode_pad [OF assms, of m p k l] mode_pad_unknown [of m p] by simp
  show ?thesis
  proof (cases u)
    case (RawMode q r)
    then show ?thesis
      using known [of INPUT] known [of OUTPUT] known [of OUTPUT_OPEN_DRAIN]
      by (simp add: v pinMode_calls_def mode_calls_filter RAW_INPUT_def RAW_OUTPUT_def
          RAW_OUTPUT_OPENDRAIN_def del: mode_calls.simps pad_of.simps)
  next
    case (OpenDrain q)
    then show ?thesis
      using known [of OUTPUT_OPEN_DRAIN]
      by (simp add: v mode_calls_filter write_calls_def LEVEL_HIGH_def del: mode_calls.simps pad_of.simps)
  qed (simp_all add: v mode_calls_filter known write_calls_def LEVEL_HIGH_def LEVEL_LOW_def
      del: mode_calls.simps pad_of.simps)
qed

lemma uses_pad:
  assumes "\<not> pull_down x"
  shows "fold pad_effect (filter (\<lambda>c. call_pin c = p) (concat (map use_calls us))) (pad_of x v)
    = pad_of x (fold (pin_next p) us v)"
  by (induction us arbitrary: v) (simp_all add: use_pad [OF assms])

lemma chip_pad:
  assumes "pads_ok drive pads P" and "p \<in> P" and "\<not> pull_down (pads d p)"
  shows "pads (driven drive us s d) p = pad_of (pads d p) (pin_after (pads d p) p us)"
proof -
  have "pads (fold drive (concat (map use_calls us)) d) p
      = fold pad_effect (filter (\<lambda>c. call_pin c = p) (concat (map use_calls us))) (pads d p)"
    by (rule drive_pad [OF assms(1,2)]) (auto dest: use_calls_no_matrix)
  then show ?thesis
    using uses_pad [OF assms(3), of p us "(None, latch (pads d p))"]
    by (simp add: driven_def uses_record pin_after_def)
qed

lemma known_pin_next: "k = None \<or> known_mode (the k) \<Longrightarrow> fst (pin_next p u (k, l)) = None \<or> known_mode (the (fst (pin_next p u (k, l))))"
  by (cases u) auto

lemma pin_after_known: "fst (pin_after x p us) = Some m \<Longrightarrow> known_mode m"
proof -
  have "fst v = None \<or> known_mode (the (fst v)) \<Longrightarrow>
      fst (fold (pin_next p) us v) = None \<or> known_mode (the (fst (fold (pin_next p) us v)))" for v
  proof (induction us arbitrary: v)
    case (Cons u us)
    then show ?case using known_pin_next [of "fst v" p u "snd v"] by simp
  qed simp
  from this [of "(None, latch x)"] show "fst (pin_after x p us) = Some m \<Longrightarrow> known_mode m"
    by (simp add: pin_after_def)
qed

lemma pad_of_drives:
  assumes "fst v = Some m" and "known_mode m"
  shows "drives (pad_of x v) = (if m = OUTPUT then Some (snd v)
      else if m = OUTPUT_OPEN_DRAIN \<and> \<not> snd v then Some False else None)"
    and "input_on (pad_of x v) \<longleftrightarrow> m \<noteq> OUTPUT"
  using assms by (cases v; cases m; simp add: drives_def input_on_def)+

section \<open>Properties\<close>

text \<open>Property C10. Over every sequence of mode changes and level writes, through the class or the C entry point,
  each pin is configured by its own last valid mode and level alone: the direction and the pull-up
  belong to that mode, the pull-down stays off, and no other pin is disturbed.  A pin in mode \<open>OUTPUT\<close>
  always reads false, whatever its level.  On a line none of whose pins is in mode \<open>OUTPUT\<close> no pin
  ever drives high, and every pin reads the conjunction of the levels of the open-drain pins.\<close>

theorem pins_follow_modes:
  assumes "pads_ok drive pads P" and "levels_ok get_level pads line"
    and "p \<in> P" and "line p \<subseteq> P" and "\<forall>q \<in> P. \<not> pull_down (pads d q)"
  shows "(\<forall>q \<in> P. pads (driven drive us s d) q
        = pad_of (pads d q) (pin_after (pads d q) q us))
    \<and> (fst (pin_after (pads d p) p us) = Some OUTPUT \<longrightarrow>
        \<not> gpio_read (get_level (driven drive us s d)) p)
    \<and> ((\<forall>q \<in> insert p (line p). fst (pin_after (pads d q) q us) \<notin> {None, Some OUTPUT}) \<longrightarrow>
        gpio_read (get_level (driven drive us s d)) p
        = (\<forall>q \<in> line p. fst (pin_after (pads d q) q us) = Some OUTPUT_OPEN_DRAIN \<longrightarrow>
             snd (pin_after (pads d q) q us)))"
proof -
  let ?d = "driven drive us s d"
  let ?v = "\<lambda>q. pin_after (pads d q) q us"
  have pad: "pads ?d q = pad_of (pads d q) (?v q)" if "q \<in> P" for q
    using chip_pad [OF assms(1) that] assms(5) that by blast
  have known: "drives (pads ?d q) = (if m = OUTPUT then Some (snd (?v q))
      else if m = OUTPUT_OPEN_DRAIN \<and> \<not> snd (?v q) then Some False else None)"
      "input_on (pads ?d q) \<longleftrightarrow> m \<noteq> OUTPUT" if "q \<in> P" and "fst (?v q) = Some m" for q m
    using pad_of_drives [OF that(2) pin_after_known [OF that(2)]] pad [OF that(1)] by simp_all
  have off: "\<not> input_on (pads ?d p) \<Longrightarrow> get_level ?d p = 0"
    and line: "input_on (pads ?d p) \<Longrightarrow> \<forall>q \<in> line p. drives (pads ?d q) \<noteq> Some True \<Longrightarrow>
      get_level ?d p = (if \<exists>q \<in> line p. drives (pads ?d q) = Some False then 0 else 1)"
    using assms(2) by (simp_all add: levels_ok_def)
  have pushed: "fst (?v p) = Some OUTPUT \<Longrightarrow> \<not> gpio_read (get_level ?d) p"
    using known(2) [OF assms(3)] off by (simp add: gpio_read_def)
  have od: "gpio_read (get_level ?d) p = (\<forall>q \<in> line p. fst (?v q) = Some OUTPUT_OPEN_DRAIN \<longrightarrow> snd (?v q))"
    if modes: "\<forall>q \<in> insert p (line p). fst (?v q) \<notin> {None, Some OUTPUT}"
  proof -
    have drv: "drives (pads ?d q) =
        (if fst (?v q) = Some OUTPUT_OPEN_DRAIN \<and> \<not> snd (?v q) then Some False else None)"
      if q: "q \<in> line p" for q
    proof -
      have "q \<in> P" using q assms(4) by blast
      moreover obtain m where "fst (?v q) = Some m" "m \<noteq> OUTPUT" using modes q by auto
      ultimately show ?thesis using known(1) by simp
    qed
    obtain m where m: "fst (?v p) = Some m" "m \<noteq> OUTPUT" using modes by auto
    have "get_level ?d p = (if \<exists>q \<in> line p. drives (pads ?d q) = Some False then 0 else 1)"
      using known(2) [OF assms(3) m(1)] m(2) drv by (intro line) simp_all
    then show ?thesis using drv by (auto simp: gpio_read_def split: if_splits)
  qed
  show ?thesis using pad pushed od by blast
qed

text \<open>A chip with a line joining the pins 21 and 22, for the witness.\<close>

definition demo_drive :: "gpio_call \<Rightarrow> (int \<Rightarrow> pad) \<Rightarrow> int \<Rightarrow> pad" where
  "demo_drive c d = d(call_pin c := pad_effect c (d (call_pin c)))"

definition demo_line :: "int \<Rightarrow> int set" where
  "demo_line p = (if p = 21 \<or> p = 22 then {21, 22} else {p})"

definition demo_level :: "(int \<Rightarrow> pad) \<Rightarrow> int \<Rightarrow> nat" where
  "demo_level d p = (if input_on (d p) \<and> \<not> (\<exists>q \<in> demo_line p. drives (d q) = Some False) then 1 else 0)"

definition demo_pads :: "int \<Rightarrow> pad" where
  "demo_pads p = \<lparr>pad_dir = None, pull_up = False, pull_down = False, latch = False\<rparr>"

definition demo_chip :: "(nat, nat list) gpio_soc" where
  "demo_chip = gpio_reset []"

definition demo_uses :: "chip_use list" where
  "demo_uses = [OpenDrain 21, OpenDrain 22, OdWrite 22 False, Mode 4 OUTPUT, Write 4 True]"

lemma demo_chip_ok: "pads_ok demo_drive (\<lambda>d. d) P" "levels_ok demo_level (\<lambda>d. d) demo_line"
  by (simp_all add: pads_ok_def levels_ok_def demo_drive_def demo_level_def)

lemma demo_pin_after:
  "pin_after (demo_pads 4) 4 demo_uses = (Some OUTPUT, True)"
  "pin_after (demo_pads 21) 21 demo_uses = (Some OUTPUT_OPEN_DRAIN, True)"
  "pin_after (demo_pads 22) 22 demo_uses = (Some OUTPUT_OPEN_DRAIN, False)"
  by (simp_all add: pin_after_def demo_uses_def demo_pads_def)

lemma pins_follow_modes_witness:
  "\<not> gpio_read (demo_level (driven demo_drive demo_uses demo_chip demo_pads)) 4
   \<and> \<not> gpio_read (demo_level (driven demo_drive demo_uses demo_chip demo_pads)) 21
   \<and> gpio_read (demo_level (driven demo_drive (demo_uses @ [OdWrite 22 True]) demo_chip demo_pads)) 21"
proof -
  have clean: "\<forall>q \<in> UNIV. \<not> pull_down (demo_pads q)" by (simp add: demo_pads_def)
  note p = pins_follow_modes [where drive = demo_drive and get_level = demo_level and line = demo_line
      and d = demo_pads and pads = "\<lambda>d :: int \<Rightarrow> pad. d" and P = UNIV, OF demo_chip_ok UNIV_I subset_UNIV clean]
  have "\<not> gpio_read (demo_level (driven demo_drive demo_uses demo_chip demo_pads)) 4"
    using p [where p = 4 and us = demo_uses and s = demo_chip] demo_pin_after by simp
  moreover have "\<not> gpio_read (demo_level (driven demo_drive demo_uses demo_chip demo_pads)) 21"
    using p [where p = 21 and us = demo_uses and s = demo_chip] demo_pin_after by (simp add: demo_line_def)
  moreover have "gpio_read (demo_level (driven demo_drive (demo_uses @ [OdWrite 22 True]) demo_chip demo_pads)) 21"
    using p [where p = 21 and us = "demo_uses @ [OdWrite 22 True]" and s = demo_chip] demo_pin_after
    by (simp add: demo_line_def pin_after_def)
  ultimately show ?thesis by blast
qed

text \<open>\<open>setOpenDrain\<close> changes the mode before it releases the level: a pin whose latch is still low, as
  it is after reset, pulls its line low between the two calls.\<close>

lemma setOpenDrain_pulls_low:
  assumes "pads_ok drive pads P" and "p \<in> P" and "\<not> latch (pads d p)"
  shows "\<exists>before after. idf_calls (setOpenDrain p (gpio_reset w)) = before @ after
      \<and> drives (pads (fold drive before d) p) = Some False
      \<and> drives (pads (fold drive (before @ after) d) p) = None"
proof (intro exI conjI)
  let ?before = "mode_calls p OUTPUT_OPEN_DRAIN" and ?after = "write_calls p True"
  show "idf_calls (setOpenDrain p (gpio_reset w)) = ?before @ ?after"
    by (simp add: setOpenDrain_def gpio_mode_def gpio_write_def gpio_reset_def)
  have seen: "pads (fold drive cs d) p = fold pad_effect (filter (\<lambda>c. call_pin c = p) cs) (pads d p)"
    if "set cs \<subseteq> set (?before @ ?after)" for cs
    using that by (intro drive_pad [OF assms(1,2)]) (auto simp: write_calls_def)
  show "drives (pads (fold drive ?before d) p) = Some False"
    by (subst seen) (simp_all add: drives_def assms(3))
  show "drives (pads (fold drive (?before @ ?after) d) p) = None"
    by (subst seen) (simp_all add: drives_def write_calls_def LEVEL_HIGH_def)
qed

end
