(* ===== verification/Spi_Object.thy ===== *)
theory Spi_Object
  imports Spi_Bus Gpio_Pins
begin

text \<open>
  The life of an SPI bus object through the class, the driver and the GPIO chip: what the GPIO driver
  is asked for while the object is constructed, used and destroyed (\<open>object_runs\<close>), and what these
  calls do to the pins of a documented driver, which routes the signals of the controllers to pins
  through its matrix.
\<close>

section \<open>A bus object from construction to destruction\<close>

text \<open>The calls to the GPIO driver that attaching and detaching the three signals makes.\<close>

definition attach_log :: "spi_sdk \<Rightarrow> nat \<Rightarrow> 8 word \<Rightarrow> 8 word \<Rightarrow> 8 word \<Rightarrow> gpio_call list" where
  "attach_log K n clk miso mosi =
     (let clk = sck_pin n clk; miso = miso_pin n miso; mosi = mosi_pin n mosi in
      pinMode_calls (sint clk) RAW_OUTPUT @ pinMatrixOutAttach clk (of_nat (SPI_CLK_IDX K n)) False False
      @ pinMode_calls (sint miso) RAW_INPUT @ pinMatrixInAttach miso (of_nat (SPI_MISO_IDX K n)) False
      @ pinMode_calls (sint mosi) RAW_OUTPUT @ pinMatrixOutAttach mosi (of_nat (SPI_MOSI_IDX K n)) False False)"

definition detach_log :: "spi_sdk \<Rightarrow> nat \<Rightarrow> 8 word \<Rightarrow> 8 word \<Rightarrow> 8 word \<Rightarrow> gpio_call list" where
  "detach_log K n clk miso mosi =
     (let clk = sck_pin n clk; miso = miso_pin n miso; mosi = mosi_pin n mosi in
      pinMatrixOutDetach mosi False False @ pinMode_calls (sint mosi) RAW_INPUT
      @ pinMatrixInDetach (of_nat (SPI_MISO_IDX K n)) False False @ pinMode_calls (sint miso) RAW_INPUT
      @ pinMatrixOutDetach clk False False @ pinMode_calls (sint clk) RAW_INPUT)"

text \<open>A chip-select pin driven through the GPIO chip, and what the transfers of a program write to it.\<close>

definition chip_select :: "int \<Rightarrow> bool \<Rightarrow> (spi_fault, 'h spi_state) step" where
  "chip_select p v = emit (write_calls p v)"

fun frames :: "int \<Rightarrow> bus_use list \<Rightarrow> gpio_call list" where
  "frames p [] = []"
| "frames p (SetFrequency f # us) = frames p us"
| "frames p (Xfer tx rx sz # us) = [gpio_set_level p 0, gpio_set_level p 1] @ frames p us"

definition same_pins :: "spi_object \<Rightarrow> spi_object \<Rightarrow> bool" where
  "same_pins a b \<longleftrightarrow> o_spi a = o_spi b \<and> o_clk a = o_clk b \<and> o_miso a = o_miso b \<and> o_mosi a = o_mosi b"

lemma chip_select_ok: "cs_ok (chip_select p)"
  by (simp add: cs_ok_def chip_select_def emit_step)

lemma ctor_log:
  assumes "layout_ok (layout E)" and "num \<le> 3" and "startable E (unat num) s"
    and "SpiBus_ctor K E clk miso mosi num s = Inr (this, t)"
  shows "gpio_calls t = gpio_calls s @ attach_log (sdk E) (unat num) clk miso mosi
    \<and> o_clk this = clk \<and> o_miso this = miso \<and> o_mosi this = mosi"
proof -
  obtain u where u: "spiStartBus E num (spiFrequencyToClockDiv K 1000000) SPI_MODE0 SPI_MSBFIRST s = Inr (Some (unat num), u)"
    "lock_at u (unat num) = Some False" "gpio_calls u = gpio_calls s"
    using start_bus [OF assms(1,3,2), of "spiFrequencyToClockDiv K 1000000" SPI_MODE0 SPI_MSBFIRST] by auto
  from assms(4) u show ?thesis
    by (auto simp: SpiBus_ctor_def Let_def spiAttachSCK_def spiAttachMISO_def spiAttachMOSI_def locked_def stmt
        attach_log_def emit_step)
qed

lemma use_log:
  assumes "controller_ok E xact" and "duplex_ok E xact peer" and "layout_ok (layout E)"
    and "use_ok u" and "bus_synced K this s" and "o_spi this = Some n"
    and "use_bus K E (chip_select p) u (this, s) = Inr (this', t)"
  shows "gpio_calls t = gpio_calls s @ frames p [u] \<and> same_pins this' this"
proof (cases u)
  case (SetFrequency f)
  have "lock_at s n = Some False" using assms(5,6) by (simp add: bus_synced_def)
  then show ?thesis
    using assms(6,7) SetFrequency
    by (auto simp: SpiBus_setFrequency_def Let_def spiSetClockDiv_eq same_pins_def split: if_splits)
next
  case (Xfer tx rx sz)
  let ?u = "s\<lparr>gpio_calls := gpio_calls s @ write_calls p False\<rparr>"
  have "lock_at ?u n = Some False" using assms(5,6) by (simp add: bus_synced_def)
  then obtain v where v: "spiTransferBytes E (Some n) tx rx sz ?u = Inr v" "exchanged peer n tx rx (unat sz) ?u v"
    using bytes_exchange [OF assms(1-3), of ?u n tx rx sz] assms(4) Xfer by auto
  then have "gpio_calls v = gpio_calls s @ write_calls p False"
    by (simp add: exchanged_def Let_def same_but_transfer_def)
  with v(1) assms(6,7) Xfer show ?thesis
    by (auto simp: SpiBus_transfer_def chip_select_def emit_step write_calls_def LEVEL_HIGH_def LEVEL_LOW_def same_pins_def)
qed

lemma frames_append: "frames p (us @ vs) = frames p us @ frames p vs"
  by (induction us rule: frames.induct) simp_all

lemma uses_log:
  assumes "controller_ok E xact" and "duplex_ok E xact peer" and "layout_ok (layout E)"
    and "\<forall>u \<in> set us. use_ok u" and "bus_synced K this s" and "o_spi this = Some n"
    and "exec (map (use_bus K E (chip_select p)) us) (this, s) = Inr (this', t)"
  shows "gpio_calls t = gpio_calls s @ frames p us \<and> same_pins this' this"
  using assms(4-7)
proof (induction us arbitrary: this s)
  case Nil
  then show ?case by (simp add: same_pins_def)
next
  case (Cons u us)
  have "\<exists>this1 s1. use_bus K E (chip_select p) u (this, s) = Inr (this1, s1) \<and> bus_synced K this1 s1"
    using uses_synced [OF assms(1-3) chip_select_ok, of "[u]"] Cons.prems(1,2) by fastforce
  then obtain this1 s1 where u: "use_bus K E (chip_select p) u (this, s) = Inr (this1, s1)" "bus_synced K this1 s1"
    by blast
  have l: "gpio_calls s1 = gpio_calls s @ frames p [u]" "same_pins this1 this"
    using use_log [OF assms(1-3) _ Cons.prems(2,3) u(1)] Cons.prems(1) by auto
  have "exec (map (use_bus K E (chip_select p)) us) (this1, s1) = Inr (this', t)"
    using Cons.prems(4) u(1) by simp
  then have "gpio_calls t = gpio_calls s1 @ frames p us \<and> same_pins this' this1"
    using Cons.IH Cons.prems(1,3) u(2) l(2) by (simp add: same_pins_def)
  then show ?case
    using l frames_append [of p "[u]" us] by (simp add: same_pins_def)
qed

text \<open>The registers of a bus that has been stopped.\<close>

definition stopped_dev :: "spi_dev \<Rightarrow> bool" where
  "stopped_dev d \<longleftrightarrow> pin d = 0 \<and> user d = 0 \<and> user1 d = 0 \<and> ctrl d = 0 \<and> ctrl1 d = 0 \<and> ctrl2 d = 0 \<and> clock d = 0"

lemma dtor_log:
  assumes "o_spi this = Some n" and "lock_at s n = Some False"
  shows "\<exists>t. SpiBus_dtor E this s = Inr t \<and> lock_at t n = Some False \<and> stopped_dev (dev_at t n)
    \<and> gpio_calls t = gpio_calls s @ detach_log (sdk E) n (o_clk this) (o_miso this) (o_mosi this)"
  using assms
  by (simp add: SpiBus_dtor_def spiDetachMOSI_def spiDetachMISO_def spiDetachSCK_def Let_def emit_step detach_log_def
      spiStopBus_eq stopped_dev_def)

text \<open>The three phases of an object's life.\<close>

lemma object_runs:
  assumes "controller_ok E xact" and "duplex_ok E xact peer" and "layout_ok (layout E)"
    and "\<forall>u \<in> set us. use_ok u" and "num \<le> 3" and "startable E (unat num) s"
  obtains this t this' t' u where "SpiBus_ctor K E clk miso mosi num s = Inr (this, t)"
    and "exec (map (use_bus K E (chip_select p)) us) (this, t) = Inr (this', t')"
    and "SpiBus_dtor E this' t' = Inr u"
    and "gpio_calls t' = gpio_calls s @ attach_log (sdk E) (unat num) clk miso mosi @ frames p us"
    and "gpio_calls u = gpio_calls t' @ detach_log (sdk E) (unat num) clk miso mosi"
    and "stopped_dev (dev_at u (unat num))" and "lock_at u (unat num) = Some False"
proof -
  obtain this t where c: "SpiBus_ctor K E clk miso mosi num s = Inr (this, t)" "bus_synced K this t"
    "o_spi this = Some (unat num)"
    using ctor_synced [OF assms(3,6), of K clk miso mosi] assms(5) by auto
  note log = ctor_log [OF assms(3,5,6) c(1)]
  obtain this' t' where u: "exec (map (use_bus K E (chip_select p)) us) (this, t) = Inr (this', t')" "bus_synced K this' t'"
    using uses_synced [OF assms(1-3) chip_select_ok assms(4) c(2)] by blast
  have l: "gpio_calls t' = gpio_calls t @ frames p us" "same_pins this' this"
    using uses_log [OF assms(1-4) c(2,3) u(1)] by simp_all
  have n: "o_spi this' = Some (unat num)" using l(2) c(3) by (simp add: same_pins_def)
  then obtain v where v: "SpiBus_dtor E this' t' = Inr v" "lock_at v (unat num) = Some False" "stopped_dev (dev_at v (unat num))"
    "gpio_calls v = gpio_calls t' @ detach_log (sdk E) (unat num) (o_clk this') (o_miso this') (o_mosi this')"
    using dtor_log [OF n, of t' E] u(2) by (auto simp: bus_synced_def)
  show ?thesis
    by (rule that [OF c(1) u(1) v(1) _ _ v(3,2)]) (use l log v(4) in \<open>auto simp: same_pins_def\<close>)
qed

section \<open>Pins and signals\<close>

text \<open>A driver: the effect of its calls, the configuration of the pins, the signal that each pin puts out
  and the pin that feeds each input signal.\<close>

record 'd pin_driver =
  drive :: "gpio_call \<Rightarrow> 'd \<Rightarrow> 'd"
  pads :: "'d \<Rightarrow> int \<Rightarrow> pad"
  out_sig :: "'d \<Rightarrow> int \<Rightarrow> 32 word"
  in_pin :: "'d \<Rightarrow> 32 word \<Rightarrow> 32 word"

fun is_direction :: "gpio_call \<Rightarrow> bool" where
  "is_direction (gpio_set_direction p d) = True"
| "is_direction _ = False"

text \<open>The documented driver, on the pins \<open>P\<close>: the calls that do not concern the matrix act on their pin as
  \<open>pads_ok\<close> says, a change of direction may take the pin back to the GPIO register (signal
  \<open>MATRIX_DETACH_OUT_SIG\<close>), and a call of the matrix sets exactly the one route it names.\<close>

definition routes_ok :: "'d pin_driver \<Rightarrow> int set \<Rightarrow> bool" where
  "routes_ok D P \<longleftrightarrow> pads_ok (drive D) (pads D) P
     \<and> (\<forall>c d. is_matrix c \<longrightarrow> (\<forall>p \<in> P. pads D (drive D c d) p = pads D d p))
     \<and> (\<forall>c d. \<forall>p \<in> P. call_pin c \<noteq> p \<longrightarrow> out_sig D (drive D c d) p = out_sig D d p)
     \<and> (\<forall>c d. \<forall>p \<in> P. \<not> is_direction c \<and> \<not> is_matrix c \<longrightarrow> out_sig D (drive D c d) p = out_sig D d p)
     \<and> (\<forall>q m d. \<forall>p \<in> P. out_sig D (drive D (gpio_set_direction q m) d) p \<in> {out_sig D d p, MATRIX_DETACH_OUT_SIG})
     \<and> (\<forall>q f a b d. \<forall>p \<in> P. out_sig D (drive D (gpio_matrix_out q f a b) d) p
          = (if uint q = p then f else out_sig D d p))
     \<and> (\<forall>q f a d. \<forall>p \<in> P. out_sig D (drive D (gpio_matrix_in q f a) d) p = out_sig D d p)
     \<and> (\<forall>q f a d. in_pin D (drive D (gpio_matrix_in q f a) d) = (in_pin D d)(f := q))
     \<and> (\<forall>c d. (\<forall>q f a. c \<noteq> gpio_matrix_in q f a) \<longrightarrow> in_pin D (drive D c d) = in_pin D d)"

lemma routes_okD:
  assumes "routes_ok D P"
  shows "pads_ok (drive D) (pads D) P"
    "is_matrix c \<Longrightarrow> p \<in> P \<Longrightarrow> pads D (drive D c d) p = pads D d p"
    "p \<in> P \<Longrightarrow> call_pin c \<noteq> p \<Longrightarrow> out_sig D (drive D c d) p = out_sig D d p"
    "p \<in> P \<Longrightarrow> \<not> is_direction c \<Longrightarrow> \<not> is_matrix c \<Longrightarrow> out_sig D (drive D c d) p = out_sig D d p"
    "p \<in> P \<Longrightarrow> out_sig D (drive D (gpio_set_direction q m) d) p \<in> {out_sig D d p, MATRIX_DETACH_OUT_SIG}"
    "p \<in> P \<Longrightarrow> out_sig D (drive D (gpio_matrix_out r f a b) d) p = (if uint r = p then f else out_sig D d p)"
    "p \<in> P \<Longrightarrow> out_sig D (drive D (gpio_matrix_in r f a) d) p = out_sig D d p"
    "in_pin D (drive D (gpio_matrix_in r f a) d) = (in_pin D d)(f := r)"
    "(\<And>r f a. c \<noteq> gpio_matrix_in r f a) \<Longrightarrow> in_pin D (drive D c d) = in_pin D d"
  using assms by (simp_all add: routes_ok_def)

text \<open>The calls of a phase, driven.\<close>

definition driven_calls :: "'d pin_driver \<Rightarrow> 'h spi_state \<Rightarrow> 'h spi_state \<Rightarrow> 'd \<Rightarrow> 'd" where
  "driven_calls D s t d = fold (drive D) (drop (length (gpio_calls s)) (gpio_calls t)) d"

lemma routed_pads:
  assumes "routes_ok D P" and "p \<in> P"
  shows "pads D (fold (drive D) cs d) p
    = fold pad_effect (filter (\<lambda>c. \<not> is_matrix c \<and> call_pin c = p) cs) (pads D d p)"
proof (induction cs arbitrary: d)
  case (Cons c cs)
  show ?case
    using Cons routes_okD(1,2) [OF assms(1)] assms(2) by (cases "is_matrix c") (auto simp: pads_ok_def)
qed simp

lemma routed_out_same:
  assumes "routes_ok D P" and "p \<in> P" and "\<And>c. c \<in> set cs \<Longrightarrow> call_pin c \<noteq> p"
  shows "out_sig D (fold (drive D) cs d) p = out_sig D d p"
  using assms(3) by (induction cs arbitrary: d) (simp_all add: routes_okD(3) [OF assms(1,2)])

lemma routed_out_mode:
  assumes "routes_ok D P" and "p \<in> P" and "\<And>c. c \<in> set cs \<Longrightarrow> \<not> is_matrix c"
  shows "out_sig D (fold (drive D) cs d) p \<in> {out_sig D d p, MATRIX_DETACH_OUT_SIG}"
  using assms(3)
proof (induction cs arbitrary: d)
  case (Cons c cs)
  have "\<not> is_matrix c" using Cons.prems by simp
  then have "out_sig D (drive D c d) p \<in> {out_sig D d p, MATRIX_DETACH_OUT_SIG}"
    using routes_okD(4,5) [OF assms(1,2)] by (cases c) simp_all
  then show ?case using Cons.IH [of "drive D c d"] Cons.prems by auto
qed simp

lemma routed_in:
  assumes "routes_ok D P" and "\<And>c. c \<in> set cs \<Longrightarrow> \<not> is_matrix c"
  shows "in_pin D (fold (drive D) cs d) = in_pin D d"
  using assms(2)
proof (induction cs arbitrary: d)
  case (Cons c cs)
  have "in_pin D (drive D c d) = in_pin D d"
    using Cons.prems [of c] by (intro routes_okD(9) [OF assms(1)]) auto
  then show ?case using Cons by simp
qed simp

section \<open>The pins of an object\<close>

text \<open>The number under which the driver hands a signal to the matrix, an argument of eight bits.\<close>

definition signal :: "nat \<Rightarrow> 32 word" where
  "signal k = ucast (of_nat k :: 8 word)"

definition push_pull :: "pad \<Rightarrow> bool" where
  "push_pull x \<longleftrightarrow> pad_dir x = Some GPIO_MODE_OUTPUT \<and> \<not> pull_up x \<and> \<not> pull_down x"

definition floating_input :: "pad \<Rightarrow> bool" where
  "floating_input x \<longleftrightarrow> pad_dir x = Some GPIO_MODE_INPUT \<and> \<not> pull_up x \<and> \<not> pull_down x"

text \<open>The pins while controller \<open>n\<close> has them, and after it has given them back.\<close>

definition pins_attached :: "'d pin_driver \<Rightarrow> spi_sdk \<Rightarrow> nat \<Rightarrow> int \<Rightarrow> int \<Rightarrow> int \<Rightarrow> 'd \<Rightarrow> bool" where
  "pins_attached D K n ck mi mo d \<longleftrightarrow>
     push_pull (pads D d ck) \<and> out_sig D d ck = signal (SPI_CLK_IDX K n)
     \<and> push_pull (pads D d mo) \<and> out_sig D d mo = signal (SPI_MOSI_IDX K n)
     \<and> floating_input (pads D d mi) \<and> uint (in_pin D d (signal (SPI_MISO_IDX K n))) = mi"

definition pins_released :: "'d pin_driver \<Rightarrow> spi_sdk \<Rightarrow> nat \<Rightarrow> int \<Rightarrow> int \<Rightarrow> int \<Rightarrow> 'd \<Rightarrow> bool" where
  "pins_released D K n ck mi mo d \<longleftrightarrow>
     (\<forall>q \<in> {ck, mi, mo}. floating_input (pads D d q))
     \<and> out_sig D d ck = MATRIX_DETACH_OUT_SIG \<and> out_sig D d mo = MATRIX_DETACH_OUT_SIG
     \<and> in_pin D d (signal (SPI_MISO_IDX K n)) = MATRIX_DETACH_IN_LOW_PIN"

lemma pin_number:
  fixes w :: "8 word"
  assumes "0 \<le> sint w"
  shows "uint (ucast w :: 32 word) = sint w"
proof -
  have "uint w = take_bit 8 (sint w)" by (simp add: uint_sint)
  also have "\<dots> = sint w"
    using assms sint_lt [of w] by (intro take_bit_int_eq_self) simp_all
  finally have "uint w = sint w" .
  moreover have "uint (ucast w :: 32 word) = uint w" by (rule uint_up_ucast) (simp add: is_up)
  ultimately show ?thesis by simp
qed

text \<open>What the calls that configure and route a pin leave behind.\<close>

lemma stays_detached:
  assumes "routes_ok D P" and "p \<in> P" and "out_sig D d p = MATRIX_DETACH_OUT_SIG"
  shows "out_sig D (drive D (gpio_set_direction q m) d) p = MATRIX_DETACH_OUT_SIG"
  using routes_okD(5) [OF assms(1,2), of q m d] assms(3) by simp

lemma attach_pins:
  assumes "routes_ok D P" and "P \<subseteq> {0..}" and "distinct [ck, mi, mo]" and "{ck, mi, mo} \<subseteq> P"
    and "ck = sint (sck_pin n clk)" "mi = sint (miso_pin n miso)" "mo = sint (mosi_pin n mosi)"
  shows "pins_attached D K n ck mi mo (fold (drive D) (attach_log K n clk miso mosi) d)"
    and "q \<in> P - {ck, mi, mo} \<Longrightarrow> pads D (fold (drive D) (attach_log K n clk miso mosi) d) q = pads D d q
      \<and> out_sig D (fold (drive D) (attach_log K n clk miso mosi) d) q = out_sig D d q"
proof -
  have P: "ck \<in> P" "mi \<in> P" "mo \<in> P" "0 \<le> ck" "0 \<le> mi" "0 \<le> mo"
    using assms(2,4) by auto
  have log: "attach_log K n clk miso mosi = pinMode_calls ck RAW_OUTPUT
      @ [gpio_matrix_out (ucast (sck_pin n clk)) (signal (SPI_CLK_IDX K n)) False False]
      @ pinMode_calls mi RAW_INPUT @ [gpio_matrix_in (ucast (miso_pin n miso)) (signal (SPI_MISO_IDX K n)) False]
      @ pinMode_calls mo RAW_OUTPUT
      @ [gpio_matrix_out (ucast (mosi_pin n mosi)) (signal (SPI_MOSI_IDX K n)) False False]"
    by (simp add: attach_log_def assms(5-7) pinMatrixOutAttach_def pinMatrixInAttach_def signal_def Let_def)
  have num: "uint (ucast (sck_pin n clk) :: 32 word) = ck" "uint (ucast (miso_pin n miso) :: 32 word) = mi"
    "uint (ucast (mosi_pin n mosi) :: 32 word) = mo"
    using P assms(5-7) by (simp_all add: pin_number)
  note r = routes_okD [OF assms(1)]
  note modes = pinMode_calls_def RAW_INPUT_def RAW_OUTPUT_def RAW_OUTPUT_OPENDRAIN_def
  show "pins_attached D K n ck mi mo (fold (drive D) (attach_log K n clk miso mosi) d)"
    using assms(3) P
    by (simp add: pins_attached_def routed_pads [OF assms(1)] push_pull_def floating_input_def del: fold.simps fold_append)
      (simp add: log modes num r push_pull_def floating_input_def)
  show "q \<in> P - {ck, mi, mo} \<Longrightarrow> pads D (fold (drive D) (attach_log K n clk miso mosi) d) q = pads D d q
      \<and> out_sig D (fold (drive D) (attach_log K n clk miso mosi) d) q = out_sig D d q"
    by (simp add: routed_pads [OF assms(1)] del: fold.simps fold_append) (auto simp: log modes num r)
qed

lemma detach_pins:
  assumes "routes_ok D P" and "P \<subseteq> {0..}" and "distinct [ck, mi, mo]" and "{ck, mi, mo} \<subseteq> P"
    and "ck = sint (sck_pin n clk)" "mi = sint (miso_pin n miso)" "mo = sint (mosi_pin n mosi)"
  shows "pins_released D K n ck mi mo (fold (drive D) (detach_log K n clk miso mosi) d)"
    and "q \<in> P - {ck, mi, mo} \<Longrightarrow> pads D (fold (drive D) (detach_log K n clk miso mosi) d) q = pads D d q
      \<and> out_sig D (fold (drive D) (detach_log K n clk miso mosi) d) q = out_sig D d q"
proof -
  have P: "ck \<in> P" "mi \<in> P" "mo \<in> P" "0 \<le> ck" "0 \<le> mi" "0 \<le> mo"
    using assms(2,4) by auto
  have log: "detach_log K n clk miso mosi =
      [gpio_matrix_out (ucast (mosi_pin n mosi)) MATRIX_DETACH_OUT_SIG False False] @ pinMode_calls mo RAW_INPUT
      @ [gpio_matrix_in MATRIX_DETACH_IN_LOW_PIN (signal (SPI_MISO_IDX K n)) False] @ pinMode_calls mi RAW_INPUT
      @ [gpio_matrix_out (ucast (sck_pin n clk)) MATRIX_DETACH_OUT_SIG False False] @ pinMode_calls ck RAW_INPUT"
    by (simp add: detach_log_def assms(5-7) pinMatrixOutDetach_def pinMatrixInDetach_def signal_def Let_def)
  have num: "uint (ucast (sck_pin n clk) :: 32 word) = ck" "uint (ucast (mosi_pin n mosi) :: 32 word) = mo"
    using P assms(5-7) by (simp_all add: pin_number)
  note r = routes_okD [OF assms(1)] stays_detached [OF assms(1)]
  note modes = pinMode_calls_def RAW_INPUT_def RAW_OUTPUT_def RAW_OUTPUT_OPENDRAIN_def
  show "pins_released D K n ck mi mo (fold (drive D) (detach_log K n clk miso mosi) d)"
    using assms(3) P
    by (simp add: pins_released_def routed_pads [OF assms(1)] floating_input_def del: fold.simps fold_append)
      (simp add: log modes num r floating_input_def)
  show "q \<in> P - {ck, mi, mo} \<Longrightarrow> pads D (fold (drive D) (detach_log K n clk miso mosi) d) q = pads D d q
      \<and> out_sig D (fold (drive D) (detach_log K n clk miso mosi) d) q = out_sig D d q"
    by (simp add: routed_pads [OF assms(1)] del: fold.simps fold_append) (auto simp: log modes num r)
qed

text \<open>The chip-select writes leave a deselected pin as it was, and every other pin and route alone.\<close>

lemma latch_high: "latch (x :: pad) \<Longrightarrow> x\<lparr>latch := True\<rparr> = x"
  by (cases x) simp

lemma frames_pad:
  assumes "q = p \<Longrightarrow> latch x"
  shows "fold pad_effect (filter (\<lambda>c. \<not> is_matrix c \<and> call_pin c = q) (frames p us)) x = x"
  using assms by (induction p us rule: frames.induct) (auto simp: latch_high)

lemma frames_calls: "c \<in> set (frames p us) \<Longrightarrow> \<exists>v. c = gpio_set_level p v"
  by (induction p us rule: frames.induct) auto

lemma frames_pins:
  assumes "routes_ok D P" and "q \<in> P" and "q = p \<Longrightarrow> latch (pads D d q)"
  shows "pads D (fold (drive D) (frames p us) d) q = pads D d q"
    and "out_sig D (fold (drive D) (frames p us) d) q = out_sig D d q"
    and "in_pin D (fold (drive D) (frames p us) d) = in_pin D d"
proof -
  show "pads D (fold (drive D) (frames p us) d) q = pads D d q"
    using frames_pad [of q p "pads D d q"] assms by (simp add: routed_pads)
  have "out_sig D (drive D (gpio_set_level p v) d) q = out_sig D d q" for v d
    by (rule routes_okD(4) [OF assms(1,2)]) simp_all
  then show "out_sig D (fold (drive D) (frames p us) d) q = out_sig D d q"
    by (induction p us arbitrary: d rule: frames.induct) simp_all
  show "in_pin D (fold (drive D) (frames p us) d) = in_pin D d"
    by (rule routed_in [OF assms(1)]) (auto dest: frames_calls)
qed

end
