(* ===== verification/Tasks.thy ===== *)
theory Tasks
  imports Prelude
begin

text \<open>
  Tasks that share a state.  A task is a list of statements, of which one runs at a time, in any
  interleaving with those of the other tasks; a statement that does not return in the current state
  (taking a mutex that is held) blocks its task.  For tasks all of whose work is bracketed by one
  lock, every interleaving is a serial execution of the brackets and no state is a deadlock; this is
  proved once, for any lock, in the locale \<open>exclusive_lock\<close>.
\<close>

section \<open>Statements and interleavings\<close>

text \<open>A statement is a step, or reads the state and continues with statements that depend on it.\<close>

datatype ('e, 's) stmt = Do "('e, 's) step" | Read "'s \<Rightarrow> ('e, 's) stmt list"

type_synonym ('e, 's) tasks = "nat \<Rightarrow> ('e, 's) stmt list"

text \<open>What a statement does when it runs alone.\<close>

primrec alone :: "('e, 's) stmt \<Rightarrow> ('e, 's) step" where
  "alone (Do c) = c"
| "alone (Read f) = (\<lambda>s. exec ((map alone \<circ> f) s) s)"

inductive task_step :: "('e, 's) tasks \<times> 's \<Rightarrow> ('e, 's) tasks \<times> 's \<Rightarrow> bool" where
  run_do: "ps i = Do c # cs \<Longrightarrow> c s = Inr t \<Longrightarrow> task_step (ps, s) (ps(i := cs), t)"
| run_read: "ps i = Read f # cs \<Longrightarrow> task_step (ps, s) (ps(i := f s @ cs), s)"

inductive_cases task_stepE [consumes 1, case_names run_do run_read]: "task_step (ps, s) (qs, t)"

abbreviation task_run :: "('e, 's) tasks \<times> 's \<Rightarrow> ('e, 's) tasks \<times> 's \<Rightarrow> bool" where
  "task_run \<equiv> task_step\<^sup>*\<^sup>*"

definition finished :: "('e, 's) tasks \<Rightarrow> bool" where
  "finished ps \<longleftrightarrow> (\<forall>i. ps i = [])"

text \<open>One task running while the others wait is an interleaving.\<close>

lemma run_alone:
  "ps i = map Do cs @ ds \<Longrightarrow> exec cs s = Inr t \<Longrightarrow> task_run (ps, s) (ps(i := ds), t)"
proof (induction cs arbitrary: ps s)
  case Nil
  then have "ps(i := ds) = ps" by (simp add: fun_upd_idem)
  with Nil show ?case by simp
next
  case (Cons c cs)
  then obtain u where u: "c s = Inr u" "exec cs u = Inr t" by (auto simp: bindr_eq_Inr_iff)
  let ?qs = "ps(i := map Do cs @ ds)"
  have "task_step (ps, s) (?qs, u)" using run_do [of ps i c "map Do cs @ ds" s u] Cons.prems(1) u(1) by simp
  moreover have "task_run (?qs, u) (ps(i := ds), t)" using Cons.IH [of ?qs, OF fun_upd_same u(2)] by (simp only: fun_upd_upd)
  ultimately show ?case by (rule converse_rtranclp_into_rtranclp)
qed

section \<open>Brackets\<close>

definition bracket :: "('e, 's) step \<Rightarrow> ('e, 's) step \<Rightarrow> ('e, 's) step list \<Rightarrow> ('e, 's) step list" where
  "bracket acquire release cs = acquire # cs @ [release]"

definition bracket_prog ::
  "('e, 's) step \<Rightarrow> ('e, 's) step \<Rightarrow> ('a \<Rightarrow> ('e, 's) step list) \<Rightarrow> 'a list \<Rightarrow> ('e, 's) stmt list" where
  "bracket_prog acquire release body as = concat (map (\<lambda>a. map Do (bracket acquire release (body a))) as)"

lemma bracket_prog_simps [simp]:
  "bracket_prog acquire release body [] = []"
  "bracket_prog acquire release body (a # as) =
     Do acquire # map Do (body a) @ Do release # bracket_prog acquire release body as"
  by (simp_all add: bracket_prog_def bracket_def)

text \<open>A log lists the brackets that have been completed, each with its task, in the order of completion;
  \<open>replay\<close> executes them one after the other.\<close>

definition done_by :: "nat \<Rightarrow> (nat \<times> 'a) list \<Rightarrow> 'a list" where
  "done_by i log = map snd (filter (\<lambda>e. fst e = i) log)"

lemma done_by_snoc: "done_by i (log @ [(k, a)]) = done_by i log @ (if i = k then [a] else [])"
  by (simp add: done_by_def)

definition replay ::
  "('e, 's) step \<Rightarrow> ('e, 's) step \<Rightarrow> ('a \<Rightarrow> ('e, 's) step list) \<Rightarrow> (nat \<times> 'a) list \<Rightarrow> ('e, 's) step" where
  "replay acquire release body log = exec (map (\<lambda>e. exec (bracket acquire release (body (snd e)))) log)"

lemma replay_snoc:
  assumes "replay acquire release body log s = Inr u" and "exec (bracket acquire release (body a)) u = Inr t"
  shows "replay acquire release body (log @ [(k, a)]) s = Inr t"
  using assms by (simp add: replay_def exec_append)

text \<open>Between two brackets, and inside the bracket \<open>a\<close> of task \<open>k\<close>, of which \<open>pre\<close> has run.\<close>

definition between ::
  "('e, 's) step \<Rightarrow> ('e, 's) step \<Rightarrow> ('a \<Rightarrow> ('e, 's) step list) \<Rightarrow> (nat \<Rightarrow> 'a list) \<Rightarrow> 's
     \<Rightarrow> (nat \<times> 'a) list \<Rightarrow> ('e, 's) tasks \<times> 's \<Rightarrow> bool" where
  "between acquire release body calls s0 log c \<longleftrightarrow>
     replay acquire release body log s0 = Inr (snd c)
     \<and> (\<forall>i. \<exists>todo. calls i = done_by i log @ todo \<and> fst c i = bracket_prog acquire release body todo)"

definition inside ::
  "('e, 's) step \<Rightarrow> ('e, 's) step \<Rightarrow> ('a \<Rightarrow> ('e, 's) step list) \<Rightarrow> (nat \<Rightarrow> 'a list) \<Rightarrow> 's
     \<Rightarrow> (nat \<times> 'a) list \<Rightarrow> nat \<Rightarrow> 'a \<Rightarrow> ('e, 's) step list \<Rightarrow> ('e, 's) tasks \<times> 's \<Rightarrow> bool" where
  "inside acquire release body calls s0 log k a post c \<longleftrightarrow>
     (\<exists>u pre. replay acquire release body log s0 = Inr u \<and> body a = pre @ post
        \<and> exec (acquire # pre) u = Inr (snd c))
     \<and> (\<exists>todo. calls k = done_by k log @ a # todo
          \<and> fst c k = map Do post @ Do release # bracket_prog acquire release body todo)
     \<and> (\<forall>i. i \<noteq> k \<longrightarrow> (\<exists>todo. calls i = done_by i log @ todo \<and> fst c i = bracket_prog acquire release body todo))"

section \<open>Serialisation\<close>

text \<open>What is asked of the statements of a bracket: not to touch the lock, and to return.\<close>

definition keeps :: "('s \<Rightarrow> bool) \<Rightarrow> ('e, 's) step list \<Rightarrow> bool" where
  "keeps P cs \<longleftrightarrow> (\<forall>c \<in> set cs. \<forall>s t. P s \<longrightarrow> c s = Inr t \<longrightarrow> P t)"

definition total_on :: "('s \<Rightarrow> bool) \<Rightarrow> ('e, 's) step list \<Rightarrow> bool" where
  "total_on P cs \<longleftrightarrow> (\<forall>c \<in> set cs. \<forall>s. P s \<longrightarrow> (\<exists>t. c s = Inr t \<and> P t))"

lemma keepsD: "keeps P cs \<Longrightarrow> c \<in> set cs \<Longrightarrow> P s \<Longrightarrow> c s = Inr t \<Longrightarrow> P t"
  unfolding keeps_def by blast

lemma total_onD: "total_on P cs \<Longrightarrow> c \<in> set cs \<Longrightarrow> P s \<Longrightarrow> \<exists>t. c s = Inr t \<and> P t"
  unfolding total_on_def by blast

lemma total_on_keeps: "total_on P cs \<Longrightarrow> keeps P cs"
  unfolding total_on_def keeps_def by fastforce

locale exclusive_lock =
  fixes acquire release :: "('e, 's) step" and free taken :: "'s \<Rightarrow> bool"
  assumes acquire_iff: "free s \<longleftrightarrow> (\<exists>t. acquire s = Inr t)"
    and acquire_takes: "acquire s = Inr t \<Longrightarrow> taken t"
    and taken_not_free: "taken s \<Longrightarrow> \<not> free s"
    and release_frees: "taken s \<Longrightarrow> \<exists>t. release s = Inr t \<and> free t"
begin

lemma between_step:
  assumes "between acquire release body calls s0 log (ps, s)" and "task_step (ps, s) (qs, t)"
  shows "\<exists>k a. inside acquire release body calls s0 log k a (body a) (qs, t) \<and> taken t"
proof -
  have todo: "\<exists>todo. calls i = done_by i log @ todo \<and> ps i = bracket_prog acquire release body todo" for i
    using assms(1) by (simp add: between_def)
  from assms(2) show ?thesis
  proof (cases rule: task_stepE)
    case (run_do i c cs)
    note 1 = this
    obtain ts where ts: "calls i = done_by i log @ ts" "ps i = bracket_prog acquire release body ts"
      using todo by blast
    with 1 obtain a as where as: "ts = a # as" by (cases ts) auto
    have c: "c = acquire" "cs = map Do (body a) @ Do release # bracket_prog acquire release body as"
      using 1 ts as by auto
    have "inside acquire release body calls s0 log i a (body a) (qs, t)"
      unfolding inside_def using assms(1) 1 c ts as todo by (auto simp: between_def)
    with acquire_takes [of s t] 1 c show ?thesis by blast
  next
    case (run_read i f cs)
    note 2 = this
    obtain ts where "ps i = bracket_prog acquire release body ts" using todo by blast
    with 2 show ?thesis by (cases ts) auto
  qed
qed

lemma inside_step:
  assumes "inside acquire release body calls s0 log k a post (ps, s)" and "taken s"
    and "task_step (ps, s) (qs, t)"
    and keep: "keeps taken (body a)"
  shows "(\<exists>c post'. post = c # post' \<and> inside acquire release body calls s0 log k a post' (qs, t) \<and> taken t)
    \<or> (between acquire release body calls s0 (log @ [(k, a)]) (qs, t) \<and> free t)"
proof -
  obtain u pre ts where u: "replay acquire release body log s0 = Inr u" "body a = pre @ post"
    "exec (acquire # pre) u = Inr s"
    and ts: "calls k = done_by k log @ a # ts" "ps k = map Do post @ Do release # bracket_prog acquire release body ts"
    using assms(1) by (auto simp: inside_def)
  have others: "\<exists>todo. calls i = done_by i log @ todo \<and> ps i = bracket_prog acquire release body todo"
    if "i \<noteq> k" for i
    using assms(1) that by (auto simp: inside_def)
  have blocked: "acquire s \<noteq> Inr t" for t
    using acquire_iff [of s] taken_not_free [OF assms(2)] by blast
  have mover: "i = k" if "ps i = Do c # cs" "c s = Inr t" for i c cs
  proof (rule ccontr)
    assume "i \<noteq> k"
    then obtain todo where "ps i = bracket_prog acquire release body todo" using others by blast
    with that blocked show False by (cases todo) auto
  qed
  have reader: "ps i \<noteq> Read f # cs" for i f cs
  proof (cases "i = k")
    case True
    then show ?thesis using ts by (cases post) auto
  next
    case False
    then obtain todo where "ps i = bracket_prog acquire release body todo" using others by blast
    then show ?thesis by (cases todo) auto
  qed
  have "\<exists>c cs. ps k = Do c # cs \<and> c s = Inr t \<and> qs = ps(k := cs)"
    using assms(3)
  proof (cases rule: task_stepE)
    case (run_do i c cs)
    with mover [of i c cs] show ?thesis by auto
  next
    case (run_read i f cs)
    with reader [of i f cs] show ?thesis by simp
  qed
  then obtain c cs where c: "ps k = Do c # cs" "c s = Inr t" "qs = ps(k := cs)" by blast
  show ?thesis
  proof (cases post)
    case (Cons d post')
    then have d: "d = c" "cs = map Do post' @ Do release # bracket_prog acquire release body ts" using ts c by auto
    have "exec (acquire # pre @ [c]) u = Inr t" using u(3) c(2) by (auto simp: exec_append bindr_eq_Inr_iff)
    moreover have "body a = (pre @ [c]) @ post'" using u(2) Cons d by simp
    ultimately have "inside acquire release body calls s0 log k a post' (qs, t)"
      unfolding inside_def using u(1) ts(1) c(3) d others
      by (intro conjI exI [of _ u] exI [of _ "pre @ [c]"]) auto
    moreover have "taken t" using keepsD [OF keep, of c s t] u(2) Cons d assms(2) c(2) by simp
    ultimately show ?thesis using Cons by blast
  next
    case Nil
    then have d: "c = release" "cs = bracket_prog acquire release body ts" using ts c by auto
    have "exec (bracket acquire release (body a)) u = Inr t"
      using u Nil c(2) d by (auto simp: bracket_def exec_append bindr_eq_Inr_iff)
    then have "replay acquire release body (log @ [(k, a)]) s0 = Inr t" by (rule replay_snoc [OF u(1)])
    then have "between acquire release body calls s0 (log @ [(k, a)]) (qs, t)"
      using ts(1) c(3) d others by (auto simp: between_def done_by_snoc)
    moreover have "free t" using release_frees [OF assms(2)] c(2) d by auto
    ultimately show ?thesis by blast
  qed
qed

text \<open>Every reachable configuration is between two brackets or inside exactly one.\<close>

lemma serialised:
  assumes "task_run (\<lambda>i. bracket_prog acquire release body (calls i), s0) c" and "free s0"
    and keep: "\<forall>i. \<forall>a \<in> set (calls i). keeps taken (body a)"
  shows "\<exists>log. (between acquire release body calls s0 log c \<and> free (snd c))
    \<or> (\<exists>k a post. inside acquire release body calls s0 log k a post c \<and> taken (snd c))"
  using assms(1)
proof (induction rule: rtranclp_induct)
  case base
  have "between acquire release body calls s0 [] (\<lambda>i. bracket_prog acquire release body (calls i), s0)"
    by (simp add: between_def replay_def done_by_def)
  with assms(2) show ?case by auto
next
  case (step c d)
  obtain ps s where c: "c = (ps, s)" by (cases c)
  obtain qs t where d: "d = (qs, t)" by (cases d)
  from step.IH obtain log where
    "(between acquire release body calls s0 log c \<and> free (snd c))
     \<or> (\<exists>k a post. inside acquire release body calls s0 log k a post c \<and> taken (snd c))"
    by blast
  then show ?case
  proof (elim disjE exE conjE)
    assume "between acquire release body calls s0 log c"
    then show ?thesis using between_step [of body calls s0 log ps s qs t] step.hyps(2) c d by fastforce
  next
    fix k a post
    assume i: "inside acquire release body calls s0 log k a post c" and tk: "taken (snd c)"
    have a: "a \<in> set (calls k)" using i by (auto simp: inside_def)
    show ?thesis
      using inside_step [of body calls s0 log k a post ps s qs t] i tk step.hyps(2) c d keep a by fastforce
  qed
qed

text \<open>When all tasks have finished, the calls have been executed one after the other.\<close>

lemma finished_serial:
  assumes "task_run (\<lambda>i. bracket_prog acquire release body (calls i), s0) (ps, t)" and "free s0" and "finished ps"
    and keep: "\<forall>i. \<forall>a \<in> set (calls i). keeps taken (body a)"
  shows "\<exists>log. (\<forall>i. done_by i log = calls i) \<and> replay acquire release body log s0 = Inr t \<and> free t"
proof -
  obtain log where log: "(between acquire release body calls s0 log (ps, t) \<and> free t)
      \<or> (\<exists>k a post. inside acquire release body calls s0 log k a post (ps, t) \<and> taken t)"
    using serialised [OF assms(1,2) keep] by auto
  have "\<not> inside acquire release body calls s0 log k a post (ps, t)" for k a post
    using assms(3) by (auto simp: inside_def finished_def)
  with log have b: "between acquire release body calls s0 log (ps, t)" "free t" by auto
  have "done_by i log = calls i" for i
  proof -
    obtain ts where ts: "calls i = done_by i log @ ts" "ps i = bracket_prog acquire release body ts"
      using b by (auto simp: between_def)
    moreover have "ts = []" using ts(2) assms(3) by (cases ts) (auto simp: finished_def)
    ultimately show ?thesis by simp
  qed
  with b show ?thesis by (auto simp: between_def)
qed

text \<open>No reachable configuration is a deadlock.\<close>

lemma never_deadlocked:
  assumes "task_run (\<lambda>i. bracket_prog acquire release body (calls i), s0) (ps, s)" and "free s0" and "\<not> finished ps"
    and runs: "\<forall>i. \<forall>a \<in> set (calls i). total_on taken (body a)"
  shows "\<exists>d. task_step (ps, s) d"
proof -
  have keep: "\<forall>i. \<forall>a \<in> set (calls i). keeps taken (body a)"
    using runs by (blast intro: total_on_keeps)
  obtain log where "(between acquire release body calls s0 log (ps, s) \<and> free s)
      \<or> (\<exists>k a post. inside acquire release body calls s0 log k a post (ps, s) \<and> taken s)"
    using serialised [OF assms(1,2) keep] by auto
  then show ?thesis
  proof (elim disjE exE conjE)
    assume b: "between acquire release body calls s0 log (ps, s)" and "free s"
    obtain i where "ps i \<noteq> []" using assms(3) by (auto simp: finished_def)
    moreover obtain ts where "ps i = bracket_prog acquire release body ts" using b by (auto simp: between_def)
    ultimately obtain cs where "ps i = Do acquire # cs" by (cases ts) auto
    moreover obtain t where "acquire s = Inr t" using \<open>free s\<close> acquire_iff by blast
    ultimately show ?thesis by (blast intro: run_do)
  next
    fix k a post
    assume i: "inside acquire release body calls s0 log k a post (ps, s)" and tk: "taken s"
    then obtain ts where a: "a \<in> set (calls k)" "set post \<subseteq> set (body a)"
      and p: "ps k = map Do post @ Do release # bracket_prog acquire release body ts"
      by (auto simp: inside_def)
    show ?thesis
    proof (cases post)
      case Nil
      then show ?thesis using p release_frees [OF tk] by (auto intro: run_do)
    next
      case (Cons c post')
      then obtain t where "c s = Inr t" using total_onD [of taken "body a" c s] runs a tk by auto
      with p Cons show ?thesis by (auto intro: run_do)
    qed
  qed
qed

end

end
