(* ===== verification/Spi_Tasks.thy ===== *)
theory Spi_Tasks
  imports Spi_Locks Tasks
begin

text \<open>
  Several tasks on one bus of \<^verbatim>\<open>esp32/esp32spi.c\<close>.  Every call is written as the list of its statements, so
  that the statements of different tasks can interleave; a task that takes the mutex while another
  holds it waits.  One statement is a register access, a run of \<^verbatim>\<open>data_buf\<close> accesses, a busy-wait on
  \<^verbatim>\<open>cmd.usr\<close>, or the loop of \<open>spiTransferBytes\<close> and the body of \<open>spiTransferBitsNL\<close>, which only the
  holder of the mutex runs.  Returned values are dropped.
\<close>

section \<open>The calls as lists of statements\<close>

text \<open>The calls that are one bracket of the mutex and nothing else.\<close>

fun one_bracket :: "bus_op \<Rightarrow> bool" where
  "one_bracket (WriteWord d) = False"
| "one_bracket (WriteLong w) = False"
| "one_bracket (TransferWord d) = False"
| "one_bracket (TransferLong w) = False"
| "one_bracket (AttachSS c p) = False"
| "one_bracket op = takes_mutex op"

fun bracket_body :: "'h spi_env \<Rightarrow> nat \<Rightarrow> bus_op \<Rightarrow> (spi_fault, 'h spi_state) step list" where
  "bracket_body E n (AttachMISO p) =
     [emit (pinMode_calls (sint (miso_pin n p)) RAW_INPUT),
      emit (pinMatrixInAttach (miso_pin n p) (of_nat (SPI_MISO_IDX (sdk E) n)) False)]"
| "bracket_body E n (EnableSSPins m) = [reg n (\<lambda>d. d\<lparr>pin := pin d AND NOT (ucast m AND SPI_CS_MASK_ALL)\<rparr>)]"
| "bracket_body E n (DisableSSPins m) = [reg n (\<lambda>d. d\<lparr>pin := pin d OR (ucast m AND SPI_CS_MASK_ALL)\<rparr>)]"
| "bracket_body E n SSEnable =
     [reg n (\<lambda>d. d\<lparr>user := put_bit (b_cs_setup (layout E)) True (user d)\<rparr>),
      reg n (\<lambda>d. d\<lparr>user := put_bit (b_cs_hold (layout E)) True (user d)\<rparr>)]"
| "bracket_body E n SSDisable =
     [reg n (\<lambda>d. d\<lparr>user := put_bit (b_cs_setup (layout E)) False (user d)\<rparr>),
      reg n (\<lambda>d. d\<lparr>user := put_bit (b_cs_hold (layout E)) False (user d)\<rparr>)]"
| "bracket_body E n SSSet = [reg n (\<lambda>d. d\<lparr>pin := put_bit (b_cs_keep_active (layout E)) True (pin d)\<rparr>)]"
| "bracket_body E n SSClear = [reg n (\<lambda>d. d\<lparr>pin := put_bit (b_cs_keep_active (layout E)) False (pin d)\<rparr>)]"
| "bracket_body E n (SetClockDiv v) = [reg n (\<lambda>d. d\<lparr>clock := v\<rparr>)]"
| "bracket_body E n (SetDataMode m) = mode_switch E n m"
| "bracket_body E n (SetBitOrder b) = order_switch E n b"
| "bracket_body E n StopBus =
     [reg n (\<lambda>d. d\<lparr>slave := put_bit (b_trans_done (layout E)) False (slave d)\<rparr>),
      reg n (\<lambda>d. d\<lparr>slave := put_bit (b_slave_mode (layout E)) False (slave d)\<rparr>),
      reg n (\<lambda>d. d\<lparr>pin := 0\<rparr>), reg n (\<lambda>d. d\<lparr>user := 0\<rparr>), reg n (\<lambda>d. d\<lparr>user1 := 0\<rparr>),
      reg n (\<lambda>d. d\<lparr>ctrl := 0\<rparr>), reg n (\<lambda>d. d\<lparr>ctrl1 := 0\<rparr>), reg n (\<lambda>d. d\<lparr>ctrl2 := 0\<rparr>),
      reg n (\<lambda>d. d\<lparr>clock := 0\<rparr>)]"
| "bracket_body E n (Write data len) =
     [set_mosi_dlen E n (ucast (min len 16) * 32 - 1), set_miso_dlen E n 0,
      fifo_from n (unat (min len 16)) data] @ run_usr E n"
| "bracket_body E n (Transfer data len) =
     [set_mosi_dlen E n (ucast (min len 16) * 32 - 1), set_miso_dlen E n (ucast (min len 16) * 32 - 1),
      fifo_from n (unat (min len 16)) data] @ run_usr E n @ [fifo_to n (unat (min len 16)) data]"
| "bracket_body E n (WriteByte b) = word_write E n 7 (ucast b)"
| "bracket_body E n (TransferByte b) = word_exchange E n 7 (ucast b)"
| "bracket_body E n (TransferBytes data out sz) = [spiTransferBytes_loop E n data out (unat sz)]"
| "bracket_body E n (TransferBits data out bits) = [spiTransferBitsNL E (Some n) data out bits]"
| "bracket_body E n _ = []"

abbreviation bus_bracket ::
  "nat \<Rightarrow> (spi_fault, 'h spi_state) step list \<Rightarrow> (spi_fault, 'h spi_state) stmt list" where
  "bus_bracket n cs \<equiv> map Do (bracket (mutex_lock n) (mutex_unlock n) cs)"

fun op_prog :: "'h spi_env \<Rightarrow> nat \<Rightarrow> bus_op \<Rightarrow> (spi_fault, 'h spi_state) stmt list" where
  "op_prog E n (WriteWord d) = [Read (\<lambda>s. bus_bracket n
     (word_write E n 15 (ucast (if \<not> wr_lsb E n s then swap16 d else d))))]"
| "op_prog E n (WriteLong w) = [Read (\<lambda>s. bus_bracket n
     (word_write E n 31 (if \<not> wr_lsb E n s then spiTranslate32 w else w)))]"
| "op_prog E n (TransferWord d) = [Read (\<lambda>s. bus_bracket n
     (word_exchange E n 15 (ucast (if \<not> wr_lsb E n s then swap16 d else d))))]"
| "op_prog E n (TransferLong w) = [Read (\<lambda>s. bus_bracket n
     (word_exchange E n 31 (if \<not> wr_lsb E n s then spiTranslate32 w else w)))]"
| "op_prog E n (AttachSCK p) =
     [Do (emit (pinMode_calls (sint (sck_pin n p)) RAW_OUTPUT)),
      Do (emit (pinMatrixOutAttach (sck_pin n p) (of_nat (SPI_CLK_IDX (sdk E) n)) False False))]"
| "op_prog E n (AttachMOSI p) =
     [Do (emit (pinMode_calls (sint (mosi_pin n p)) RAW_OUTPUT)),
      Do (emit (pinMatrixOutAttach (mosi_pin n p) (of_nat (SPI_MOSI_IDX (sdk E) n)) False False))]"
| "op_prog E n (DetachSCK p) =
     [Do (emit (pinMatrixOutDetach (sck_pin n p) False False)),
      Do (emit (pinMode_calls (sint (sck_pin n p)) RAW_INPUT))]"
| "op_prog E n (DetachMISO p) =
     [Do (emit (pinMatrixInDetach (of_nat (SPI_MISO_IDX (sdk E) n)) False False)),
      Do (emit (pinMode_calls (sint (miso_pin n p)) RAW_INPUT))]"
| "op_prog E n (DetachMOSI p) =
     [Do (emit (pinMatrixOutDetach (mosi_pin n p) False False)),
      Do (emit (pinMode_calls (sint (mosi_pin n p)) RAW_INPUT))]"
| "op_prog E n (DetachSS p) =
     [Do (emit (pinMatrixOutDetach (ss_pin n p) False False)),
      Do (emit (pinMode_calls (sint (ss_pin n p)) RAW_INPUT))]"
| "op_prog E n (AttachSS c p) =
     (if c > 2 then [] else
      let c = (if sint p < 0 then 0 else c); p = ss_pin n p in
      [Do (emit (pinMode_calls (sint p) RAW_OUTPUT)),
       Do (emit (pinMatrixOutAttach p (of_nat (SPI_SS_IDX (sdk E) n (unat c))) False False))]
      @ bus_bracket n (bracket_body E n (EnableSSPins (push_bit (unat c) 1))))"
| "op_prog E n WaitReady = [Do (wait_usr E n)]"
| "op_prog E n op = bus_bracket n (bracket_body E n op)"

section \<open>A call running alone\<close>

lemma exec_bracket: "exec (bracket (mutex_lock n) (mutex_unlock n) cs) = locked n cs"
  by (simp only: bracket_def locked_def)

lemma void_exchange:
  "void (\<lambda>s. bindr (locked_exchange E n k w s) (\<lambda>(r, s). Inr (f r s, s))) = locked n (word_exchange E n k w)"
proof
  fix s
  show "void (\<lambda>s. bindr (locked_exchange E n k w s) (\<lambda>(r, s). Inr (f r s, s))) s = locked n (word_exchange E n k w) s"
    unfolding void_def locked_exchange_def locked_def append_Cons [symmetric] exec_append
    by (cases "exec (mutex_lock n # word_exchange E n k w) s") (simp_all add: bindr_assoc split_def Let_def)
qed

lemma bracket_body_step: "one_bracket op \<Longrightarrow> locked n (bracket_body E n op) = bus_step E (Some n) op"
proof (cases op)
  case (TransferByte b)
  have "void (spiTransferByte E (Some n) b) = locked n (word_exchange E n 7 (ucast b))"
    using void_exchange [of E n 7 "ucast b" "\<lambda>r s. ucast (r AND 0xFF) :: byte"]
    by (simp add: spiTransferByte_def [abs_def])
  with TransferByte show ?thesis by simp
qed (simp_all add: spiAttachMISO_def spiEnableSSPins_def spiDisableSSPins_def spiSSEnable_def
    spiSSDisable_def spiSSSet_def spiSSClear_def spiSetClockDiv_def spiSetDataMode_def
    spiSetBitOrder_def spiStopBus_def spiWrite_eq spiTransfer_eq spiWriteByte_def
    spiTransferBytes_def spiTransferBits_def Let_def del: exec.simps)

lemma alone_Do [simp]: "map alone (map Do cs) = cs" "map (alone \<circ> Do) cs = cs"
  by (induction cs) simp_all

lemma exec_bus_bracket: "exec (map alone (bus_bracket n cs)) = locked n cs"
  by (simp only: alone_Do exec_bracket)

lemma void_value:
  "void (\<lambda>s. bindr (locked_exchange E n k (g s) s) (\<lambda>(r, s). Inr (f r s, s))) s =
     locked n (word_exchange E n k (g s)) s"
  using fun_cong [OF void_exchange [of E n k "g s" f], of s] by (simp add: void_def)

text \<open>The statements of a call, run by the only task, do what the call does.\<close>

lemma op_prog_alone: "exec (map alone (op_prog E n op)) s = bus_step E (Some n) op s"
proof (cases "one_bracket op")
  case True
  then have "op_prog E n op = bus_bracket n (bracket_body E n op)" by (cases op) simp_all
  then show ?thesis by (simp only: exec_bus_bracket bracket_body_step [OF True])
next
  case False
  show ?thesis
  proof (cases op)
    case (TransferWord d)
    have "void (spiTransferWord E (Some n) d) s =
        locked n (word_exchange E n 15 (ucast (if \<not> wr_lsb E n s then swap16 d else d))) s"
      using void_value [of E n 15 "\<lambda>s. ucast (if \<not> wr_lsb E n s then swap16 d else d)"
          "\<lambda>r s. let data = ucast r in if \<not> rd_lsb E n s then swap16 data else data" s]
      by (simp add: spiTransferWord_def [abs_def] Let_def)
    then show ?thesis by (simp add: TransferWord exec_bracket)
  next
    case (TransferLong w)
    have "void (spiTransferLong E (Some n) w) s =
        locked n (word_exchange E n 31 (if \<not> wr_lsb E n s then spiTranslate32 w else w)) s"
      using void_value [of E n 31 "\<lambda>s. if \<not> wr_lsb E n s then spiTranslate32 w else w"
          "\<lambda>r s. if \<not> rd_lsb E n s then spiTranslate32 r else r" s]
      by (simp add: spiTransferLong_def [abs_def] Let_def)
    then show ?thesis by (simp add: TransferLong exec_bracket)
  next
    case (AttachSS c p)
    then show ?thesis
      by (simp add: spiAttachSS_def spiEnableSSPins_def Let_def exec_bracket [symmetric] bracket_def
          exec_Cons_fun)
  qed (use False in \<open>simp_all add: exec_bracket spiWriteWord_def spiWriteLong_def spiAttachSCK_def
      spiAttachMOSI_def spiDetachSCK_def spiDetachMISO_def spiDetachMOSI_def spiDetachSS_def
      spiWaitReady_def Let_def del: exec.simps\<close>)
qed

section \<open>Items of work\<close>

text \<open>What a task does with the bus: one call, or a transaction (with or without a configuration) around
  lock-free calls, which the holder of the mutex makes one after the other.\<close>

datatype bus_item =
    Call bus_op
  | Burst "32 word" "8 word" "8 word" "burst_op list"
  | Simple "burst_op list"

primrec item_step :: "'h spi_env \<Rightarrow> nat \<Rightarrow> bus_item \<Rightarrow> (spi_fault, 'h spi_state) step" where
  "item_step E n (Call op) = bus_step E (Some n) op"
| "item_step E n (Burst c m b ops) =
     exec (spiTransaction E (Some n) c m b # map (burst_step E (Some n)) ops @ [spiEndTransaction (Some n)])"
| "item_step E n (Simple ops) =
     exec (spiSimpleTransaction (Some n) # map (burst_step E (Some n)) ops @ [spiEndTransaction (Some n)])"

primrec item_body :: "'h spi_env \<Rightarrow> nat \<Rightarrow> bus_item \<Rightarrow> (spi_fault, 'h spi_state) step list" where
  "item_body E n (Call op) = bracket_body E n op"
| "item_body E n (Burst c m b ops) =
     reg n (\<lambda>d. d\<lparr>clock := c\<rparr>) # mode_switch E n m @ order_switch E n b @ map (burst_step E (Some n)) ops"
| "item_body E n (Simple ops) = map (burst_step E (Some n)) ops"

primrec item_prog :: "'h spi_env \<Rightarrow> nat \<Rightarrow> bus_item \<Rightarrow> (spi_fault, 'h spi_state) stmt list" where
  "item_prog E n (Call op) = op_prog E n op"
| "item_prog E n (Burst c m b ops) = bus_bracket n (item_body E n (Burst c m b ops))"
| "item_prog E n (Simple ops) = bus_bracket n (item_body E n (Simple ops))"

fun bracketed :: "bus_item \<Rightarrow> bool" where
  "bracketed (Call op) = one_bracket op"
| "bracketed it = True"

fun item_buffers :: "bus_item \<Rightarrow> bool" where
  "item_buffers (Call op) = bus_buffers op"
| "item_buffers (Burst c m b ops) = (\<forall>op \<in> set ops. burst_buffers op)"
| "item_buffers (Simple ops) = (\<forall>op \<in> set ops. burst_buffers op)"

lemma item_body_step: "bracketed it \<Longrightarrow> locked n (item_body E n it) = item_step E n it"
proof (cases it)
  case (Burst c m b ops)
  have "locked n (item_body E n it) = exec ((mutex_lock n # reg n (\<lambda>d. d\<lparr>clock := c\<rparr>) # mode_switch E n m @ order_switch E n b)
      @ map (burst_step E (Some n)) ops @ [mutex_unlock n])"
    by (simp add: Burst locked_def del: exec.simps)
  also have "\<dots> = item_step E n it"
    by (rule ext) (simp add: Burst exec_append spiTransaction_def spiEndTransaction_def bindr_assoc exec_Cons_fun [abs_def]
        exec_append [abs_def])
  finally show ?thesis .
next
  case (Call op)
  moreover assume "bracketed it"
  ultimately show ?thesis by (simp only: item_body.simps item_step.simps bracketed.simps bracket_body_step)
qed (simp add: locked_def spiSimpleTransaction_def spiEndTransaction_def del: exec.simps)

text \<open>The statements of an item, run by the only task, do what the item does.\<close>

lemma item_prog_alone: "exec (map alone (item_prog E n it)) s = item_step E n it s"
proof (cases it)
  case (Call op)
  then show ?thesis by (simp only: item_prog.simps item_step.simps op_prog_alone)
next
  case (Burst c m b ops)
  have "exec (map alone (item_prog E n it)) = locked n (item_body E n it)"
    by (simp only: Burst item_prog.simps exec_bus_bracket)
  then show ?thesis using item_body_step [of it n E] Burst by simp
next
  case (Simple ops)
  have "exec (map alone (item_prog E n it)) = locked n (item_body E n it)"
    by (simp only: Simple item_prog.simps exec_bus_bracket)
  then show ?thesis using item_body_step [of it n E] Simple by simp
qed

section \<open>Serialisation\<close>

lemma bracket_body_quiet:
  assumes "controller_ok E xact" and "bus_buffers op" and "c \<in> set (bracket_body E n op)"
  shows "quiet c"
proof (cases op)
  case (Write data len)
  then obtain a where "data = Some a" using assms(2) by auto
  with Write assms(1,3) show ?thesis by (auto simp: run_usr_def unat_min_16 intro: quiets quiet_wait)
next
  case (Transfer data len)
  then obtain a where "data = Some a" using assms(2) by auto
  with Transfer assms(1,3) show ?thesis by (auto simp: run_usr_def unat_min_16 intro: quiets quiet_wait)
qed (use assms in \<open>auto simp: run_usr_def word_write_def word_exchange_def mode_switch_regs order_switch_regs
    intro: quiets quiet_wait quiet_bits quiet_bytes_loop split: if_splits\<close>)

lemma item_body_quiet:
  assumes "controller_ok E xact" and "item_buffers it" and "c \<in> set (item_body E n it)"
  shows "quiet c"
proof (cases it)
  case (Call op)
  then show ?thesis using bracket_body_quiet [OF assms(1)] assms(2,3) by simp
next
  case (Burst c' m b ops)
  then show ?thesis
    using assms(2,3) burst_quiet [OF assms(1)] by (auto simp: mode_switch_regs order_switch_regs intro: quiets split: if_splits)
next
  case (Simple ops)
  then show ?thesis using assms(2,3) burst_quiet [OF assms(1)] by auto
qed

interpretation bus_tasks: exclusive_lock "mutex_lock n" "mutex_unlock n"
    "\<lambda>s. lock_at s n = Some False" "\<lambda>s. lock_at s n = Some True" for n
  by unfold_locales (auto simp: mutex_lock_def mutex_unlock_def split: option.splits bool.splits if_splits)

text \<open>The tasks of a program: task \<open>i\<close> does the items \<open>calls i\<close>, one after the other.\<close>

definition bus_program :: "'h spi_env \<Rightarrow> nat \<Rightarrow> (nat \<Rightarrow> bus_item list) \<Rightarrow> (spi_fault, 'h spi_state) tasks" where
  "bus_program E n calls = (\<lambda>i. concat (map (item_prog E n) (calls i)))"

lemma op_prog_bracket: "one_bracket op \<Longrightarrow> op_prog E n op = bus_bracket n (bracket_body E n op)"
  by (cases op) simp_all

lemma item_prog_bracket: "bracketed it \<Longrightarrow> item_prog E n it = bus_bracket n (item_body E n it)"
  by (cases it) (simp_all only: item_prog.simps item_body.simps bracketed.simps op_prog_bracket)

lemma bus_program_brackets:
  assumes "\<forall>i. \<forall>it \<in> set (calls i). bracketed it"
  shows "bus_program E n calls = (\<lambda>i. bracket_prog (mutex_lock n) (mutex_unlock n) (item_body E n) (calls i))"
proof
  fix i
  have "map (item_prog E n) (calls i) = map (\<lambda>it. bus_bracket n (item_body E n it)) (calls i)"
    using assms by (intro map_cong refl item_prog_bracket) auto
  then show "bus_program E n calls i = bracket_prog (mutex_lock n) (mutex_unlock n) (item_body E n) (calls i)"
    by (simp only: bus_program_def bracket_prog_def)
qed

lemma bracket_bodies_total:
  assumes "controller_ok E xact" and "\<forall>i. \<forall>it \<in> set (calls i). item_buffers it"
  shows "\<forall>i. \<forall>it \<in> set (calls i). total_on (\<lambda>s. lock_at s n = Some True) (item_body E n it)"
  using item_body_quiet [OF assms(1)] assms(2) unfolding total_on_def quiet_def by metis

lemma replay_calls:
  assumes "\<forall>e \<in> set log. bracketed (snd e)"
  shows "replay (mutex_lock n) (mutex_unlock n) (item_body E n) log =
    exec (map (\<lambda>e. item_step E n (snd e)) log)"
proof -
  have "map (\<lambda>e. exec (bracket (mutex_lock n) (mutex_unlock n) (item_body E n (snd e)))) log =
      map (\<lambda>e. item_step E n (snd e)) log"
    using assms by (simp only: exec_bracket) (simp add: item_body_step)
  then show ?thesis by (simp only: replay_def)
qed

lemma done_by_log: "e \<in> set log \<Longrightarrow> snd e \<in> set (done_by (fst e) log)"
  by (auto simp: done_by_def)

text \<open>Property C6. The bus mutex serialises the driver: when any number of tasks make calls that are one bracket of the
  mutex and transactions around any lock-free calls, in any interleaving of their statements, no
  reachable configuration is a deadlock, and once all tasks have finished the state is the one that
  some sequence of whole calls and whole transactions produces, which contains each task's items in
  that task's order; the mutex is free again.\<close>

theorem tasks_serialise:
  assumes "controller_ok E xact" and "\<forall>i. \<forall>it \<in> set (calls i). bracketed it"
    and "\<forall>i. \<forall>it \<in> set (calls i). item_buffers it"
    and "lock_at s n = Some False" and "task_run (bus_program E n calls, s) (ps, t)"
  shows "(\<not> finished ps \<longrightarrow> (\<exists>c. task_step (ps, t) c))
    \<and> (finished ps \<longrightarrow> (\<exists>log. (\<forall>i. done_by i log = calls i)
         \<and> exec (map (\<lambda>e. item_step E n (snd e)) log) s = Inr t \<and> lock_at t n = Some False))"
proof -
  have run: "task_run (\<lambda>i. bracket_prog (mutex_lock n) (mutex_unlock n) (item_body E n) (calls i), s) (ps, t)"
    using assms(5) by (simp only: bus_program_brackets [OF assms(2)])
  note tot = bracket_bodies_total [OF assms(1,3), of n]
  then have keep: "\<forall>i. \<forall>it \<in> set (calls i). keeps (\<lambda>s. lock_at s n = Some True) (item_body E n it)"
    by (blast intro: total_on_keeps)
  have "\<exists>c. task_step (ps, t) c" if "\<not> finished ps"
    by (rule bus_tasks.never_deadlocked [OF run assms(4) that tot])
  moreover have "\<exists>log. (\<forall>i. done_by i log = calls i)
      \<and> exec (map (\<lambda>e. item_step E n (snd e)) log) s = Inr t \<and> lock_at t n = Some False"
    if fin: "finished ps"
  proof -
    obtain log where log: "\<forall>i. done_by i log = calls i" "lock_at t n = Some False"
      "replay (mutex_lock n) (mutex_unlock n) (item_body E n) log s = Inr t"
      using bus_tasks.finished_serial [OF run assms(4) fin keep] by blast
    have "\<forall>e \<in> set log. bracketed (snd e)" using done_by_log log(1) assms(2) by metis
    with log show ?thesis by (auto simp: replay_calls)
  qed
  ultimately show ?thesis by blast
qed

text \<open>Running the tasks one after the other is one of the interleavings.\<close>

lemma run_bracket:
  assumes "ps i = bus_bracket n (item_body E n it) @ ds" and "bracketed it"
    and "item_step E n it s = Inr t"
  shows "task_run (ps, s) (ps(i := ds), t)"
proof (rule run_alone)
  show "exec (bracket (mutex_lock n) (mutex_unlock n) (item_body E n it)) s = Inr t"
    using assms(2,3) by (simp only: exec_bracket item_body_step)
qed (rule assms(1))

lemma bus_returns:
  assumes "controller_ok E xact" and "bracketed it" and "item_buffers it" and "lock_at s n = Some False"
  shows "\<exists>t. item_step E n it s = Inr t \<and> lock_at t n = Some False"
proof -
  have "clean n (locked n (item_body E n it))"
    by (rule locked_clean) (rule item_body_quiet [OF assms(1,3)])
  with assms(2,4) show ?thesis unfolding clean_def item_body_step [OF assms(2)] by fastforce
qed

definition two_tasks :: "bus_item \<Rightarrow> bus_item \<Rightarrow> nat \<Rightarrow> bus_item list" where
  "two_tasks op op' i = (if i = 0 then [op] else if i = 1 then [op'] else [])"

lemma two_tasks_run:
  assumes "bracketed op" and "bracketed op'"
    and "item_step E n op s = Inr u" and "item_step E n op' u = Inr t"
  shows "task_run (bus_program E n (two_tasks op op'), s) (\<lambda>_. [], t)"
proof -
  let ?p = "bus_program E n (two_tasks op op')"
  have p: "?p 0 = bus_bracket n (item_body E n op) @ []" "?p 1 = bus_bracket n (item_body E n op') @ []"
    "\<And>i. i \<noteq> 0 \<Longrightarrow> i \<noteq> 1 \<Longrightarrow> ?p i = []"
    using assms(1,2) by (simp_all add: bus_program_def two_tasks_def item_prog_bracket)
  have run: "task_run (?p, s) (?p(0 := []), u)"
    by (rule run_bracket [where ps = ?p and i = 0 and ds = "[]" and it = op]) (use p(1) assms in simp_all)
  have run': "task_run (?p(0 := []), u) (?p(0 := [], 1 := []), t)"
    by (rule run_bracket [where ps = "?p(0 := [])" and i = 1 and ds = "[]" and it = op']) (use p(2) assms in simp_all)
  have "?p(0 := [], 1 := []) = (\<lambda>_. [])" using p(3) by auto
  then show ?thesis using rtranclp_trans [OF run run'] by (simp only:)
qed

lemma tasks_serialise_witness:
  "\<exists>t log. task_run (bus_program demo_env 2 (two_tasks (Burst 5 1 0 [WriteByteNL 1, TransferLongNL 2]) (Call (WriteByte 7))),
        demo_state (Some False) (\<lambda>_. 0)) (\<lambda>_. [], t)
     \<and> done_by 0 log = [Burst 5 1 0 [WriteByteNL 1, TransferLongNL 2]] \<and> done_by 1 log = [Call (WriteByte 7)]
     \<and> exec (map (\<lambda>e. item_step demo_env 2 (snd e)) log) (demo_state (Some False) (\<lambda>_. 0)) = Inr t"
proof -
  let ?s = "demo_state (Some False) (\<lambda>_. 0)" and ?b = "Burst 5 1 0 [WriteByteNL 1, TransferLongNL 2]"
  let ?calls = "two_tasks ?b (Call (WriteByte 7))"
  obtain u where u: "item_step demo_env 2 ?b ?s = Inr u" "lock_at u 2 = Some False"
    using bus_returns [OF demo_controller_ok, of ?b ?s 2] by (auto simp del: item_step.simps)
  obtain t where t: "item_step demo_env 2 (Call (WriteByte 7)) u = Inr t"
    using bus_returns [OF demo_controller_ok, of "Call (WriteByte 7)" u 2] u(2) by auto
  have run: "task_run (bus_program demo_env 2 ?calls, ?s) (\<lambda>_. [], t)"
    by (rule two_tasks_run [OF _ _ u(1) t]) simp_all
  have "\<forall>i. \<forall>it \<in> set (?calls i). bracketed it" "\<forall>i. \<forall>it \<in> set (?calls i). item_buffers it"
    "lock_at ?s 2 = Some False" "finished (\<lambda>_. [])"
    by (simp_all add: two_tasks_def finished_def)
  with tasks_serialise [OF demo_controller_ok this(1-3) run] have
    "\<exists>log. (\<forall>i. done_by i log = ?calls i) \<and> exec (map (\<lambda>e. item_step demo_env 2 (snd e)) log) ?s = Inr t"
    by blast
  then obtain log where "\<forall>i. done_by i log = ?calls i"
    "exec (map (\<lambda>e. item_step demo_env 2 (snd e)) log) ?s = Inr t" by blast
  moreover from this(1) have "done_by 0 log = [?b]" "done_by 1 log = [Call (WriteByte 7)]"
    by (simp_all add: two_tasks_def)
  ultimately show ?thesis using run by blast
qed

section \<open>Byte order decided outside the mutex\<close>

text \<open>A write of \<open>k\<close> bytes of one word sends the first \<open>k\<close> bytes of the word.\<close>

lemma word_write_sends:
  assumes "controller_ok E xact" and "write_ok E xact sink" and "layout_ok (layout E)" and "1 \<le> k" and "k \<le> 4"
  obtains t where "exec (word_write E n (of_nat k * 8 - 1) w) s = Inr t"
    and "hw t = sink n (bus_config (dev_at s n)) (take k (word_bytes w)) (hw s)"
    and "same_but_transfer n s t"
proof -
  have fill: "fifo_put n 0 w s = Inr (upd_dev n
      (\<lambda>d. d\<lparr>data_buf := (\<lambda>i. if i < 1 then (\<lambda>m i. w) (mem s) i else data_buf d i)\<rparr>) s)" for s
    by (simp add: fifo_put_step) (rule upd_dev_eqI, auto simp: fun_upd_def fun_eq_iff)
  obtain t where "exec ([set_mosi_dlen E n (of_nat k * 8 - 1), set_miso_dlen E n 0, fifo_put n 0 w] @ run_usr E n) s = Inr t"
    "hw t = sink n (bus_config (dev_at s n)) (take k (words_bytes (map ((\<lambda>m i. w) (mem s)) [0..<1]))) (hw s)"
    "same_but_transfer n s t"
    by (rule transaction_write [OF assms(1-4) _ _ _ fill, where s = s]) (use assms(5) in auto)
  then show ?thesis using that by (simp add: word_write_def)
qed

text \<open>What a 16-bit write puts on the wire when the bit-order register is read, and the word sent, in the
  given states of the bus.\<close>

lemma write_word_locked:
  assumes "controller_ok E xact" and "write_ok E xact sink" and "layout_ok (layout E)" and "lock_at s n = Some False"
  obtains t where "locked n (word_write E n 15 w) s = Inr t"
    and "hw t = sink n (bus_config (dev_at s n)) (take 2 (word_bytes w)) (hw s)"
    and "lock_at t n = Some False" and "bus_config (dev_at t n) = bus_config (dev_at s n)"
proof -
  obtain t where t: "exec (word_write E n 15 w) (set_lock n (Some True) s) = Inr t"
    "hw t = sink n (bus_config (dev_at s n)) (take 2 (word_bytes w)) (hw s)" "lock_at t n = Some True"
    "bus_config (dev_at t n) = bus_config (dev_at s n)"
    by (rule word_write_sends [OF assms(1-3), of 2 n w "set_lock n (Some True) s"])
      (auto simp: same_but_transfer_def)
  have "locked n (word_write E n 15 w) s = Inr (set_lock n (Some False) t)"
    using t(1,3) assms(4) by (simp add: locked_def exec_append mutex_lock_free mutex_unlock_held)
  then show ?thesis using that t(2,4) by simp
qed

lemma swap16_bytes: "take 2 (word_bytes (ucast (swap16 d))) = rev (take 2 (word_bytes (ucast d)))"
proof -
  have "word_bytes (ucast (swap16 d)) ! i = word_bytes (ucast d) ! (1 - i)" if "i < 2" for i
  proof (rule bit_word_eqI)
    fix m
    assume "m < LENGTH(8)"
    with that show "bit (word_bytes (ucast (swap16 d)) ! i) m = bit (word_bytes (ucast d) ! (1 - i)) m"
      by (auto simp: bit_word_bytes bit_ucast_iff bit_swap16 less_2_cases_iff dest: bit_imp_le_length)
  qed
  then show ?thesis by (intro nth_equalityI) (auto simp: rev_nth)
qed

lemma wr_lsb_order:
  assumes "layout_ok (layout E)"
  shows "wr_lsb E n (upd_dev n (with_order (layout E) b) s) =
    (if b = SPI_MSBFIRST \<or> b = SPI_LSBFIRST then b = SPI_LSBFIRST else wr_lsb E n s)"
  using assms by (simp add: wr_lsb_def with_order_def bit_put_bit layout_ok_def)

text \<open>The overtaking interleaving: the write has read the old order and waits for the mutex, which the change
  of the order takes first.\<close>

lemma overtaken_run:
  assumes "\<not> wr_lsb E n s" and "bus_step E (Some n) (SetBitOrder b) s = Inr u"
    and "locked n (word_write E n 15 (ucast (swap16 d))) u = Inr t"
  shows "task_run (bus_program E n (two_tasks (Call (WriteWord d)) (Call (SetBitOrder b))), s) (\<lambda>_. [], t)"
proof -
  let ?p = "bus_program E n (two_tasks (Call (WriteWord d)) (Call (SetBitOrder b)))" and ?cs = "word_write E n 15 (ucast (swap16 d))"
  have p: "?p 0 = op_prog E n (WriteWord d)" "?p 1 = bus_bracket n (bracket_body E n (SetBitOrder b))"
    "\<And>i. i \<noteq> 0 \<Longrightarrow> i \<noteq> 1 \<Longrightarrow> ?p i = []"
    by (simp_all add: bus_program_def two_tasks_def)
  let ?q = "?p(0 := bus_bracket n ?cs)"
  have read: "task_step (?p, s) (?q, s)"
    using run_read [of ?p 0 _ "[]" s] p(1) assms(1) by simp
  have swap: "task_run (?q, s) (?q(1 := []), u)"
    by (rule run_bracket [where it = "Call (SetBitOrder b)"]) (use p(2) assms(2) in simp_all)
  have send: "task_run (?q(1 := []), u) (?q(1 := [], 0 := []), t)"
    by (rule run_alone [where cs = "bracket (mutex_lock n) (mutex_unlock n) ?cs"])
      (use assms(3) in \<open>simp_all add: exec_bracket\<close>)
  have "?q(1 := [], 0 := []) = (\<lambda>_. [])" using p(3) by auto
  then show ?thesis
    using converse_rtranclp_into_rtranclp [OF read rtranclp_trans [OF swap send]] by (simp only:)
qed

text \<open>Property C22. The calls that choose the byte order do so before they take the mutex, and are not serialised: a
  16-bit write that a change to LSB-first order overtakes sends its bytes in the old order under the
  new setting, which neither order of the two calls does.\<close>

theorem write_word_races:
  assumes "controller_ok E xact" and "write_ok E xact sink" and "layout_ok (layout E)"
    and "lock_at s n = Some False" and "\<not> wr_lsb E n s"
  shows "let new = bus_config (with_order (layout E) SPI_LSBFIRST (dev_at s n)); old = bus_config (dev_at s n);
      calls = two_tasks (Call (WriteWord d)) (Call (SetBitOrder SPI_LSBFIRST)); bytes = take 2 (word_bytes (ucast d)) in
    (\<exists>t. task_run (bus_program E n calls, s) (\<lambda>_. [], t) \<and> wr_lsb E n t \<and> hw t = sink n new (rev bytes) (hw s))
    \<and> (\<exists>t. exec [bus_step E (Some n) (WriteWord d), bus_step E (Some n) (SetBitOrder SPI_LSBFIRST)] s = Inr t
         \<and> hw t = sink n old (rev bytes) (hw s))
    \<and> (\<exists>t. exec [bus_step E (Some n) (SetBitOrder SPI_LSBFIRST), bus_step E (Some n) (WriteWord d)] s = Inr t
         \<and> hw t = sink n new bytes (hw s))"
proof -
  let ?u = "upd_dev n (with_order (layout E) SPI_LSBFIRST) s"
  have order: "bus_step E (Some n) (SetBitOrder SPI_LSBFIRST) s = Inr ?u" using assms(4) by (simp add: spiSetBitOrder_eq)
  have u: "wr_lsb E n ?u" "lock_at ?u n = Some False" "hw ?u = hw s"
    "dev_at ?u n = with_order (layout E) SPI_LSBFIRST (dev_at s n)"
    using assms(3,4) by (simp_all add: wr_lsb_order)
  note sent = write_word_locked [OF assms(1-3)]
  obtain t where t: "locked n (word_write E n 15 (ucast (swap16 d))) ?u = Inr t"
    "hw t = sink n (bus_config (dev_at ?u n)) (take 2 (word_bytes (ucast (swap16 d)))) (hw ?u)"
    "bus_config (dev_at t n) = bus_config (dev_at ?u n)"
    by (rule sent [OF u(2)])
  have lsb: "wr_lsb E n t" using t(3) u(1) by (simp add: bus_config_def wr_lsb_def)
  obtain v where v: "locked n (word_write E n 15 (ucast (swap16 d))) s = Inr v" "lock_at v n = Some False"
    "hw v = sink n (bus_config (dev_at s n)) (take 2 (word_bytes (ucast (swap16 d)))) (hw s)"
    by (rule sent [OF assms(4)])
  obtain w where w: "locked n (word_write E n 15 (ucast d)) ?u = Inr w"
    "hw w = sink n (bus_config (dev_at ?u n)) (take 2 (word_bytes (ucast d))) (hw ?u)"
    by (rule sent [OF u(2)])
  have wr: "bus_step E (Some n) (WriteWord d) s = Inr v" "bus_step E (Some n) (WriteWord d) ?u = Inr w"
    using v(1) w(1) assms(5) u(1) by (simp_all add: spiWriteWord_def Let_def)
  have "bus_step E (Some n) (SetBitOrder SPI_LSBFIRST) v = Inr (upd_dev n (with_order (layout E) SPI_LSBFIRST) v)"
    using v(2) by (simp add: spiSetBitOrder_eq)
  then show ?thesis
    using overtaken_run [OF assms(5) order t(1)] t(2) lsb v(3) w(2) order wr u(3,4) swap16_bytes [of d]
    by (auto simp: Let_def simp del: bus_step.simps)
qed

lemma write_word_races_witness:
  "\<exists>t. task_run (bus_program demo_env 2 (two_tasks (Call (WriteWord 0x0102)) (Call (SetBitOrder SPI_LSBFIRST))),
        demo_state (Some False) (\<lambda>_. 0)) (\<lambda>_. [], t)
     \<and> wr_lsb demo_env 2 t \<and> hw t = [[1, 2]]"
proof -
  let ?s = "demo_state (Some False) (\<lambda>_. 0)"
  have "\<not> wr_lsb demo_env 2 ?s" "layout_ok (layout demo_env)" "lock_at ?s 2 = Some False"
    by (simp_all add: wr_lsb_def zero_dev_def esp32_layout_ok)
  from write_word_races [OF demo_controller_ok demo_write_ok this(2,3,1), of "0x0102"]
  obtain t where t: "task_run (bus_program demo_env 2 (two_tasks (Call (WriteWord 0x0102)) (Call (SetBitOrder SPI_LSBFIRST))), ?s) (\<lambda>_. [], t)"
    "wr_lsb demo_env 2 t" "hw t = [rev (take 2 (word_bytes (ucast (0x0102 :: 16 word))))]"
    by (auto simp: Let_def recording_sink_def)
  moreover have "take 2 (word_bytes (ucast (0x0102 :: 16 word))) = [2, 1 :: byte]"
    by (simp add: word_bytes_expand)
  ultimately show ?thesis by auto
qed

end
