(* ===== verification/Spi_Settings.thy ===== *)
theory Spi_Settings
  imports Spi_Tasks
begin

text \<open>
  The configuration of a bus of \<^verbatim>\<open>esp32/esp32spi.c\<close> over a whole program: an abstract machine that knows
  the clock divider, data mode, bit order and chip-select settings, and the proof that every call and
  every transaction acts on the registers as the machine says and leaves the other controllers alone.
\<close>

section \<open>Statements that leave the configuration alone\<close>

text \<open>Such a statement changes no configuration register of bus \<open>n\<close> and nothing of another bus.\<close>

definition calm :: "nat \<Rightarrow> (spi_fault, 'h spi_state) step \<Rightarrow> bool" where
  "calm n c \<longleftrightarrow> (\<forall>s t. c s = Inr t \<longrightarrow> bus_config (dev_at t n) = bus_config (dev_at s n)
     \<and> (\<forall>k. k \<noteq> n \<longrightarrow> buses t k = buses s k))"

named_theorems calms

lemma calmI:
  assumes "\<And>s t. c s = Inr t \<Longrightarrow> bus_config (dev_at t n) = bus_config (dev_at s n) \<and> (\<forall>k. k \<noteq> n \<longrightarrow> buses t k = buses s k)"
  shows "calm n c"
  unfolding calm_def using assms by blast

lemma calmD:
  assumes "calm n c" and "c s = Inr t"
  shows "bus_config (dev_at t n) = bus_config (dev_at s n)" "k \<noteq> n \<Longrightarrow> buses t k = buses s k"
  using assms unfolding calm_def by blast+

lemma upd_dev_other: "k \<noteq> n \<Longrightarrow> buses (upd_dev n f s) k = buses s k"
  by (simp add: upd_dev_def)

lemma set_lock_other: "k \<noteq> n \<Longrightarrow> buses (set_lock n l s) k = buses s k"
  by (simp add: set_lock_def)

lemma calm_reg: "(\<And>d. bus_config (f d) = bus_config d) \<Longrightarrow> calm n (reg n f)"
  by (rule calmI) (auto simp: reg_step upd_dev_other)

lemma calm_Inr [calms]: "calm n Inr"
  by (rule calmI) auto

lemma calm_Inl [calms]: "calm n (\<lambda>s. Inl e)"
  by (rule calmI) auto

lemma calm_bind [calms]: "calm n c \<Longrightarrow> calm n d \<Longrightarrow> calm n (\<lambda>s. bindr (c s) d)"
  unfolding calm_def bindr_eq_Inr_iff by metis

lemma calm_exec [calms]: "(\<And>c. c \<in> set cs \<Longrightarrow> calm n c) \<Longrightarrow> calm n (exec cs)"
proof (induction cs)
  case Nil
  then show ?case by (auto intro: calmI)
next
  case (Cons c cs)
  then show ?case by (simp add: exec_Cons_fun calm_bind)
qed

lemma calm_lock [calms]: "calm n (mutex_lock n)" "calm n (mutex_unlock n)"
  by (rule calmI, auto simp: mutex_lock_def mutex_unlock_def set_lock_other split: option.splits bool.splits)+

lemma calm_locked [calms]: "(\<And>c. c \<in> set cs \<Longrightarrow> calm n c) \<Longrightarrow> calm n (locked n cs)"
  unfolding locked_def by (rule calm_exec) (auto intro: calm_lock)

lemma calm_emit [calms]: "calm n (emit cs)"
  by (rule calmI) (auto simp: emit_step)

lemma calm_dlen [calms]: "calm n (set_mosi_dlen E n v)" "calm n (set_miso_dlen E n v)" "calm n (set_usr E n)"
  by (simp_all add: dlen_steps calm_reg bus_config_def)

lemma calm_put [calms]: "calm n (\<lambda>s. fifo_put n i (w s) s)" "calm n (fifo_put n i v)"
  by (rule calmI, auto simp: fifo_put_def upd_dev_other bus_config_def split: if_splits)+

lemma calm_fill [calms]: "calm n (fifo_fill n k f)"
  unfolding fifo_fill_def by (rule calm_exec) (auto intro: calm_put)

lemma calm_get [calms]: "calm n (fifo_get n i a)"
  by (rule calmI) (auto simp: fifo_get_def split: if_splits)

lemma calm_if [calms]: "calm n (\<lambda>s. if P then Inr s else Inl e)"
  by (cases P) (auto intro: calmI)

lemma calm_from [calms]: "calm n (fifo_from n k data)" "calm n (fifo_from_or_ones n k data)"
    "calm n (pixels_from n msb l k data)"
  by (cases data; simp add: fifo_from_def [abs_def] fifo_from_or_ones_def pixels_from_def [abs_def]
      calm_fill [simplified] calm_fill calm_if)+

lemma calm_to [calms]: "calm n (fifo_to n k data)"
  by (cases data) (auto simp: fifo_to_def intro!: calm_if calm_exec calm_get)

lemma calm_store [calms]: "calm n (\<lambda>s. Inr (store (a s) (bs s) s))"
  by (rule calmI) auto

lemma calm_wait:
  assumes "controller_ok E xact"
  shows "calm n (wait_usr E n)"
proof (rule calmI)
  fix s t
  assume t: "wait_usr E n s = Inr t"
  show "bus_config (dev_at t n) = bus_config (dev_at s n) \<and> (\<forall>k. k \<noteq> n \<longrightarrow> buses t k = buses s k)"
  proof (cases "bit (cmd (dev_at s n)) (b_usr (layout E))")
    case True
    then show ?thesis using wait_usr_step [OF assms] t by (auto simp: bus_config_def upd_dev_other)
  next
    case False
    then show ?thesis using t by (auto simp: wait_usr_def usr_wait_unfold upd_dev_other)
  qed
qed

lemma calm_point: "(\<And>s. \<exists>d. calm n d \<and> c s = d s) \<Longrightarrow> calm n c"
  unfolding calm_def by metis

lemma calm_choose: "(\<And>w. calm n (c w)) \<Longrightarrow> calm n (\<lambda>s. c (f s) s)"
  unfolding calm_def by blast

interpretation calms: transfer_class "calm n" E n xact for n E xact
  by unfold_locales (auto intro: calm_point calms calm_wait)

text \<open>The calls that do configure a bus.\<close>

fun configures :: "bus_op \<Rightarrow> bool" where
  "configures (EnableSSPins m) = True"
| "configures (DisableSSPins m) = True"
| "configures (AttachSS c p) = True"
| "configures SSEnable = True"
| "configures SSDisable = True"
| "configures SSSet = True"
| "configures SSClear = True"
| "configures (SetClockDiv v) = True"
| "configures (SetDataMode m) = True"
| "configures (SetBitOrder b) = True"
| "configures StopBus = True"
| "configures _ = False"

lemma calm_body:
  assumes "controller_ok E xact" and "\<not> configures op" and "c \<in> set (bracket_body E n op)"
  shows "calm n c"
  using assms(2,3) calm_wait [OF assms(1)] calms.good_bytes_loop [OF assms(1)] calms.good_bits [OF assms(1)]
  by (cases op) (auto simp: run_usr_def word_write_def word_exchange_def intro: calms)

lemma calm_word_read:
  assumes "controller_ok E xact"
  shows "calm n (exec (map alone [Read (\<lambda>s. bus_bracket n (word_write E n k (f s)))]))"
    "calm n (exec (map alone [Read (\<lambda>s. bus_bracket n (word_exchange E n k (f s)))]))"
proof -
  have "calm n (locked n (word_write E n k w))" "calm n (locked n (word_exchange E n k w))" for w
    by (rule calm_locked, use calm_wait [OF assms] in
        \<open>auto simp: run_usr_def word_write_def word_exchange_def intro: calms\<close>)+
  then show "calm n (exec (map alone [Read (\<lambda>s. bus_bracket n (word_write E n k (f s)))]))"
    "calm n (exec (map alone [Read (\<lambda>s. bus_bracket n (word_exchange E n k (f s)))]))"
    using calm_choose [of n "\<lambda>w. locked n (word_write E n k w)" f] calm_choose [of n "\<lambda>w. locked n (word_exchange E n k w)" f]
    by (simp_all add: exec_bracket)
qed

lemma calm_call:
  assumes "controller_ok E xact" and "\<not> configures op"
  shows "calm n (bus_step E (Some n) op)"
proof -
  have step: "bus_step E (Some n) op = exec (map alone (op_prog E n op))"
    by (rule ext) (rule op_prog_alone [symmetric])
  show ?thesis
  proof (cases "one_bracket op")
    case True
    then show ?thesis
      unfolding bracket_body_step [OF True, symmetric]
      by (intro calm_locked calm_body [OF assms])
  next
    case False
    with assms show ?thesis
      unfolding step using calm_wait [OF assms(1)] calm_word_read [OF assms(1)]
      by (cases op) (simp_all only: op_prog.simps, auto intro!: calm_exec calms)
  qed
qed

section \<open>The settings of a bus\<close>

text \<open>What the configuration registers mean: the clock register, the data mode and bit order as the getters
  report them, the chip-select lines that are switched off, and the set-up, hold and keep-active
  options of the chip select.\<close>

record bus_settings =
  st_clock :: "32 word"
  st_mode :: "8 word"
  st_order :: "8 word"
  st_off :: "nat set"
  st_setup :: bool
  st_hold :: bool
  st_keep :: bool

definition settings :: "'h spi_env \<Rightarrow> nat \<Rightarrow> 'h spi_state \<Rightarrow> bus_settings" where
  "settings E n s = \<lparr>st_clock = spiGetClockDiv (Some n) s, st_mode = spiGetDataMode E (Some n) s,
     st_order = spiGetBitOrder E (Some n) s, st_off = {j. j < 3 \<and> bit (pin (dev_at s n)) j},
     st_setup = bit (user (dev_at s n)) (b_cs_setup (layout E)),
     st_hold = bit (user (dev_at s n)) (b_cs_hold (layout E)),
     st_keep = bit (pin (dev_at s n)) (b_cs_keep_active (layout E))\<rparr>"

text \<open>What the calls promise: an unknown data mode selects mode 0, an unknown bit order changes nothing.\<close>

definition legal_mode :: "8 word \<Rightarrow> 8 word" where
  "legal_mode m = (if m = SPI_MODE1 \<or> m = SPI_MODE2 \<or> m = SPI_MODE3 then m else SPI_MODE0)"

definition legal_order :: "8 word \<Rightarrow> 8 word \<Rightarrow> 8 word" where
  "legal_order old b = (if b = SPI_MSBFIRST \<or> b = SPI_LSBFIRST then b else old)"

definition lines :: "8 word \<Rightarrow> nat set" where
  "lines m = {j. j < 3 \<and> bit m j}"

fun op_settings :: "bus_op \<Rightarrow> bus_settings \<Rightarrow> bus_settings" where
  "op_settings (EnableSSPins m) x = x\<lparr>st_off := st_off x - lines m\<rparr>"
| "op_settings (DisableSSPins m) x = x\<lparr>st_off := st_off x \<union> lines m\<rparr>"
| "op_settings (AttachSS c p) x =
     (if 2 < c then x else x\<lparr>st_off := st_off x - {if sint p < 0 then 0 else unat c}\<rparr>)"
| "op_settings SSEnable x = x\<lparr>st_setup := True, st_hold := True\<rparr>"
| "op_settings SSDisable x = x\<lparr>st_setup := False, st_hold := False\<rparr>"
| "op_settings SSSet x = x\<lparr>st_keep := True\<rparr>"
| "op_settings SSClear x = x\<lparr>st_keep := False\<rparr>"
| "op_settings (SetClockDiv v) x = x\<lparr>st_clock := v\<rparr>"
| "op_settings (SetDataMode m) x = x\<lparr>st_mode := legal_mode m\<rparr>"
| "op_settings (SetBitOrder b) x = x\<lparr>st_order := legal_order (st_order x) b\<rparr>"
| "op_settings StopBus x = \<lparr>st_clock = 0, st_mode = SPI_MODE0, st_order = SPI_MSBFIRST, st_off = {},
     st_setup = False, st_hold = False, st_keep = False\<rparr>"
| "op_settings _ x = x"

primrec item_settings :: "bus_item \<Rightarrow> bus_settings \<Rightarrow> bus_settings" where
  "item_settings (Call op) x = op_settings op x"
| "item_settings (Burst c m b ops) x =
     x\<lparr>st_clock := c, st_mode := legal_mode m, st_order := legal_order (st_order x) b\<rparr>"
| "item_settings (Simple ops) x = x"

lemma settings_config:
  "bus_config (dev_at t n) = bus_config (dev_at s n) \<Longrightarrow> settings E n t = settings E n s"
  by (simp add: settings_def bus_config_def spiGetClockDiv_def spiGetDataMode_def spiGetBitOrder_def)

lemma settings_lock [simp]: "settings E n (set_lock n l s) = settings E n s"
  by (rule settings_config) simp

text \<open>What one register update does to the settings.\<close>

definition moves :: "'h spi_env \<Rightarrow> nat \<Rightarrow> (spi_dev \<Rightarrow> spi_dev) \<Rightarrow> (bus_settings \<Rightarrow> bus_settings) \<Rightarrow> bool" where
  "moves E n f F \<longleftrightarrow> (\<forall>s :: 'h spi_state. settings E n (upd_dev n f s) = F (settings E n s))"

lemma moves_comp: "moves E n f F \<Longrightarrow> moves E n g G \<Longrightarrow> moves E n (g \<circ> f) (G \<circ> F)"
  unfolding moves_def using upd_dev_upd_dev [of n g f] by (metis comp_apply)

lemma moves_clock: "moves E n (\<lambda>d. d\<lparr>clock := v\<rparr>) (\<lambda>x. x\<lparr>st_clock := v\<rparr>)"
  by (simp add: moves_def settings_def spiGetClockDiv_def spiGetDataMode_def spiGetBitOrder_def)

lemma layout_distinct:
  assumes "layout_ok L"
  shows "b_ck_idle_edge L \<noteq> b_cs_keep_active L" "b_ck_out_edge L \<noteq> b_cs_setup L" "b_ck_out_edge L \<noteq> b_cs_hold L"
    "b_cs_setup L \<noteq> b_cs_hold L" "b_cs_setup L < 32" "b_cs_hold L < 32"
    "\<And>j. j < 3 \<Longrightarrow> j \<noteq> b_ck_idle_edge L" "\<And>j. j < 3 \<Longrightarrow> j \<noteq> b_cs_keep_active L"
  using assms by (auto simp: layout_ok_def)

lemma moves_mode:
  assumes "layout_ok (layout E)"
  shows "moves E n (with_mode (layout E) m) (\<lambda>x. x\<lparr>st_mode := legal_mode m\<rparr>)"
proof -
  have "settings E n (upd_dev n (with_mode (layout E) m) s) = (settings E n s)\<lparr>st_mode := legal_mode m\<rparr>" for s :: "'a spi_state"
    using layout_okD [OF assms] layout_distinct [OF assms] getDataMode_with_mode [OF assms, of n m s]
    by (auto simp: settings_def legal_mode_def spiGetClockDiv_def spiGetBitOrder_def with_mode_def bit_put_bit)
  then show ?thesis by (simp add: moves_def)
qed

lemma moves_order:
  assumes "layout_ok (layout E)"
  shows "moves E n (with_order (layout E) b) (\<lambda>x. x\<lparr>st_order := legal_order (st_order x) b\<rparr>)"
proof -
  have "settings E n (upd_dev n (with_order (layout E) b) s) = (settings E n s)\<lparr>st_order := legal_order (spiGetBitOrder E (Some n) s) b\<rparr>"
    for s :: "'a spi_state"
    using getBitOrder_with_order [OF assms, of n b s]
    by (auto simp: settings_def legal_order_def spiGetClockDiv_def spiGetDataMode_def with_order_def)
  then show ?thesis by (simp add: moves_def settings_def)
qed

lemma moves_pin_low:
  assumes "layout_ok (layout E)" and high: "\<And>w j. 3 \<le> j \<Longrightarrow> bit (f w) j = bit w j"
    and low: "\<And>w. {j. j < 3 \<and> bit (f w) j} = F {j. j < 3 \<and> bit w j}"
  shows "moves E n (\<lambda>d. d\<lparr>pin := f (pin d)\<rparr>) (\<lambda>x. x\<lparr>st_off := F (st_off x)\<rparr>)"
proof -
  have "3 \<le> b_ck_idle_edge (layout E)" "3 \<le> b_cs_keep_active (layout E)" using layout_okD [OF assms(1)] by auto
  then show ?thesis
    by (simp add: moves_def settings_def spiGetClockDiv_def spiGetDataMode_def spiGetBitOrder_def high low)
qed

lemma moves_off:
  assumes "layout_ok (layout E)"
  shows "moves E n (\<lambda>d. d\<lparr>pin := pin d AND NOT (ucast m AND SPI_CS_MASK_ALL)\<rparr>) (\<lambda>x. x\<lparr>st_off := st_off x - lines m\<rparr>)"
    "moves E n (\<lambda>d. d\<lparr>pin := pin d OR (ucast m AND SPI_CS_MASK_ALL)\<rparr>) (\<lambda>x. x\<lparr>st_off := st_off x \<union> lines m\<rparr>)"
proof -
  have pin_bits: "bit (w AND NOT (ucast m AND SPI_CS_MASK_ALL)) j \<longleftrightarrow> bit w j \<and> \<not> (j < 3 \<and> bit m j)"
    "bit (w OR (ucast m AND SPI_CS_MASK_ALL)) j \<longleftrightarrow> bit w j \<or> (j < 3 \<and> bit m j)" for w :: "32 word" and j
    by (simp_all only: bit_and_not bit_or_iff bit_cs_mask)
  show "moves E n (\<lambda>d. d\<lparr>pin := pin d AND NOT (ucast m AND SPI_CS_MASK_ALL)\<rparr>) (\<lambda>x. x\<lparr>st_off := st_off x - lines m\<rparr>)"
    by (rule moves_pin_low [where f = "\<lambda>w. w AND NOT (ucast m AND SPI_CS_MASK_ALL)" and F = "\<lambda>X. X - lines m", OF assms],
        auto simp only: pin_bits lines_def)
  show "moves E n (\<lambda>d. d\<lparr>pin := pin d OR (ucast m AND SPI_CS_MASK_ALL)\<rparr>) (\<lambda>x. x\<lparr>st_off := st_off x \<union> lines m\<rparr>)"
    by (rule moves_pin_low [where f = "\<lambda>w. w OR (ucast m AND SPI_CS_MASK_ALL)" and F = "\<lambda>X. X \<union> lines m", OF assms],
        auto simp only: pin_bits lines_def)
qed

lemma moves_flags:
  assumes "layout_ok (layout E)"
  shows "moves E n (\<lambda>d. d\<lparr>user := put_bit (b_cs_setup (layout E)) v (user d)\<rparr>) (\<lambda>x. x\<lparr>st_setup := v\<rparr>)"
    "moves E n (\<lambda>d. d\<lparr>user := put_bit (b_cs_hold (layout E)) v (user d)\<rparr>) (\<lambda>x. x\<lparr>st_hold := v\<rparr>)"
    "moves E n (\<lambda>d. d\<lparr>pin := put_bit (b_cs_keep_active (layout E)) v (pin d)\<rparr>) (\<lambda>x. x\<lparr>st_keep := v\<rparr>)"
  using layout_okD [OF assms] layout_distinct [OF assms]
  by (auto simp: moves_def settings_def spiGetClockDiv_def spiGetDataMode_def spiGetBitOrder_def bit_put_bit)

section \<open>Every call and transaction\<close>

text \<open>From a free bus the step returns to a free bus, acts on the settings as told and leaves the other
  controllers as they were.\<close>

definition acts_as ::
  "'h spi_env \<Rightarrow> nat \<Rightarrow> (spi_fault, 'h spi_state) step \<Rightarrow> (bus_settings \<Rightarrow> bus_settings) \<Rightarrow> bool" where
  "acts_as E n c F \<longleftrightarrow> (\<forall>s. lock_at s n = Some False \<longrightarrow> (\<exists>t. c s = Inr t \<and> settings E n t = F (settings E n s)
     \<and> lock_at t n = Some False \<and> (\<forall>k. k \<noteq> n \<longrightarrow> buses t k = buses s k)))"

lemma follows_update:
  assumes "moves E n f F" and "\<And>s. lock_at s n = Some False \<Longrightarrow> c s = Inr (upd_dev n f s)"
  shows "acts_as E n c F"
  using assms by (simp add: acts_as_def moves_def upd_dev_other)

lemma follows_reg1: "moves E n f F \<Longrightarrow> acts_as E n (locked n [reg n f]) F"
  by (rule follows_update) (auto simp: locked_reg1)

lemma follows_reg2:
  "moves E n f F \<Longrightarrow> moves E n g G \<Longrightarrow> acts_as E n (locked n [reg n f, reg n g]) (\<lambda>x. G (F x))"
  using follows_update [OF moves_comp, of E n f F g G] by (simp add: locked_reg2 comp_def)

lemma follows_calm:
  assumes "calm n c" and "clean n c"
  shows "acts_as E n c (\<lambda>x. x)"
  unfolding acts_as_def
proof (intro allI impI)
  fix s :: "'a spi_state"
  assume free: "lock_at s n = Some False"
  then obtain t where t: "c s = Inr t" "\<forall>k. lock_at t k = lock_at s k"
    using assms(2) by (auto simp: clean_def)
  have "settings E n t = settings E n s" by (rule settings_config) (rule calmD(1) [OF assms(1) t(1)])
  then show "\<exists>t. c s = Inr t \<and> settings E n t = settings E n s \<and> lock_at t n = Some False
      \<and> (\<forall>k. k \<noteq> n \<longrightarrow> buses t k = buses s k)"
    using t free calmD(2) [OF assms(1) t(1)] by auto
qed

lemma follows_exec:
  assumes "\<And>i. i \<in> set is \<Longrightarrow> acts_as E n (step i) (F i)"
  shows "acts_as E n (exec (map step is)) (fold F is)"
  using assms
proof (induction "is")
  case Nil
  then show ?case by (simp add: acts_as_def)
next
  case (Cons i "is")
  show ?case unfolding acts_as_def
  proof (intro allI impI)
    fix s :: "'b spi_state"
    assume "lock_at s n = Some False"
    moreover have "acts_as E n (step i) (F i)" by (rule Cons.prems) simp
    ultimately obtain u where u: "step i s = Inr u" "settings E n u = F i (settings E n s)"
      "lock_at u n = Some False" "\<forall>k. k \<noteq> n \<longrightarrow> buses u k = buses s k"
      unfolding acts_as_def by blast
    have "acts_as E n (exec (map step is)) (fold F is)" by (rule Cons.IH) (rule Cons.prems, simp)
    with u(3) obtain t where "exec (map step is) u = Inr t" "settings E n t = fold F is (settings E n u)"
      "lock_at t n = Some False" "\<forall>k. k \<noteq> n \<longrightarrow> buses t k = buses u k"
      unfolding acts_as_def by blast
    with u show "\<exists>t. exec (map step (i # is)) s = Inr t \<and> settings E n t = fold F (i # is) (settings E n s)
        \<and> lock_at t n = Some False \<and> (\<forall>k. k \<noteq> n \<longrightarrow> buses t k = buses s k)" by simp
  qed
qed

lemma lines_single: "k < 3 \<Longrightarrow> lines (push_bit k 1) = {k}"
  by (auto simp: lines_def bit_exp_iff)

lemma settings_gpio [simp]: "settings E n (s\<lparr>gpio_calls := c\<rparr>) = settings E n s"
  by (rule settings_config) simp

lemma follows_attach:
  assumes "layout_ok (layout E)"
  shows "acts_as E n (spiAttachSS E (Some n) c p) (op_settings (AttachSS c p))"
proof (cases "2 < c")
  case True
  then show ?thesis by (simp add: acts_as_def spiAttachSS_def)
next
  case False
  let ?k = "unat (if sint p < 0 then 0 else c)"
  have k: "?k < 3" using False by (auto simp: word_less_nat_alt)
  have en: "acts_as E n (spiEnableSSPins (Some n) (push_bit ?k 1)) (\<lambda>x. x\<lparr>st_off := st_off x - {?k}\<rparr>)"
    using follows_update [OF moves_off(1) [OF assms] spiEnableSSPins_eq, of n "push_bit ?k 1"] by (simp only: lines_single [OF k])
  obtain cs ds where att: "spiAttachSS E (Some n) c p = exec [emit cs, emit ds, spiEnableSSPins (Some n) (push_bit ?k 1)]"
    unfolding spiAttachSS_def option.case Let_def using False by (simp del: exec.simps)
  show ?thesis
    unfolding acts_as_def
  proof (intro allI impI)
    fix s :: "'a spi_state"
    assume "lock_at s n = Some False"
    then obtain t where "spiEnableSSPins (Some n) (push_bit ?k 1) (s\<lparr>gpio_calls := gpio_calls s @ cs @ ds\<rparr>) = Inr t"
      "settings E n t = (settings E n s)\<lparr>st_off := st_off (settings E n s) - {?k}\<rparr>" "lock_at t n = Some False"
      "\<forall>k. k \<noteq> n \<longrightarrow> buses t k = buses s k"
      using en [unfolded acts_as_def, rule_format, of "s\<lparr>gpio_calls := gpio_calls s @ cs @ ds\<rparr>"] by auto
    then show "\<exists>t. spiAttachSS E (Some n) c p s = Inr t \<and> settings E n t = op_settings (AttachSS c p) (settings E n s)
        \<and> lock_at t n = Some False \<and> (\<forall>k. k \<noteq> n \<longrightarrow> buses t k = buses s k)"
      using False by (auto simp: att emit_step)
  qed
qed

lemma follows_stop:
  assumes "layout_ok (layout E)"
  shows "acts_as E n (spiStopBus E (Some n)) (op_settings StopBus)"
  by (rule follows_update [OF _ spiStopBus_eq])
    (simp add: moves_def settings_def spiGetClockDiv_def spiGetDataMode_def spiGetBitOrder_def
      SPI_MODE0_def SPI_MSBFIRST_def)

lemma op_settings_id: "\<not> configures op \<Longrightarrow> op_settings op = (\<lambda>x. x)"
  by (rule ext) (cases op, simp_all)

lemma op_follows:
  assumes "controller_ok E xact" and "layout_ok (layout E)" and "bus_buffers op"
  shows "acts_as E n (bus_step E (Some n) op) (op_settings op)"
proof (cases "configures op")
  case False
  show ?thesis
    unfolding op_settings_id [OF False]
    by (rule follows_calm [OF calm_call [OF assms(1) False] bus_clean [OF assms(1,3)]])
next
  case True
  note M = moves_off [OF assms(2)] moves_flags [OF assms(2)] moves_clock
  have F: "op_settings (EnableSSPins m) = (\<lambda>x. x\<lparr>st_off := st_off x - lines m\<rparr>)"
    "op_settings (DisableSSPins m) = (\<lambda>x. x\<lparr>st_off := st_off x \<union> lines m\<rparr>)"
    "op_settings SSEnable = (\<lambda>x. (x\<lparr>st_setup := True\<rparr>)\<lparr>st_hold := True\<rparr>)"
    "op_settings SSDisable = (\<lambda>x. (x\<lparr>st_setup := False\<rparr>)\<lparr>st_hold := False\<rparr>)"
    "op_settings SSSet = (\<lambda>x. x\<lparr>st_keep := True\<rparr>)" "op_settings SSClear = (\<lambda>x. x\<lparr>st_keep := False\<rparr>)"
    "op_settings (SetClockDiv v) = (\<lambda>x. x\<lparr>st_clock := v\<rparr>)"
    "op_settings (SetDataMode d) = (\<lambda>x. x\<lparr>st_mode := legal_mode d\<rparr>)"
    "op_settings (SetBitOrder b) = (\<lambda>x. x\<lparr>st_order := legal_order (st_order x) b\<rparr>)" for m v d b
    by auto
  show ?thesis
  proof (cases op)
    case (SetDataMode m)
    show ?thesis
      unfolding SetDataMode bus_step.simps F
      by (rule follows_update [OF moves_mode [OF assms(2)] spiSetDataMode_eq])
  next
    case (SetBitOrder b)
    show ?thesis
      unfolding SetBitOrder bus_step.simps F
      by (rule follows_update [OF moves_order [OF assms(2)] spiSetBitOrder_eq])
  qed (use True follows_attach [OF assms(2)] follows_stop [OF assms(2)] in
    \<open>simp_all only: bus_step.simps configures.simps F spiEnableSSPins_def spiDisableSSPins_def spiSSEnable_def
        spiSSDisable_def spiSSSet_def spiSSClear_def spiSetClockDiv_def option.case
        follows_reg1 [OF M(1)] follows_reg1 [OF M(2)] follows_reg1 [OF M(5)] follows_reg1 [OF M(6)]
        follows_reg2 [OF M(3) M(4)]\<close>)
qed

lemma bursts_calm:
  assumes "controller_ok E xact" and "\<forall>op \<in> set ops. burst_buffers op"
  shows "calm n (exec (map (burst_step E (Some n)) ops))" "quiet (exec (map (burst_step E (Some n)) ops))"
  using assms(2) calms.burst_good [OF assms(1)] burst_quiet [OF assms(1)]
  by (auto intro!: calm_exec quiet_exec)

text \<open>A bracket that opens by acting on the settings and holding the mutex.\<close>

lemma follows_bracket:
  assumes "controller_ok E xact" and "\<forall>op \<in> set ops. burst_buffers op" and "moves E n f F"
    and open_eq: "\<And>s. lock_at s n = Some False \<Longrightarrow> start s = Inr (set_lock n (Some True) (upd_dev n f s))"
  shows "acts_as E n (exec (start # map (burst_step E (Some n)) ops @ [spiEndTransaction (Some n)])) F"
  unfolding acts_as_def
proof (intro allI impI)
  fix s :: "'a spi_state"
  assume free: "lock_at s n = Some False"
  let ?u = "set_lock n (Some True) (upd_dev n f s)"
  have u: "settings E n ?u = F (settings E n s)" "lock_at ?u n = Some True" "\<forall>k. k \<noteq> n \<longrightarrow> buses ?u k = buses s k"
    using assms(3) by (simp_all add: moves_def set_lock_other upd_dev_other)
  obtain v where v: "exec (map (burst_step E (Some n)) ops) ?u = Inr v" "lock_at v n = Some True"
    using bursts_calm(2) [OF assms(1,2)] u(2) unfolding quiet_def by metis
  have sv: "settings E n v = settings E n ?u" "\<forall>k. k \<noteq> n \<longrightarrow> buses v k = buses ?u k"
    using calmD [OF bursts_calm(1) [OF assms(1,2)] v(1)] by (auto intro: settings_config)
  have "exec (start # map (burst_step E (Some n)) ops @ [spiEndTransaction (Some n)]) s = Inr (set_lock n (Some False) v)"
    using v by (simp add: open_eq [OF free] exec_append spiEndTransaction_def mutex_unlock_held)
  then show "\<exists>t. exec (start # map (burst_step E (Some n)) ops @ [spiEndTransaction (Some n)]) s = Inr t
      \<and> settings E n t = F (settings E n s) \<and> lock_at t n = Some False \<and> (\<forall>k. k \<noteq> n \<longrightarrow> buses t k = buses s k)"
    using u sv by (auto simp: set_lock_other)
qed

lemma item_follows:
  assumes "controller_ok E xact" and "layout_ok (layout E)" and "item_buffers it"
  shows "acts_as E n (item_step E n it) (item_settings it)"
proof (cases it)
  case (Call op)
  have "item_settings it = op_settings op" by (rule ext) (simp add: Call)
  with Call assms(3) op_follows [OF assms(1,2)] show ?thesis by simp
next
  case (Burst c m b ops)
  have "moves E n (with_order (layout E) b \<circ> (with_mode (layout E) m \<circ> (\<lambda>d. d\<lparr>clock := c\<rparr>)))
      ((\<lambda>x. x\<lparr>st_order := legal_order (st_order x) b\<rparr>) \<circ> ((\<lambda>x. x\<lparr>st_mode := legal_mode m\<rparr>) \<circ> (\<lambda>x. x\<lparr>st_clock := c\<rparr>)))"
    by (intro moves_comp moves_order moves_mode moves_clock assms(2))
  moreover have "(\<lambda>x. x\<lparr>st_order := legal_order (st_order x) b\<rparr>) \<circ> ((\<lambda>x. x\<lparr>st_mode := legal_mode m\<rparr>) \<circ> (\<lambda>x. x\<lparr>st_clock := c\<rparr>))
      = item_settings it"
    by (rule ext) (simp add: Burst)
  ultimately show ?thesis
    using follows_bracket [OF assms(1) _ _ spiTransaction_eq] assms(3) by (simp add: Burst)
next
  case (Simple ops)
  have "moves E n (\<lambda>d. d) (\<lambda>x. x)" by (simp add: moves_def upd_dev_def)
  then have "acts_as E n (item_step E n it) (\<lambda>x. x)"
    unfolding Simple item_step.simps
    by (rule follows_bracket [OF assms(1), rotated])
      (use assms(3) Simple in \<open>simp_all add: spiSimpleTransaction_def mutex_lock_free upd_dev_def\<close>)
  moreover have "item_settings it = (\<lambda>x. x)" by (rule ext) (simp add: Simple)
  ultimately show ?thesis by simp
qed

section \<open>A program on a started bus\<close>

definition fresh_settings :: "32 word \<Rightarrow> 8 word \<Rightarrow> 8 word \<Rightarrow> bus_settings" where
  "fresh_settings c m b = \<lparr>st_clock = c, st_mode = legal_mode m, st_order = legal_order SPI_MSBFIRST b,
     st_off = {}, st_setup = False, st_hold = False, st_keep = False\<rparr>"

lemma started_settings:
  assumes "layout_ok (layout E)" and "started_dev (layout E) c m b (dev_at s n)"
  shows "settings E n s = fresh_settings c m b"
proof -
  have "b_ck_out_edge (layout E) \<noteq> b_doutdin (layout E)" "b_ck_out_edge (layout E) \<noteq> b_usr_miso (layout E)"
    "b_ck_out_edge (layout E) \<noteq> b_usr_mosi (layout E)"
    "b_cs_setup (layout E) \<notin> {b_doutdin (layout E), b_usr_miso (layout E), b_usr_mosi (layout E), b_ck_out_edge (layout E)}"
    "b_cs_hold (layout E) \<notin> {b_doutdin (layout E), b_usr_miso (layout E), b_usr_mosi (layout E), b_ck_out_edge (layout E)}"
    using assms(1) by (auto simp: layout_ok_def)
  then show ?thesis
    using assms(2) layout_okD [OF assms(1)] layout_distinct [OF assms(1)]
    by (auto simp: started_dev_def settings_def fresh_settings_def spiGetClockDiv_def spiGetDataMode_def
        spiGetBitOrder_def legal_mode_def legal_order_def bit_put_bit Let_def SPI_MODE0_def SPI_MODE1_def SPI_MODE2_def
        SPI_MODE3_def SPI_MSBFIRST_def SPI_LSBFIRST_def)
qed

text \<open>Property C7. A bus behaves as the machine of its settings: after \<open>spiStartBus\<close> and any sequence of calls and
  transactions (reads and writes of any kind among them), the getters and the chip-select bits report
  what the machine computes from the arguments of the configuring calls alone; the mutex is free and
  the other three controllers have not been touched.\<close>

theorem settings_follow:
  assumes "controller_ok E xact" and "layout_ok (layout E)" and "\<forall>it \<in> set items. item_buffers it"
    and "num \<le> 3" and "startable E (unat num) s"
  shows "\<exists>u t. spiStartBus E num c m b s = Inr (Some (unat num), u)
    \<and> exec (map (item_step E (unat num)) items) u = Inr t
    \<and> settings E (unat num) t = fold item_settings items (fresh_settings c m b)
    \<and> lock_at t (unat num) = Some False
    \<and> (\<forall>k. k \<noteq> unat num \<longrightarrow> buses t k = buses s k)"
proof -
  let ?n = "unat num"
  obtain u where u: "spiStartBus E num c m b s = Inr (Some ?n, u)" "settings E ?n u = fresh_settings c m b"
    "lock_at u ?n = Some False" "\<forall>k. k \<noteq> ?n \<longrightarrow> buses u k = buses s k"
    using start_bus [OF assms(2,5,4), of c m b] started_settings [OF assms(2)] by blast
  have "acts_as E ?n (exec (map (item_step E ?n) items)) (fold item_settings items)"
    using assms(3) by (intro follows_exec item_follows [OF assms(1,2)]) simp
  with u(3) obtain t where "exec (map (item_step E ?n) items) u = Inr t"
    "settings E ?n t = fold item_settings items (settings E ?n u)" "lock_at t ?n = Some False"
    "\<forall>k. k \<noteq> ?n \<longrightarrow> buses t k = buses u k"
    unfolding acts_as_def by blast
  with u show ?thesis by auto
qed

lemma settings_follow_witness:
  "\<exists>u t. spiStartBus demo_env 3 5 SPI_MODE2 7 (demo_state None (\<lambda>_. 0)) = Inr (Some 3, u)
    \<and> exec (map (item_step demo_env 3) [Call (DisableSSPins 6), Call (WriteLong 9),
          Burst 8 SPI_MODE1 SPI_LSBFIRST [WriteByteNL 1], Call (AttachSS 1 5), Call SSSet]) u = Inr t
    \<and> settings demo_env 3 t = \<lparr>st_clock = 8, st_mode = 1, st_order = 0, st_off = {2}, st_setup = False,
          st_hold = False, st_keep = True\<rparr>"
proof -
  let ?items = "[Call (DisableSSPins 6), Call (WriteLong 9), Burst 8 SPI_MODE1 SPI_LSBFIRST [WriteByteNL 1],
      Call (AttachSS 1 5), Call SSSet]"
  have "startable demo_env (unat (3 :: 8 word)) (demo_state None (\<lambda>_. 0))" by (simp add: startable_def)
  with settings_follow [OF demo_controller_ok, of ?items 3 "demo_state None (\<lambda>_. 0)" 5 SPI_MODE2 7]
  obtain u t where ut: "spiStartBus demo_env 3 5 SPI_MODE2 7 (demo_state None (\<lambda>_. 0)) = Inr (Some 3, u)"
    "exec (map (item_step demo_env 3) ?items) u = Inr t"
    "settings demo_env 3 t = fold item_settings ?items (fresh_settings 5 SPI_MODE2 7)"
    by (auto simp: esp32_layout_ok simp del: exec.simps list.map fold_simps)
  have "lines 6 = {1, 2}"
    by (auto simp: lines_def numeral_3_eq_3 less_Suc_eq bit_numeral_rec)
  then have "fold item_settings ?items (fresh_settings 5 SPI_MODE2 7) = \<lparr>st_clock = 8, st_mode = 1, st_order = 0,
      st_off = {2}, st_setup = False, st_hold = False, st_keep = True\<rparr>"
    by (auto simp: fresh_settings_def legal_mode_def legal_order_def SPI_MODE0_def SPI_MODE1_def SPI_MODE2_def
        SPI_MODE3_def SPI_MSBFIRST_def SPI_LSBFIRST_def)
  with ut show ?thesis by metis
qed

end
