(* ===== verification/Spi_Hang.thy ===== *)
theory Spi_Hang
  imports Spi_Locks
begin

text \<open>
  What the SPI driver of \<^verbatim>\<open>esp32/esp32spi.c\<close> does when the controller does not finish: its wait loops have no
  time-out.  \<open>Spi_Locks\<close> shows that with a controller that clears its busy bit every call returns; here
  the controller keeps the bit set, and the calls are divided into those that wait for ever and those
  that return all the same.
\<close>

section \<open>A stopped controller\<close>

definition never_clears :: "'h spi_env \<Rightarrow> nat \<Rightarrow> bool" where
  "never_clears E n \<longleftrightarrow> (\<forall>x. bit (cmd (fst x)) (b_usr (layout E)) \<longrightarrow> bit (cmd (fst (ctrl_tick E n x))) (b_usr (layout E)))"

text \<open>The calls that start a transaction: of the transfers all, even of no words or bits, except a byte buffer
  of length zero.\<close>

fun transacts :: "bus_op \<Rightarrow> bool" where
  "transacts (Write data len) = True"
| "transacts (Transfer data len) = True"
| "transacts (WriteByte b) = True"
| "transacts (WriteWord d) = True"
| "transacts (WriteLong w) = True"
| "transacts (TransferByte b) = True"
| "transacts (TransferWord d) = True"
| "transacts (TransferLong w) = True"
| "transacts (TransferBytes data out sz) = (sz \<noteq> 0)"
| "transacts (TransferBits data out bits) = True"
| "transacts op = False"

definition hangs :: "(spi_fault, 'h spi_state) step \<Rightarrow> bool" where
  "hangs c \<longleftrightarrow> (\<forall>s. c s = Inl ControllerHang)"

lemma wait_usr_hangs:
  assumes "never_clears E n" and "bit (cmd (dev_at s n)) (b_usr (layout E))"
  shows "wait_usr E n s = Inl ControllerHang"
proof -
  have "usr_wait (ctrl_tick E n) (b_usr (layout E)) (dev_at s n, hw s) = None"
    using assms unfolding never_clears_def by (intro usr_wait_stuck) auto
  then show ?thesis by (simp add: wait_usr_def)
qed

lemma wait_usr_idle: "\<not> bit (cmd (dev_at s n)) (b_usr (layout E)) \<Longrightarrow> wait_usr E n s = Inr s"
  by (simp add: wait_usr_def usr_wait_unfold upd_dev_def)

lemma run_hangs:
  assumes "never_clears E n" and "layout_ok (layout E)" and "\<And>c. c \<in> set pre \<Longrightarrow> quiet c"
  shows "hangs (exec (pre @ run_usr E n @ post))"
proof -
  have "exec (pre @ run_usr E n @ post) s = Inl ControllerHang" for s
  proof -
    have "quiet (exec pre)" by (rule quiet_exec) (rule assms(3))
    then obtain t where t: "exec pre s = Inr t" by (rule quietD)
    have "bit (cmd (dev_at (upd_dev n (\<lambda>d. d\<lparr>cmd := put_bit (b_usr (layout E)) True (cmd d)\<rparr>) t) n)) (b_usr (layout E))"
      using layout_okD(1) [OF assms(2)] by (simp add: bit_put_bit)
    from wait_usr_hangs [OF assms(1) this] t show ?thesis
      by (simp add: exec_append run_usr_def set_usr_def reg_step)
  qed
  then show ?thesis by (simp add: hangs_def)
qed

lemma hangs_bindr: "hangs c \<Longrightarrow> hangs (\<lambda>s. bindr (c s) d)"
  by (simp add: hangs_def)

lemma hangs_locked: "hangs (exec cs) \<Longrightarrow> lock_at s n = Some False \<Longrightarrow> locked n cs s = Inl ControllerHang"
  by (simp add: hangs_def locked_def mutex_lock_free exec_append)

lemma hangs_locked_exchange:
  assumes "never_clears E n" and "layout_ok (layout E)" and "lock_at s n = Some False"
  shows "locked_exchange E n dbitlen w s = Inl ControllerHang"
proof -
  have "hangs (exec ([set_mosi_dlen E n dbitlen, set_miso_dlen E n dbitlen, fifo_put n 0 w] @ run_usr E n @ []))"
    by (rule run_hangs [OF assms(1,2)]) (auto intro: quiets)
  then show ?thesis
    using assms(3) by (simp add: hangs_def locked_exchange_def word_exchange_def mutex_lock_free)
qed

lemma hangs_words:
  assumes "never_clears E n" and "layout_ok (layout E)"
  shows "hangs (exec (word_write E n dbitlen w))"
proof -
  have "hangs (exec ([set_mosi_dlen E n dbitlen, set_miso_dlen E n 0, fifo_put n 0 w] @ run_usr E n @ []))"
    by (rule run_hangs [OF assms]) (auto intro: quiets)
  then show ?thesis by (simp add: word_write_def)
qed

lemma hangs_buffers:
  assumes "never_clears E n" and "layout_ok (layout E)"
  shows "hangs (exec ([set_mosi_dlen E n v, set_miso_dlen E n v', fifo_from n (unat (min len (16 :: 8 word))) (Some a)] @ run_usr E n @ post))"
  by (rule run_hangs [OF assms]) (auto intro: quiets simp: unat_min_16)

lemma hangs_bits:
  assumes "never_clears E n" and "layout_ok (layout E)"
  shows "hangs (spiTransferBitsNL E (Some n) data out bits)"
proof -
  have "hangs (exec ([set_mosi_dlen E n v, set_miso_dlen E n v, fifo_put n 0 w] @ run_usr E n @ post))" for v w post
    by (rule run_hangs [OF assms]) (auto intro: quiets)
  then show ?thesis
    unfolding spiTransferBitsNL_def option.case Let_def hangs_def by blast
qed

lemma hangs_chunk:
  assumes "never_clears E n" and "layout_ok (layout E)"
  shows "hangs (spiTransferBytes_chunk E n data out k)"
proof -
  have "hangs (exec ([set_mosi_dlen E n v, set_miso_dlen E n v, fifo_fill n w f] @ run_usr E n @ post))" if "w \<le> 16" for v w f post
    by (rule run_hangs [OF assms]) (use that in \<open>auto intro: quiets\<close>)
  moreover have "((if 64 < k then 64 else k) + 3) div 4 \<le> 16" by (cases "64 < k") auto
  ultimately show ?thesis
    unfolding spiTransferBytes_chunk_def Let_def hangs_def by blast
qed

lemma hangs_bytes_loop:
  assumes "never_clears E n" and "layout_ok (layout E)" and "sz \<noteq> 0"
  shows "hangs (spiTransferBytes_loop E n data out sz)"
  using hangs_chunk [OF assms(1,2)] assms(3) by (simp add: hangs_def spiTransferBytes_loop.simps)

section \<open>Every call\<close>

lemma transacts_hangs:
  assumes "never_clears E n" and "layout_ok (layout E)" and "bus_buffers op" and "transacts op" and "lock_at s n = Some False"
  shows "bus_step E (Some n) op s = Inl ControllerHang"
proof (cases op)
  case (Write data len)
  then obtain a where "data = Some a" using assms(3) by auto
  then show ?thesis
    using hangs_locked [OF hangs_buffers [OF assms(1,2), where post = "[]"] assms(5)] by (simp add: Write spiWrite_eq)
next
  case (Transfer data len)
  then obtain a where "data = Some a" using assms(3) by auto
  then show ?thesis
    using hangs_locked [OF hangs_buffers [OF assms(1,2)] assms(5)] by (simp add: Transfer spiTransfer_eq)
next
  case (TransferBytes data out sz)
  then have "unat sz \<noteq> 0" using assms(4) by (simp add: unat_eq_0)
  then have "hangs (exec [spiTransferBytes_loop E n data out (unat sz)])"
    using hangs_bytes_loop [OF assms(1,2)] by (simp add: hangs_def)
  from hangs_locked [OF this assms(5)] show ?thesis by (simp add: TransferBytes spiTransferBytes_def)
next
  case (TransferBits data out bits)
  have "hangs (exec [spiTransferBitsNL E (Some n) data out bits])"
    using hangs_bits [OF assms(1,2)] by (simp add: hangs_def)
  from hangs_locked [OF this assms(5)] show ?thesis by (simp add: TransferBits spiTransferBits_def)
qed (use assms(4) hangs_locked [OF hangs_words [OF assms(1,2)] assms(5)] hangs_locked_exchange [OF assms(1,2,5)] in
    \<open>simp_all add: spiWriteByte_def spiWriteWord_def spiWriteLong_def spiTransferByte_def spiTransferWord_def
      spiTransferLong_def void_def Let_def\<close>)

text \<open>A call that starts no transaction does not look at the controller, so it does what it would do with one
  that finishes at once.\<close>

definition finishing :: "'h spi_env \<Rightarrow> 'h spi_env" where
  "finishing E = E\<lparr>ctrl_tick := (\<lambda>n x. ((fst x)\<lparr>cmd := put_bit (b_usr (layout E)) False (cmd (fst x))\<rparr>, snd x))\<rparr>"

lemma finishing_ok:
  assumes "layout_ok (layout E)"
  shows "controller_ok (finishing E) (\<lambda>n d h. (data_buf d, h))"
proof -
  have "usr_wait (ctrl_tick (finishing E) n) (b_usr (layout E)) (d, h) =
      Some (d\<lparr>cmd := put_bit (b_usr (layout E)) False (cmd d), data_buf := data_buf d\<rparr>, h)"
    if "bit (cmd d) (b_usr (layout E))" for n d h
    using that layout_okD(1) [OF assms]
    by (subst usr_wait_unfold, subst usr_wait_unfold) (simp add: finishing_def bit_put_bit)
  moreover have "layout (finishing E) = layout E" by (simp add: finishing_def)
  ultimately show ?thesis by (simp add: controller_ok_def)
qed

lemma bytes_loop_0: "spiTransferBytes_loop E n data out 0 = Inr"
  by (rule ext) (simp add: spiTransferBytes_loop.simps)

lemma others_ignore_controller:
  assumes "\<not> transacts op" and "op \<noteq> WaitReady"
  shows "bus_step (finishing E) (Some n) op = bus_step E (Some n) op"
  using assms
  by (cases op)
    (simp_all add: finishing_def spiAttachSCK_def spiAttachMISO_def spiAttachMOSI_def spiDetachSCK_def spiDetachMISO_def
      spiDetachMOSI_def spiAttachSS_def spiDetachSS_def spiEnableSSPins_def spiDisableSSPins_def spiSSEnable_def
      spiSSDisable_def spiSSSet_def spiSSClear_def spiSetClockDiv_def spiSetDataMode_def spiSetBitOrder_def
      mode_switch_def order_switch_def set_edges_def set_orders_def spiStopBus_def spiTransferBytes_def bytes_loop_0 Let_def cong: if_cong)

lemma others_return:
  assumes "layout_ok (layout E)" and "\<not> transacts op" and "op \<noteq> WaitReady" and "bus_buffers op"
  shows "clean n (bus_step E (Some n) op)"
  using bus_clean [OF finishing_ok [OF assms(1)] assms(4), of n] others_ignore_controller [OF assms(2,3), of E n] by simp

lemma calls_wait:
  assumes "never_clears E n" and "layout_ok (layout E)" and "lock_at s n = Some False"
    and "\<forall>op \<in> set ops. bus_buffers op \<and> op \<noteq> WaitReady"
  shows "if \<exists>op \<in> set ops. transacts op then exec (map (bus_step E (Some n)) ops) s = Inl ControllerHang
      else \<exists>t. exec (map (bus_step E (Some n)) ops) s = Inr t \<and> (\<forall>k. lock_at t k = lock_at s k)"
  using assms(3,4)
proof (induction ops arbitrary: s)
  case Nil
  then show ?case by simp
next
  case (Cons op ops)
  show ?case
  proof (cases "transacts op")
    case True
    with Cons.prems show ?thesis using transacts_hangs [OF assms(1,2)] by simp
  next
    case False
    then have "clean n (bus_step E (Some n) op)" using Cons.prems(2) by (intro others_return [OF assms(2)]) auto
    then obtain t where t: "bus_step E (Some n) op s = Inr t" "\<forall>k. lock_at t k = lock_at s k"
      using Cons.prems(1) by (auto simp: clean_def)
    with Cons.IH [of t] Cons.prems False show ?thesis by (simp split: if_splits)
  qed
qed

text \<open>Property C28. The driver's wait for the controller has no time-out.  On a bus whose controller never clears its busy
  bit, and whose mutex is free, a sequence of calls outside a transaction returns exactly when none of
  them starts a transaction, and then every mutex is as before; otherwise the first one that does
  waits for ever inside the call.  \<open>spiWaitReady\<close> returns exactly when no transaction is in progress.
  Transfers of zero words or bits start a transaction, a transfer of zero bytes does not.\<close>

theorem only_transfers_wait:
  assumes "never_clears E n" and "layout_ok (layout E)" and "lock_at s n = Some False"
    and "\<forall>op \<in> set ops. bus_buffers op \<and> op \<noteq> WaitReady"
  shows "(if \<exists>op \<in> set ops. transacts op then exec (map (bus_step E (Some n)) ops) s = Inl ControllerHang
      else \<exists>t. exec (map (bus_step E (Some n)) ops) s = Inr t \<and> (\<forall>k. lock_at t k = lock_at s k))
    \<and> spiWaitReady E (Some n) s = (if bit (cmd (dev_at s n)) (b_usr (layout E)) then Inl ControllerHang else Inr s)"
  using calls_wait [OF assms] wait_usr_hangs [OF assms(1), of s] wait_usr_idle [of s n E]
  by (simp only: spiWaitReady_def option.case) (simp split: if_splits)

lemma only_transfers_wait_witness:
  "exec (map (bus_step (demo_env\<lparr>ctrl_tick := (\<lambda>n x. x)\<rparr>) (Some 2)) [SetDataMode 1, Transfer (Some 0) 0])
      (demo_state (Some False) (\<lambda>_. 0)) = Inl ControllerHang
   \<and> (\<exists>t. exec (map (bus_step (demo_env\<lparr>ctrl_tick := (\<lambda>n x. x)\<rparr>) (Some 2)) [TransferBytes None None 0, StopBus])
      (demo_state (Some False) (\<lambda>_. 0)) = Inr t)"
proof -
  let ?E = "demo_env\<lparr>ctrl_tick := (\<lambda>n x. x)\<rparr>" and ?s = "demo_state (Some False) (\<lambda>_. 0)"
  have "never_clears ?E 2" "layout_ok (layout ?E)" "lock_at ?s 2 = Some False"
    by (simp_all add: never_clears_def esp32_layout_ok)
  note p = only_transfers_wait [OF this]
  show ?thesis
    using p [of "[SetDataMode 1, Transfer (Some 0) 0]", THEN conjunct1]
      p [of "[TransferBytes None None 0, StopBus]", THEN conjunct1]
    by (auto simp del: exec.simps list.map)
qed

end
