(* ===== verification/I2c.thy ===== *)
theory I2c
  imports Prelude
begin

text \<open>
  The I2C masters: the C functions of \<^verbatim>\<open>esp32/soc/i2chal.c\<close>, the class of
  \<^verbatim>\<open>esp32/hardwarei2calgorithm.cpp\<close> that does the same for the bit-level interface of the core
  library, and the message-level class of \<^verbatim>\<open>esp32/esp32i2calgorithm.cpp\<close>.  All three queue commands
  on a command link of the SDK driver and then run the link.  The driver is outside the repository:
  the model records every call made to it, with the handle a creation returned, and its answers are
  functions of the calls so far.
\<close>

section \<open>The driver's interface\<close>

datatype i2c_cmd =
    CmdStart | CmdStop
  | CmdWriteByte byte bool      \<comment> \<open>value, acknowledge check\<close>
  | CmdWrite nat nat bool       \<comment> \<open>address and length of the data, acknowledge check\<close>
  | CmdReadByte nat bool        \<comment> \<open>destination; \<open>True\<close> for \<open>I2C_MASTER_ACK\<close>, \<open>False\<close> for \<open>I2C_MASTER_LAST_NACK\<close>\<close>
  | CmdRead nat nat bool        \<comment> \<open>destination, length, acknowledge\<close>

record i2c_config =
  sda_io_num :: int
  scl_io_num :: int
  sda_pullup_en :: bool
  scl_pullup_en :: bool
  clk_speed :: "32 word"

type_synonym link = "nat option"   \<comment> \<open>an \<open>i2c_cmd_handle_t\<close>, \<open>None\<close> for NULL\<close>

datatype i2c_call =
    i2c_param_config nat i2c_config
  | i2c_driver_install nat
  | i2c_driver_delete nat
  | i2c_set_timeout nat nat
  | i2c_filter_enable nat nat
  | i2c_get_period nat
  | i2c_set_period nat int int
  | i2c_cmd_link_create link
  | i2c_cmd_link_delete link
  | i2c_master link i2c_cmd
  | i2c_master_cmd_begin nat link nat

text \<open>The answers of the driver after a sequence of calls (\<open>i2c_period\<close> are the two values that
  \<open>i2c_get_period\<close> stores), the constants of the core library and the configuration switch of the
  clock patch.\<close>

record i2c_env =
  new_link :: "i2c_call list \<Rightarrow> link"
  esp_err :: "i2c_call list \<Rightarrow> int"
  i2c_period :: "i2c_call list \<Rightarrow> int \<times> int"
  CONFIG_PATCH_I2C_CLOCK :: bool
  portTICK_PERIOD_MS :: nat
  EOK :: int
  EINVALID :: int

definition ESP_OK :: int where "ESP_OK = 0"
definition I2C_NUM_0 :: nat where "I2C_NUM_0 = 0"
definition I2C_NUM_MAX :: nat where "I2C_NUM_MAX = 2"
definition TIMEOUT :: nat where "TIMEOUT = 500"

text \<open>The static variables of either implementation, and the calls made so far.\<close>

record i2c_state =
  i2c_conf :: i2c_config
  handle :: link
  i2c_calls :: "i2c_call list"

definition i2c_do :: "i2c_call list \<Rightarrow> i2c_state \<Rightarrow> i2c_state" where
  "i2c_do cs s = s\<lparr>i2c_calls := i2c_calls s @ cs\<rparr>"

definition queue_cmd :: "i2c_cmd \<Rightarrow> i2c_state \<Rightarrow> i2c_state" where
  "queue_cmd c s = i2c_do [i2c_master (handle s) c] s"

section \<open>The HAL functions\<close>

definition i2c_set_frequency :: "32 word \<Rightarrow> i2c_state \<Rightarrow> i2c_state" where
  "i2c_set_frequency freq s =
     (let s = s\<lparr>i2c_conf := (i2c_conf s)\<lparr>clk_speed := freq\<rparr>\<rparr>
      in i2c_do [i2c_param_config I2C_NUM_0 (i2c_conf s)] s)"

text \<open>Read the high and low period of the clock of a port and make both shorter.\<close>

definition shorten_period :: "i2c_env \<Rightarrow> nat \<Rightarrow> int \<Rightarrow> i2c_state \<Rightarrow> i2c_state" where
  "shorten_period E port k s =
     (let s = i2c_do [i2c_get_period port] s; (hi, lo) = i2c_period E (i2c_calls s)
      in i2c_do [i2c_set_period port (hi - k) (lo - k)] s)"

definition patch_i2c_clock :: "i2c_env \<Rightarrow> i2c_state \<Rightarrow> i2c_state" where
  "patch_i2c_clock E s = (if CONFIG_PATCH_I2C_CLOCK E then shorten_period E I2C_NUM_0 10 s else s)"

definition i2c_setup :: "i2c_env \<Rightarrow> int \<Rightarrow> int \<Rightarrow> 32 word \<Rightarrow> i2c_state \<Rightarrow> i2c_state" where
  "i2c_setup E scl sda freq s =
     (let s = s\<lparr>i2c_conf := \<lparr>sda_io_num = sda, scl_io_num = scl, sda_pullup_en = False,
                           scl_pullup_en = False, clk_speed = freq\<rparr>\<rparr>;
          s = i2c_do [i2c_param_config I2C_NUM_0 (i2c_conf s), i2c_driver_install I2C_NUM_0,
                      i2c_set_timeout I2C_NUM_0 20000] s;
          s = patch_i2c_clock E s
      in s\<lparr>handle := None\<rparr>)"

definition i2c_disable :: "i2c_state \<Rightarrow> i2c_state" where
  "i2c_disable = i2c_do [i2c_driver_delete I2C_NUM_0]"

definition i2c_reset :: "i2c_state \<Rightarrow> i2c_state" where
  "i2c_reset s = (if handle s = None then s
     else (i2c_do [i2c_cmd_link_delete (handle s)] s)\<lparr>handle := None\<rparr>)"

text \<open>\<^verbatim>\<open>if(handle == NULL) handle = i2c_cmd_link_create();\<close>\<close>

definition ensure_link :: "i2c_env \<Rightarrow> i2c_state \<Rightarrow> i2c_state" where
  "ensure_link E s = (if handle s = None then
       let h = new_link E (i2c_calls s) in (i2c_do [i2c_cmd_link_create h] s)\<lparr>handle := h\<rparr>
     else s)"

definition i2c_start :: "i2c_env \<Rightarrow> 16 word \<Rightarrow> bool \<Rightarrow> i2c_state \<Rightarrow> i2c_state" where
  "i2c_start E sla repeated s =
     queue_cmd (CmdWriteByte (ucast (sla AND 0xFF)) True) (queue_cmd CmdStart (ensure_link E s))"

definition i2c_stop :: "i2c_state \<Rightarrow> i2c_state" where
  "i2c_stop = queue_cmd CmdStop"

definition i2c_write_byte :: "byte \<Rightarrow> bool \<Rightarrow> i2c_state \<Rightarrow> i2c_state" where
  "i2c_write_byte b ack = queue_cmd (CmdWriteByte b True)"

definition i2c_write_buffer :: "nat \<Rightarrow> nat \<Rightarrow> bool \<Rightarrow> i2c_state \<Rightarrow> i2c_state" where
  "i2c_write_buffer bytes len ack = queue_cmd (CmdWrite bytes len True)"

definition i2c_read_byte :: "nat \<Rightarrow> bool \<Rightarrow> i2c_state \<Rightarrow> i2c_state" where
  "i2c_read_byte dst ack = queue_cmd (CmdReadByte dst ack)"

definition i2c_read_buffer :: "nat \<Rightarrow> nat \<Rightarrow> bool \<Rightarrow> i2c_state \<Rightarrow> i2c_state" where
  "i2c_read_buffer dst len ack = queue_cmd (CmdRead dst len ack)"

definition i2c_write_buffers :: "i2c_env \<Rightarrow> i2c_state \<Rightarrow> int \<times> i2c_state" where
  "i2c_write_buffers E s =
     (let s = i2c_do [i2c_master_cmd_begin I2C_NUM_0 (handle s) (TIMEOUT div portTICK_PERIOD_MS E)] s
      in (if esp_err E (i2c_calls s) \<noteq> ESP_OK then - EINVALID E else - EOK E, s))"

section \<open>The class\<close>

text \<open>An object is its port number; \<open>config\<close> and \<open>handle\<close> are static, shared by all objects.
  \<open>ESP_ERROR_CHECK\<close> aborts the program when a call fails.\<close>

type_synonym hw_i2c = nat

datatype i2c_abort = EspAbort i2c_call

definition ESP_ERROR_CHECK :: "i2c_env \<Rightarrow> i2c_call \<Rightarrow> (i2c_abort, i2c_state) step" where
  "ESP_ERROR_CHECK E c s = (let s = i2c_do [c] s
     in if esp_err E (i2c_calls s) = ESP_OK then Inr s else Inl (EspAbort c))"

definition patchClock :: "i2c_env \<Rightarrow> hw_i2c \<Rightarrow> i2c_state \<Rightarrow> i2c_state" where
  "patchClock E port s = (if CONFIG_PATCH_I2C_CLOCK E then shorten_period E port 7 s else s)"

definition HardwareI2CAlgorithm ::
  "i2c_env \<Rightarrow> int \<Rightarrow> int \<Rightarrow> 32 word \<Rightarrow> i2c_state \<Rightarrow> i2c_abort + (hw_i2c \<times> i2c_state)" where
  "HardwareI2CAlgorithm E scl sda frequency s =
     (let port = I2C_NUM_0;
          s = s\<lparr>i2c_conf := \<lparr>sda_io_num = sda, scl_io_num = scl, sda_pullup_en = False,
                           scl_pullup_en = False, clk_speed = frequency\<rparr>\<rparr>
      in bindr (exec [ESP_ERROR_CHECK E (i2c_param_config port (i2c_conf s)),
                      ESP_ERROR_CHECK E (i2c_driver_install port),
                      ESP_ERROR_CHECK E (i2c_set_timeout port 20000),
                      ESP_ERROR_CHECK E (i2c_filter_enable port 4)] s)
           (\<lambda>s. Inr (port, (patchClock E port s)\<lparr>handle := None\<rparr>)))"

text \<open>Move construction and move assignment; the result lists the new value of the moved-to object and
  of the moved-from object.\<close>

definition hw_move_ctor :: "hw_i2c \<Rightarrow> hw_i2c \<times> hw_i2c" where
  "hw_move_ctor other = (I2C_NUM_0, other)"

definition hw_move_assign :: "hw_i2c \<Rightarrow> hw_i2c \<Rightarrow> hw_i2c \<times> hw_i2c" where
  "hw_move_assign this rhs = (rhs, I2C_NUM_MAX)"

definition hw_dtor :: "hw_i2c \<Rightarrow> i2c_state \<Rightarrow> i2c_state" where
  "hw_dtor port s = (if port \<ge> I2C_NUM_MAX then s else i2c_do [i2c_driver_delete port] s)"

definition hw_start :: "i2c_env \<Rightarrow> 16 word \<Rightarrow> bool \<Rightarrow> i2c_state \<Rightarrow> i2c_state" where
  "hw_start E sla repeated s =
     queue_cmd (CmdWriteByte (ucast (sla AND 0xFF)) True) (queue_cmd CmdStart (ensure_link E s))"

definition hw_stop :: "i2c_state \<Rightarrow> i2c_state" where
  "hw_stop = queue_cmd CmdStop"

definition hw_write_byte :: "byte \<Rightarrow> bool \<Rightarrow> i2c_state \<Rightarrow> i2c_state" where
  "hw_write_byte b ack = queue_cmd (CmdWriteByte b True)"

definition hw_write :: "nat \<Rightarrow> nat \<Rightarrow> bool \<Rightarrow> i2c_state \<Rightarrow> i2c_state" where
  "hw_write bytes len ack = queue_cmd (CmdWrite bytes len True)"

definition hw_read_byte :: "nat \<Rightarrow> bool \<Rightarrow> i2c_state \<Rightarrow> i2c_state" where
  "hw_read_byte dst ack = queue_cmd (CmdReadByte dst ack)"

definition hw_read :: "nat \<Rightarrow> nat \<Rightarrow> bool \<Rightarrow> i2c_state \<Rightarrow> i2c_state" where
  "hw_read dst len ack = queue_cmd (CmdRead dst len ack)"

definition hw_flush :: "i2c_env \<Rightarrow> hw_i2c \<Rightarrow> i2c_state \<Rightarrow> int \<times> i2c_state" where
  "hw_flush E port s =
     (let s = i2c_do [i2c_master_cmd_begin port (handle s) (TIMEOUT div portTICK_PERIOD_MS E)] s
      in (if esp_err E (i2c_calls s) \<noteq> ESP_OK then - EINVALID E else - EOK E, s))"

definition hw_reset :: "i2c_state \<Rightarrow> i2c_state" where
  "hw_reset s = (if handle s = None then s
     else (i2c_do [i2c_cmd_link_delete (handle s)] s)\<lparr>handle := None\<rparr>)"

text \<open>The frequency is also stored in the base class of the core library, which nothing here reads.\<close>

definition hw_setFrequency :: "hw_i2c \<Rightarrow> 32 word \<Rightarrow> i2c_state \<Rightarrow> i2c_state" where
  "hw_setFrequency port freq s =
     (let s = s\<lparr>i2c_conf := (i2c_conf s)\<lparr>clk_speed := freq\<rparr>\<rparr>
      in i2c_do [i2c_param_config port (i2c_conf s)] s)"

section \<open>Messages\<close>

text \<open>What the class reads from an \<open>I2CMessage\<close> of the core library.\<close>

record i2c_message =
  address :: "16 word"
  isRead :: bool
  repstart :: bool
  msg_data :: nat
  msg_count :: nat
  msg_index :: nat

text \<open>The commands queued for a message, and the message afterwards: a read sets its index.\<close>

definition prepareTransfer :: "i2c_message \<Rightarrow> i2c_cmd list \<times> i2c_message" where
  "prepareTransfer msg =
     (let address = push_bit 1 (address msg) in
      if isRead msg then
        ([CmdWriteByte (ucast (address OR 1)) True]
         @ (if msg_count msg > 1 then [CmdRead (msg_data msg) (msg_count msg - 1) True] else [])
         @ [CmdReadByte (msg_data msg + msg_count msg - 1) False],
         msg\<lparr>msg_index := msg_count msg\<rparr>)
      else ([CmdWriteByte (ucast (address OR 0)) True, CmdWrite (msg_data msg) (msg_count msg) True], msg))"

definition on_link :: "link \<Rightarrow> i2c_cmd list \<Rightarrow> i2c_call list" where
  "on_link h cs = map (i2c_master h) cs"

definition transfer_one ::
  "i2c_env \<Rightarrow> nat \<Rightarrow> i2c_message \<Rightarrow> i2c_call list \<Rightarrow> (int \<times> i2c_message) \<times> i2c_call list" where
  "transfer_one E port msg cs =
     (let h = new_link E cs;
          (prepared, msg) = prepareTransfer msg;
          cs = cs @ [i2c_cmd_link_create h]
                  @ on_link h ([CmdStart] @ prepared @ [CmdStop])
                  @ [i2c_master_cmd_begin port h (TIMEOUT div portTICK_PERIOD_MS E)];
          err = esp_err E cs;
          cs = cs @ [i2c_cmd_link_delete h]
      in ((if err \<noteq> ESP_OK then - EINVALID E else int (msg_count msg), msg), cs))"

text \<open>\<^verbatim>\<open>if(total >= 0) total += msg.count();\<close> in 32-bit arithmetic.\<close>

definition add_count :: "32 word \<Rightarrow> nat \<Rightarrow> 32 word" where
  "add_count tot n = (if sint tot \<ge> 0 then tot + of_nat n else tot)"

definition message_cmds :: "i2c_message \<Rightarrow> i2c_cmd list" where
  "message_cmds msg = [CmdStart] @ fst (prepareTransfer msg) @ (if \<not> repstart msg then [CmdStop] else [])"

definition transfer_all ::
  "i2c_env \<Rightarrow> nat \<Rightarrow> i2c_message list \<Rightarrow> i2c_call list \<Rightarrow> (int \<times> i2c_message list) \<times> i2c_call list" where
  "transfer_all E port msgs cs =
     (let h = new_link E cs;
          cs = cs @ [i2c_cmd_link_create h];
          (tot, cs) = fold (\<lambda>msg (tot, cs). (add_count tot (msg_count msg), cs @ on_link h (message_cmds msg)))
                          msgs (0, cs);
          msgs = map (\<lambda>msg. snd (prepareTransfer msg)) msgs;
          cs = cs @ [i2c_master_cmd_begin port h (TIMEOUT div portTICK_PERIOD_MS E)]
      in if esp_err E cs \<noteq> ESP_OK then ((- EINVALID E, msgs), cs @ [i2c_cmd_link_delete h])
         else ((sint tot, msgs), cs @ [i2c_cmd_link_delete h]))"


section \<open>Command queues and live links\<close>

text \<open>The commands queued on a link since it was last created, and the links created but not deleted.\<close>

fun queue_step :: "nat \<Rightarrow> i2c_call \<Rightarrow> i2c_cmd list \<Rightarrow> i2c_cmd list" where
  "queue_step h (i2c_cmd_link_create (Some k)) q = (if k = h then [] else q)"
| "queue_step h (i2c_master (Some k) c) q = (if k = h then q @ [c] else q)"
| "queue_step h _ q = q"

definition queue_of :: "nat \<Rightarrow> i2c_call list \<Rightarrow> i2c_cmd list" where
  "queue_of h cs = fold (queue_step h) cs []"

fun live_step :: "i2c_call \<Rightarrow> nat set \<Rightarrow> nat set" where
  "live_step (i2c_cmd_link_create (Some k)) L = insert k L"
| "live_step (i2c_cmd_link_delete (Some k)) L = L - {k}"
| "live_step _ L = L"

definition live :: "i2c_call list \<Rightarrow> nat set" where
  "live cs = fold live_step cs {}"

lemma queue_of_snoc: "queue_of h (cs @ [c]) = queue_step h c (queue_of h cs)"
  by (simp add: queue_of_def)

lemma queue_of_append: "queue_of h (cs @ ds) = fold (queue_step h) ds (queue_of h cs)"
  by (simp add: queue_of_def)

lemma live_append: "live (cs @ ds) = fold live_step ds (live cs)"
  by (simp add: live_def)

lemma fold_queue_on_link: "fold (queue_step h) (on_link (Some h) cs) q = q @ cs"
  by (induction cs arbitrary: q) (simp_all add: on_link_def)

lemma fold_live_on_link: "fold live_step (on_link h cs) L = L"
  by (induction cs) (simp_all add: on_link_def)

lemma i2c_do_simps [simp]:
  "i2c_calls (i2c_do cs s) = i2c_calls s @ cs" "handle (i2c_do cs s) = handle s"
  "i2c_conf (i2c_do cs s) = i2c_conf s"
  by (simp_all add: i2c_do_def)

definition pending :: "i2c_state \<Rightarrow> i2c_cmd list option" where
  "pending s = map_option (\<lambda>h. queue_of h (i2c_calls s)) (handle s)"

lemma pending_queue_cmd: "pending s = Some q \<Longrightarrow> pending (queue_cmd c s) = Some (q @ [c])"
  by (auto simp: pending_def queue_cmd_def queue_of_snoc)

lemma pending_ensure_link:
  "pending s = Some q \<Longrightarrow> pending (ensure_link E s) = Some q"
  "pending s = None \<Longrightarrow> new_link E (i2c_calls s) \<noteq> None \<Longrightarrow> pending (ensure_link E s) = Some []"
  by (auto simp: pending_def ensure_link_def Let_def queue_of_snoc)

section \<open>The bus interface\<close>

text \<open>The operations a client of a bit-level master calls between two resets, and the commands they queue.\<close>

datatype hal_op =
    Start "16 word" bool | Stop
  | WriteB byte bool | WriteBuf nat nat bool | ReadB nat bool | ReadBuf nat nat bool

fun op_cmds :: "hal_op \<Rightarrow> i2c_cmd list" where
  "op_cmds (Start sla r) = [CmdStart, CmdWriteByte (ucast (sla AND 0xFF)) True]"
| "op_cmds Stop = [CmdStop]"
| "op_cmds (WriteB b a) = [CmdWriteByte b True]"
| "op_cmds (WriteBuf p k a) = [CmdWrite p k True]"
| "op_cmds (ReadB p a) = [CmdReadByte p a]"
| "op_cmds (ReadBuf p k a) = [CmdRead p k a]"

text \<open>The contract of such a master: \<open>run\<close> performs an operation, \<open>reset\<close> drops what is queued; \<open>queued\<close>
  is the abstract state, \<open>able\<close> says that a link can be created.\<close>

locale i2c_bus =
  fixes run :: "hal_op \<Rightarrow> 's \<Rightarrow> 's" and reset :: "'s \<Rightarrow> 's"
    and queued :: "'s \<Rightarrow> i2c_cmd list option" and able :: "'s \<Rightarrow> bool"
  assumes run_queued: "queued s = Some q \<Longrightarrow> queued (run op s) = Some (q @ op_cmds op)"
    and run_start: "queued s = None \<Longrightarrow> able s \<Longrightarrow> queued (run (Start sla r) s) = Some (op_cmds (Start sla r))"
    and reset_queued: "queued (reset s) = None"
begin

lemma runs_queued: "queued s = Some q \<Longrightarrow> queued (fold run ops s) = Some (q @ concat (map op_cmds ops))"
  by (induction ops arbitrary: s q) (simp_all add: run_queued)

lemma message_queued:
  assumes "queued s = None" and "able s"
  shows "queued (fold run (Start sla r # ops) s) = Some (concat (map op_cmds (Start sla r # ops)))"
  using runs_queued [OF run_start [OF assms]] by simp

lemma message_after_reset:
  assumes "able (reset s)"
  shows "queued (fold run (Start sla r # ops) (reset s)) = Some (concat (map op_cmds (Start sla r # ops)))"
  using message_queued [OF reset_queued assms] .

end

fun hal_run :: "i2c_env \<Rightarrow> hal_op \<Rightarrow> i2c_state \<Rightarrow> i2c_state" where
  "hal_run E (Start sla r) = i2c_start E sla r"
| "hal_run E Stop = i2c_stop"
| "hal_run E (WriteB b a) = i2c_write_byte b a"
| "hal_run E (WriteBuf p k a) = i2c_write_buffer p k a"
| "hal_run E (ReadB p a) = i2c_read_byte p a"
| "hal_run E (ReadBuf p k a) = i2c_read_buffer p k a"

fun hw_run :: "i2c_env \<Rightarrow> hal_op \<Rightarrow> i2c_state \<Rightarrow> i2c_state" where
  "hw_run E (Start sla r) = hw_start E sla r"
| "hw_run E Stop = hw_stop"
| "hw_run E (WriteB b a) = hw_write_byte b a"
| "hw_run E (WriteBuf p k a) = hw_write p k a"
| "hw_run E (ReadB p a) = hw_read_byte p a"
| "hw_run E (ReadBuf p k a) = hw_read p k a"

lemmas hal_defs = i2c_start_def i2c_stop_def i2c_write_byte_def i2c_write_buffer_def i2c_read_byte_def
  i2c_read_buffer_def

lemmas hw_defs = hw_start_def hw_stop_def hw_write_byte_def hw_write_def hw_read_byte_def hw_read_def

lemma hal_run_pending:
  "pending s = Some q \<Longrightarrow> pending (hal_run E op s) = Some (q @ op_cmds op)"
  by (cases op) (simp_all add: hal_defs pending_queue_cmd pending_ensure_link)

lemma hw_run_is_hal_run: "hw_run E op s = hal_run E op s"
  by (cases op) (simp_all add: hal_defs hw_defs)

interpretation hal: i2c_bus "hal_run E" i2c_reset pending "\<lambda>s. new_link E (i2c_calls s) \<noteq> None" for E
  by unfold_locales
    (simp_all add: hal_run_pending i2c_start_def pending_queue_cmd pending_ensure_link,
     simp add: pending_def i2c_reset_def)

interpretation hw: i2c_bus "hw_run E" hw_reset pending "\<lambda>s. new_link E (i2c_calls s) \<noteq> None" for E
proof unfold_locales
  show "pending s = None \<Longrightarrow> new_link E (i2c_calls s) \<noteq> None \<Longrightarrow>
      pending (hw_run E (Start sla r) s) = Some (op_cmds (Start sla r))" for s sla r
    using hal.run_start by (simp only: hw_run_is_hal_run)
qed (simp_all only: hw_run_is_hal_run hal_run_pending, simp add: pending_def hw_reset_def)

lemma live_queue_cmd [simp]: "live (i2c_calls (queue_cmd c s)) = live (i2c_calls s)"
  by (simp add: queue_cmd_def live_append)

lemma handle_queue_cmd [simp]: "handle (queue_cmd c s) = handle s"
  by (simp add: queue_cmd_def)

text \<open>No link is lost: the live links are the one in \<open>handle\<close>.\<close>

definition links_ok :: "i2c_state \<Rightarrow> bool" where
  "links_ok s \<longleftrightarrow> live (i2c_calls s) = set_option (handle s)"

lemma links_ok_run: "links_ok s \<Longrightarrow> links_ok (hal_run E op s)"
  by (cases op; cases "new_link E (i2c_calls s)")
    (auto simp: links_ok_def hal_defs ensure_link_def Let_def live_append)

lemma links_ok_reset: "links_ok s \<Longrightarrow> links_ok (i2c_reset s) \<and> live (i2c_calls (i2c_reset s)) = {}"
  by (auto simp: links_ok_def i2c_reset_def live_append)

lemma links_ok_flush: "links_ok s \<Longrightarrow> links_ok (snd (i2c_write_buffers E s))"
  by (simp add: links_ok_def i2c_write_buffers_def Let_def live_append)

text \<open>Property C14. One message through the HAL: after a reset, a start, any further operations and a flush, the driver
  runs a link that holds exactly the commands of these operations, in order; the flush reports
  \<open>-EOK\<close> or \<open>-EINVALID\<close> according to the driver; and a final reset leaves no link behind.\<close>

theorem hal_message:
  assumes "new_link E (i2c_calls (i2c_reset s)) \<noteq> None" and "links_ok s"
    and "t = fold (hal_run E) (Start sla r # ops) (i2c_reset s)"
  shows "\<exists>h. handle t = Some h
    \<and> queue_of h (i2c_calls t) = concat (map op_cmds (Start sla r # ops))
    \<and> i2c_calls (snd (i2c_write_buffers E t)) =
        i2c_calls t @ [i2c_master_cmd_begin I2C_NUM_0 (Some h) (TIMEOUT div portTICK_PERIOD_MS E)]
    \<and> fst (i2c_write_buffers E t) =
        (if esp_err E (i2c_calls (snd (i2c_write_buffers E t))) = ESP_OK then - EOK E else - EINVALID E)
    \<and> handle (i2c_reset (snd (i2c_write_buffers E t))) = None
    \<and> live (i2c_calls (i2c_reset (snd (i2c_write_buffers E t)))) = {}"
proof -
  have "pending t = Some (concat (map op_cmds (Start sla r # ops)))"
    unfolding assms(3) by (rule hal.message_after_reset [OF assms(1)])
  then obtain h where h: "handle t = Some h" "queue_of h (i2c_calls t) = concat (map op_cmds (Start sla r # ops))"
    by (auto simp: pending_def)
  have "links_ok (fold (hal_run E) os u)" if "links_ok u" for os u
    using that by (induction os arbitrary: u) (simp_all add: links_ok_run)
  then have "links_ok t" using assms(2,3) links_ok_reset by blast
  then have "live (i2c_calls (i2c_reset (snd (i2c_write_buffers E t)))) = {}"
    using links_ok_reset [OF links_ok_flush] by blast
  with h show ?thesis
    by (auto simp: i2c_write_buffers_def Let_def i2c_reset_def)
qed

text \<open>A driver that hands out ever new links and always succeeds.\<close>

definition demo_i2c :: i2c_env where
  "demo_i2c = \<lparr>new_link = (\<lambda>cs. Some (length cs)), esp_err = (\<lambda>cs. 0), i2c_period = (\<lambda>cs. (400, 400)),
     CONFIG_PATCH_I2C_CLOCK = False, portTICK_PERIOD_MS = 10,
     EOK = 0, EINVALID = 1\<rparr>"

definition idle_i2c :: i2c_state where
  "idle_i2c = \<lparr>i2c_conf = \<lparr>sda_io_num = 23, scl_io_num = 22, sda_pullup_en = False,
     scl_pullup_en = False, clk_speed = 100000\<rparr>, handle = None, i2c_calls = []\<rparr>"

lemma hal_message_witness:
  "\<exists>h t. t = fold (hal_run demo_i2c) [Start 0xA0 False, WriteB 7 True, Stop] (i2c_reset idle_i2c) \<and> handle t = Some h
     \<and> queue_of h (i2c_calls t) = [CmdStart, CmdWriteByte 0xA0 True, CmdWriteByte 7 True, CmdStop]
     \<and> fst (i2c_write_buffers demo_i2c t) = 0"
proof -
  have "new_link demo_i2c (i2c_calls (i2c_reset idle_i2c)) \<noteq> None" "links_ok idle_i2c"
    by (simp_all add: demo_i2c_def links_ok_def live_def idle_i2c_def)
  from hal_message [OF this refl, of "0xA0" False "[WriteB 7 True, Stop]"] show ?thesis
    by (auto simp: demo_i2c_def ESP_OK_def)
qed

section \<open>The life of the links\<close>

text \<open>The driver never hands out a link that is still allocated.\<close>

definition fresh_links :: "i2c_env \<Rightarrow> bool" where
  "fresh_links E \<longleftrightarrow> (\<forall>cs. case new_link E cs of None \<Rightarrow> True | Some h \<Rightarrow> h \<notin> live cs)"

text \<open>A driver that hands out links never created before, for the witness.\<close>

fun created :: "i2c_call list \<Rightarrow> nat list" where
  "created [] = []"
| "created (i2c_cmd_link_create (Some h) # cs) = h # created cs"
| "created (c # cs) = created cs"

definition fresh_i2c :: i2c_env where
  "fresh_i2c = demo_i2c\<lparr>new_link := (\<lambda>cs. Some (Suc (sum_list (created cs))))\<rparr>"

lemma fold_live_created: "fold live_step cs L \<subseteq> L \<union> set (created cs)"
proof (induction cs arbitrary: L)
  case Nil
  then show ?case by simp
next
  case (Cons c cs)
  have "live_step c L \<union> set (created cs) \<subseteq> L \<union> set (created (c # cs))"
    by (cases "(c, L)" rule: live_step.cases) auto
  with Cons.IH [of "live_step c L"] show ?case by auto
qed

lemma fresh_i2c_fresh: "fresh_links fresh_i2c"
proof -
  have "Suc (sum_list (created cs)) \<notin> live cs" for cs
  proof
    assume "Suc (sum_list (created cs)) \<in> live cs"
    then have "Suc (sum_list (created cs)) \<in> set (created cs)"
      using fold_live_created [of cs "{}"] by (auto simp: live_def)
    then show False using member_le_sum_list [of "Suc (sum_list (created cs))" "created cs"] by simp
  qed
  then show ?thesis by (simp add: fresh_links_def fresh_i2c_def)
qed

text \<open>Every HAL function as a call of a client, and the links that were pending when \<open>i2c_setup\<close> was called.\<close>

datatype hal_use =
    BusOp hal_op | Flush | Reset | SetFrequency "32 word" | Setup int int "32 word" | Disable

fun use_hal :: "i2c_env \<Rightarrow> hal_use \<Rightarrow> i2c_state \<Rightarrow> i2c_state" where
  "use_hal E (BusOp op) s = hal_run E op s"
| "use_hal E Flush s = snd (i2c_write_buffers E s)"
| "use_hal E Reset s = i2c_reset s"
| "use_hal E (SetFrequency f) s = i2c_set_frequency f s"
| "use_hal E (Setup scl sda f) s = i2c_setup E scl sda f s"
| "use_hal E Disable s = i2c_disable s"

fun is_setup :: "hal_use \<Rightarrow> bool" where
  "is_setup (Setup scl sda f) = True"
| "is_setup u = False"

fun dropped :: "i2c_env \<Rightarrow> hal_use list \<Rightarrow> i2c_state \<Rightarrow> nat list" where
  "dropped E [] s = []"
| "dropped E (u # us) s = (case handle s of Some h \<Rightarrow> if is_setup u then [h] else [] | None \<Rightarrow> [])
     @ dropped E us (use_hal E u s)"

text \<open>The allocated links are the one in \<open>handle\<close> and those in \<open>D\<close>, which no call can reach.\<close>

definition links_at :: "i2c_state \<Rightarrow> nat list \<Rightarrow> bool" where
  "links_at s D \<longleftrightarrow> live (i2c_calls s) = set_option (handle s) \<union> set D \<and> set_option (handle s) \<inter> set D = {} \<and> distinct D"

lemma setup_state:
  "handle (i2c_setup E scl sda f s) = None" "live (i2c_calls (i2c_setup E scl sda f s)) = live (i2c_calls s)"
  by (simp_all add: i2c_setup_def patch_i2c_clock_def shorten_period_def Let_def live_append split_def)

lemma ensure_links_at:
  assumes "fresh_links E" and "links_at s D"
  shows "links_at (ensure_link E s) D"
proof (cases "handle s")
  case None
  then show ?thesis
    using assms fresh_links_def [of E]
    by (cases "new_link E (i2c_calls s)")
      (auto simp: links_at_def ensure_link_def Let_def live_append split: option.splits dest!: spec [of _ "i2c_calls s"])
next
  case (Some h)
  then show ?thesis using assms(2) by (simp add: ensure_link_def)
qed

lemma links_at_queue [simp]: "links_at (queue_cmd c s) D = links_at s D"
  by (simp add: links_at_def)

lemma use_hal_links:
  assumes "fresh_links E" and "links_at s D"
  shows "links_at (use_hal E u s) (D @ (case handle s of Some h \<Rightarrow> if is_setup u then [h] else [] | None \<Rightarrow> []))"
proof (cases u)
  case (BusOp op)
  then show ?thesis
    using assms(2) ensure_links_at [OF assms] by (cases op) (simp_all add: hal_defs split: option.split)
next
  case Reset
  then show ?thesis
    using assms(2) by (auto simp: links_at_def i2c_reset_def live_append split: option.split)
next
  case (Setup scl sda f)
  then show ?thesis
    using assms(2) by (auto simp: links_at_def setup_state split: option.split)
qed (use assms(2) in \<open>simp_all add: links_at_def i2c_write_buffers_def i2c_set_frequency_def i2c_disable_def Let_def
      live_append split: option.split\<close>)

lemma uses_hal_links:
  assumes "fresh_links E" and "links_at s D"
  shows "links_at (fold (use_hal E) us s) (D @ dropped E us s)"
  using assms(2)
proof (induction us arbitrary: s D)
  case Nil
  then show ?case by simp
next
  case (Cons u us)
  from Cons.IH [OF use_hal_links [OF assms(1) Cons.prems]] show ?case by simp
qed

lemma reset_links_at: "links_at s D \<Longrightarrow> live (i2c_calls (i2c_reset s)) = set D"
  by (auto simp: links_at_def i2c_reset_def live_append)

text \<open>Property C32. What becomes of the command links, over any sequence of calls of all the HAL's functions from a
  state in which the only allocated link is the one in \<open>handle\<close>, for a driver that hands out no link
  still allocated: the allocated links are the one in \<open>handle\<close> and exactly one for each call of
  \<open>i2c_setup\<close> that was made while a link was pending; these are not in \<open>handle\<close>, all different, and
  a reset, which frees the link in \<open>handle\<close>, leaves them allocated.  So nothing is leaked as long as
  \<open>i2c_setup\<close> is only called with no link pending, and every other call of it leaks a link for ever.\<close>

theorem hal_links_invariant:
  assumes "fresh_links E" and "links_ok s"
  shows "let t = fold (use_hal E) us s; D = dropped E us s in
    live (i2c_calls t) = set_option (handle t) \<union> set D \<and> set_option (handle t) \<inter> set D = {} \<and> distinct D
    \<and> live (i2c_calls (i2c_reset t)) = set D
    \<and> (links_ok t \<longleftrightarrow> D = [])"
proof -
  have "links_at s []" using assms(2) by (simp add: links_at_def links_ok_def)
  from uses_hal_links [OF assms(1) this, of us]
  have t: "links_at (fold (use_hal E) us s) (dropped E us s)" by simp
  have "A \<union> set D = A \<longleftrightarrow> D = []" if "A \<inter> set D = {}" for A and D :: "nat list"
    using that by (cases D) auto
  with t have "links_ok (fold (use_hal E) us s) \<longleftrightarrow> dropped E us s = []" by (simp add: links_at_def links_ok_def)
  then show ?thesis
    using t reset_links_at [OF t] by (simp add: Let_def links_at_def)
qed

lemma hal_links_invariant_witness:
  "live (i2c_calls (fold (use_hal fresh_i2c) [Setup 22 23 100000, BusOp (Start 0xA0 False), Flush, Reset,
        BusOp (Start 0xA0 True)] idle_i2c)) = {2}
   \<and> live (i2c_calls (fold (use_hal fresh_i2c) [BusOp (Start 0xA0 False), Setup 22 23 100000, Reset] idle_i2c)) = {1}"
proof -
  let ?us = "[Setup 22 23 100000, BusOp (Start 0xA0 False), Flush, Reset, BusOp (Start 0xA0 True)]"
  let ?vs = "[BusOp (Start 0xA0 False), Setup 22 23 100000, Reset]"
  have "links_ok idle_i2c" by (simp add: links_ok_def live_def idle_i2c_def)
  note p = hal_links_invariant [OF fresh_i2c_fresh this]
  have "set_option (handle (fold (use_hal fresh_i2c) ?us idle_i2c)) \<union> set (dropped fresh_i2c ?us idle_i2c) = {2}"
    "set_option (handle (fold (use_hal fresh_i2c) ?vs idle_i2c)) \<union> set (dropped fresh_i2c ?vs idle_i2c) = {1}"
    by (simp_all add: i2c_setup_def i2c_start_def i2c_write_buffers_def i2c_reset_def ensure_link_def patch_i2c_clock_def
        queue_cmd_def Let_def i2c_do_def idle_i2c_def fresh_i2c_def demo_i2c_def)
  then show ?thesis using p [of ?us] p [of ?vs] by (simp only: Let_def)
qed

section \<open>The class\<close>

text \<open>Property C15. The class drives the bus as the HAL does: after a reset, a start, any further operations and a
  flush on an object of port 0 make the same driver calls and return the same value as the HAL
  functions, and the link that is run holds exactly the commands of the operations.\<close>

theorem class_refines_hal:
  assumes "new_link E (i2c_calls (hw_reset s)) \<noteq> None"
    and "t = fold (hw_run E) (Start sla r # ops) (hw_reset s)"
  shows "t = fold (hal_run E) (Start sla r # ops) (i2c_reset s)
    \<and> hw_flush E I2C_NUM_0 t = i2c_write_buffers E t
    \<and> (\<exists>h. handle t = Some h \<and> queue_of h (i2c_calls t) = concat (map op_cmds (Start sla r # ops)))"
proof -
  have "pending t = Some (concat (map op_cmds (Start sla r # ops)))"
    unfolding assms(2) by (rule hw.message_after_reset [OF assms(1)])
  moreover have "hw_run E = hal_run E" "hw_reset s = i2c_reset s"
    by (rule ext, rule ext, rule hw_run_is_hal_run, simp add: hw_reset_def i2c_reset_def)
  ultimately show ?thesis
    using assms(2) by (auto simp: pending_def hw_flush_def i2c_write_buffers_def)
qed

lemma class_refines_hal_witness:
  "\<exists>t h. t = fold (hw_run demo_i2c) [Start 0xA1 False, ReadB 64 False, Stop] (hw_reset idle_i2c) \<and> handle t = Some h
     \<and> queue_of h (i2c_calls t) = [CmdStart, CmdWriteByte 0xA1 True, CmdReadByte 64 False, CmdStop]"
proof -
  have "new_link demo_i2c (i2c_calls (hw_reset idle_i2c)) \<noteq> None" by (simp add: demo_i2c_def)
  from class_refines_hal [OF this refl, of "0xA1" False "[ReadB 64 False, Stop]"] show ?thesis by auto
qed

definition deletions :: "i2c_state \<Rightarrow> nat" where
  "deletions s = length (filter (\<lambda>c. \<exists>p. c = i2c_driver_delete p) (i2c_calls s))"

text \<open>Ownership of the driver: after a move construction both objects still name port 0, so destroying both
  deletes the driver twice; after a move assignment the source owns nothing and destroying both
  deletes it once.\<close>

lemma move_ownership:
  assumes "port < I2C_NUM_MAX"
  shows "deletions (hw_dtor (snd (hw_move_ctor port)) (hw_dtor (fst (hw_move_ctor port)) s)) = deletions s + 2
    \<and> deletions (hw_dtor (snd (hw_move_assign this port)) (hw_dtor (fst (hw_move_assign this port)) s)) = deletions s + 1"
  using assms
  by (simp add: hw_dtor_def hw_move_ctor_def hw_move_assign_def deletions_def I2C_NUM_0_def I2C_NUM_MAX_def)

text \<open>The constructor aborts exactly when one of its four driver calls fails; otherwise the driver is
  installed and no link is pending.\<close>

lemma hw_ctor_calls:
  assumes "HardwareI2CAlgorithm E scl sda freq s = Inr (port, t)"
  shows "port = I2C_NUM_0 \<and> handle t = None \<and> clk_speed (i2c_conf t) = freq
    \<and> i2c_calls t = i2c_calls s @ [i2c_param_config 0 (i2c_conf t), i2c_driver_install 0,
        i2c_set_timeout 0 20000, i2c_filter_enable 0 4]
      @ (if CONFIG_PATCH_I2C_CLOCK E then let p = i2c_period E (i2c_calls s @ [i2c_param_config 0 (i2c_conf t),
             i2c_driver_install 0, i2c_set_timeout 0 20000, i2c_filter_enable 0 4, i2c_get_period 0])
           in [i2c_get_period 0, i2c_set_period 0 (fst p - 7) (snd p - 7)] else [])"
  using assms
  by (auto simp: HardwareI2CAlgorithm_def patchClock_def shorten_period_def split_def ESP_ERROR_CHECK_def Let_def bindr_eq_Inr_iff I2C_NUM_0_def
      split: if_splits)

section \<open>Messages\<close>

text \<open>The byte transfers a command stands for: destination and acknowledge of every byte read.\<close>

fun reads_of :: "i2c_cmd \<Rightarrow> (nat \<times> bool) list" where
  "reads_of (CmdRead p k a) = map (\<lambda>i. (p + i, a)) [0..<k]"
| "reads_of (CmdReadByte p a) = [(p, a)]"
| "reads_of _ = []"

lemma small_bits:
  fixes a :: "16 word"
  assumes "a < 128" and "bit a j"
  shows "j < 7"
proof -
  have "unat (take_bit 7 a) = take_bit 7 (unat a)" by (rule unsigned_take_bit_eq)
  also have "\<dots> = unat a" using assms(1) by (simp add: take_bit_eq_mod word_less_nat_alt)
  finally have "take_bit 7 a = a" by (simp only: word_unat_eq_iff)
  with assms(2) show ?thesis by (metis bit_take_bit_iff)
qed

lemma address_byte:
  assumes "address msg < 128"
  shows "drop_bit 1 (ucast (push_bit 1 (address msg) OR of_bool rd) :: byte) = ucast (address msg)"
    and "bit (ucast (push_bit 1 (address msg) OR of_bool rd) :: byte) 0 \<longleftrightarrow> rd"
proof -
  show "drop_bit 1 (ucast (push_bit 1 (address msg) OR of_bool rd) :: byte) = ucast (address msg)"
  proof (rule bit_word_eqI)
    fix j
    assume "j < LENGTH(8)"
    with small_bits [OF assms, of 7]
    show "bit (drop_bit 1 (ucast (push_bit 1 (address msg) OR of_bool rd) :: byte)) j = bit (ucast (address msg) :: byte) j"
      by (simp only: bit_drop_bit_eq comp_def bit_ucast_iff bit_or_iff bit_push_bit_iff bit_of_bool_iff)
        (cases "j = 7", auto)
  qed
  show "bit (ucast (push_bit 1 (address msg) OR of_bool rd) :: byte) 0 \<longleftrightarrow> rd"
    by (simp only: bit_ucast_iff bit_or_iff bit_push_bit_iff bit_of_bool_iff) auto
qed


text \<open>A read message of at least one byte to a 7-bit address: the first byte on the bus carries the address
  in its upper seven bits and the read bit; then exactly the message's bytes are read, in order, into
  its buffer, all acknowledged but the last.  A write message carries the write bit and sends the
  buffer with acknowledge check.  Only a read changes the message, by setting its index to its length.\<close>

lemma prepareTransfer_bytes:
  assumes "address msg < 128" and "isRead msg \<longrightarrow> 1 \<le> msg_count msg"
  shows "\<exists>b cs. prepareTransfer msg = (CmdWriteByte b True # cs, if isRead msg then msg\<lparr>msg_index := msg_count msg\<rparr> else msg)
    \<and> drop_bit 1 b = ucast (address msg) \<and> (bit b 0 \<longleftrightarrow> isRead msg)
    \<and> concat (map reads_of cs) =
        (if isRead msg then map (\<lambda>i. (msg_data msg + i, i < msg_count msg - 1)) [0..<msg_count msg] else [])
    \<and> (\<not> isRead msg \<longrightarrow> cs = [CmdWrite (msg_data msg) (msg_count msg) True])"
proof (cases "isRead msg")
  case False
  then show ?thesis
    using address_byte [OF assms(1), of False] by (simp add: prepareTransfer_def)
next
  case True
  define k where "k = msg_count msg - 1"
  have k: "msg_count msg = Suc k" using True assms(2) by (simp add: k_def)
  have "concat (map reads_of (if msg_count msg > 1 then [CmdRead (msg_data msg) (msg_count msg - 1) True] else []))
      = map (\<lambda>i. (msg_data msg + i, True)) [0..<k]"
    by (simp add: k)
  moreover have "map (\<lambda>i. (msg_data msg + i, i < k)) [0..<k] = map (\<lambda>i. (msg_data msg + i, True)) [0..<k]"
    by (rule map_cong) auto
  ultimately show ?thesis
    using True address_byte [OF assms(1), of True] by (simp add: prepareTransfer_def k)
qed

text \<open>A read message of length zero still reads one byte, and stores it in front of the message's buffer.\<close>

lemma empty_read_underflows:
  assumes "isRead msg" and "msg_count msg = 0" and "0 < msg_data msg"
  shows "concat (map reads_of (fst (prepareTransfer msg))) = [(msg_data msg - 1, False)]"
  using assms by (simp add: prepareTransfer_def)

definition message_total :: "i2c_message list \<Rightarrow> nat" where
  "message_total msgs = sum_list (map msg_count msgs)"

lemma sint_small: "n < 2 ^ 31 \<Longrightarrow> sint (of_nat n :: 32 word) = int n"
  by (simp add: signed_of_nat signed_take_bit_int_eq_self)

lemma add_counts:
  assumes "n + message_total msgs < 2 ^ 31"
  shows "fold (\<lambda>msg (tot, cs). (add_count tot (msg_count msg), cs @ on_link h (message_cmds msg))) msgs (of_nat n, cs)
    = (of_nat (n + message_total msgs), cs @ on_link h (concat (map message_cmds msgs)))"
  using assms
proof (induction msgs arbitrary: n cs)
  case Nil
  then show ?case by (simp add: message_total_def on_link_def)
next
  case (Cons msg msgs)
  have "sint (of_nat n :: 32 word) = int n"
    using Cons.prems by (intro sint_small) (simp add: message_total_def)
  then have "add_count (of_nat n) (msg_count msg) = of_nat (n + msg_count msg)"
    by (simp add: add_count_def)
  then show ?case
    using Cons.IH [of "n + msg_count msg"] Cons.prems
    by (simp add: message_total_def on_link_def add.assoc)
qed

text \<open>A transfer of several messages queues all of them on one fresh link, each with its own start and, unless
  it asks for a repeated start, its stop; runs the link once; returns the total number of bytes, or
  \<open>-EINVALID\<close> when the driver reports an error; sets the index of the read messages; and deletes the link on both paths.\<close>

lemma transfer_all_messages:
  assumes "message_total msgs < 2 ^ 31" and "new_link E cs = Some h" and "h \<notin> live cs"
  shows "\<exists>ds. snd (transfer_all E port msgs cs) = ds @ [i2c_master_cmd_begin port (Some h) (TIMEOUT div portTICK_PERIOD_MS E),
           i2c_cmd_link_delete (Some h)]
    \<and> queue_of h ds = concat (map message_cmds msgs)
    \<and> fst (fst (transfer_all E port msgs cs)) =
        (if esp_err E (ds @ [i2c_master_cmd_begin port (Some h) (TIMEOUT div portTICK_PERIOD_MS E)]) = ESP_OK
         then int (message_total msgs) else - EINVALID E)
    \<and> snd (fst (transfer_all E port msgs cs)) = map (\<lambda>msg. if isRead msg then msg\<lparr>msg_index := msg_count msg\<rparr> else msg) msgs
    \<and> live (snd (transfer_all E port msgs cs)) = live cs"
proof -
  let ?ds = "cs @ [i2c_cmd_link_create (Some h)] @ on_link (Some h) (concat (map message_cmds msgs))"
  have "sint (of_nat (message_total msgs) :: 32 word) = int (message_total msgs)"
    using assms(1) by (rule sint_small)
  then have "fst (fst (transfer_all E port msgs cs)) =
        (if esp_err E (?ds @ [i2c_master_cmd_begin port (Some h) (TIMEOUT div portTICK_PERIOD_MS E)]) = ESP_OK
         then int (message_total msgs) else - EINVALID E)"
    "snd (transfer_all E port msgs cs) = ?ds @ [i2c_master_cmd_begin port (Some h) (TIMEOUT div portTICK_PERIOD_MS E),
           i2c_cmd_link_delete (Some h)]"
    using add_counts [of 0 msgs "Some h" "cs @ [i2c_cmd_link_create (Some h)]"] assms(1,2)
    by (simp_all add: transfer_all_def Let_def)
  moreover have "queue_of h ?ds = concat (map message_cmds msgs)"
    by (simp add: queue_of_append fold_queue_on_link)
  moreover have "snd (fst (transfer_all E port msgs cs)) = map (\<lambda>msg. if isRead msg then msg\<lparr>msg_index := msg_count msg\<rparr> else msg) msgs"
    by (simp add: transfer_all_def Let_def split_def prepareTransfer_def if_distrib cong: if_cong)
  ultimately show ?thesis
    using assms(3) by (intro exI [of _ ?ds]) (simp add: live_append fold_live_on_link)
qed

end
