(* ===== verification/I2c_Class.thy ===== *)
theory I2c_Class
  imports I2c
begin

text \<open>
  The life of a message-level I2C object (\<^verbatim>\<open>esp32/esp32i2calgorithm.cpp\<close>): constructor, destructor and
  frequency changes around the transfers of \<open>I2c\<close>.  The pins are \<open>GpioPin\<close> objects of the core
  library, whose method calls are recorded; \<open>get_frequency\<close> is what its base class returns as the
  frequency after a value has been stored.
\<close>

section \<open>The object\<close>

datatype pin_call = pin_setOpenDrain int | pin_input int

record i2c_object =
  a_sda :: int
  a_scl :: int
  a_portno :: nat
  a_config :: i2c_config

type_synonym i2c_log = "pin_call list \<times> i2c_call list"

definition I2CAlgorithm_ctor ::
  "(32 word \<Rightarrow> 32 word) \<Rightarrow> int \<Rightarrow> int \<Rightarrow> 32 word \<Rightarrow> nat \<Rightarrow> i2c_log \<Rightarrow> i2c_object \<times> i2c_log" where
  "I2CAlgorithm_ctor get_frequency sda scl freq num log =
     (let conf = \<lparr>sda_io_num = sda, scl_io_num = scl, sda_pullup_en = True, scl_pullup_en = True,
                  clk_speed = get_frequency freq\<rparr>
      in (\<lparr>a_sda = sda, a_scl = scl, a_portno = num, a_config = conf\<rparr>,
          (fst log @ [pin_setOpenDrain sda, pin_setOpenDrain scl],
           snd log @ [i2c_param_config num conf, i2c_driver_install num, i2c_set_timeout num 20000])))"

definition I2CAlgorithm_default :: "(32 word \<Rightarrow> 32 word) \<Rightarrow> i2c_log \<Rightarrow> i2c_object \<times> i2c_log" where
  \<comment> \<open>the default arguments are those of the declaration\<close>
  "I2CAlgorithm_default get_frequency = I2CAlgorithm_ctor get_frequency 23 22 100000 I2C_NUM_0"

definition I2CAlgorithm_dtor :: "i2c_object \<Rightarrow> i2c_log \<Rightarrow> i2c_log" where
  "I2CAlgorithm_dtor this log =
     (fst log @ [pin_input (a_sda this), pin_input (a_scl this)], snd log @ [i2c_driver_delete (a_portno this)])"

definition I2CAlgorithm_setFrequency :: "32 word \<Rightarrow> i2c_object \<times> i2c_log \<Rightarrow> i2c_object \<times> i2c_log" where
  "I2CAlgorithm_setFrequency freq x =
     (case x of (this, log) \<Rightarrow>
        let this = this\<lparr>a_config := (a_config this)\<lparr>clk_speed := freq\<rparr>\<rparr>
        in (this, (fst log, snd log @ [i2c_param_config (a_portno this) (a_config this)])))"

datatype i2c_use = SetFreq "32 word" | Transfer1 i2c_message | TransferAll "i2c_message list"

fun use_i2c :: "i2c_env \<Rightarrow> i2c_use \<Rightarrow> i2c_object \<times> i2c_log \<Rightarrow> i2c_object \<times> i2c_log" where
  "use_i2c E (SetFreq f) x = I2CAlgorithm_setFrequency f x"
| "use_i2c E (Transfer1 msg) x =
     (fst x, (fst (snd x), snd (transfer_one E (a_portno (fst x)) msg (snd (snd x)))))"
| "use_i2c E (TransferAll msgs) x =
     (fst x, (fst (snd x), snd (transfer_all E (a_portno (fst x)) msgs (snd (snd x)))))"

section \<open>What the driver has been told\<close>

fun is_session :: "i2c_call \<Rightarrow> bool" where
  "is_session (i2c_driver_install p) = True"
| "is_session (i2c_driver_delete p) = True"
| "is_session c = False"

definition sessions :: "i2c_call list \<Rightarrow> i2c_call list" where
  "sessions cs = filter is_session cs"

fun config_step :: "nat \<Rightarrow> i2c_call \<Rightarrow> i2c_config option \<Rightarrow> i2c_config option" where
  "config_step p (i2c_param_config q k) acc = (if q = p then Some k else acc)"
| "config_step p c acc = acc"

definition configured :: "nat \<Rightarrow> i2c_call list \<Rightarrow> i2c_config option" where
  "configured p cs = fold (config_step p) cs None"

fun frequency_after :: "i2c_use list \<Rightarrow> 32 word \<Rightarrow> 32 word" where
  "frequency_after [] f = f"
| "frequency_after (SetFreq g # us) f = frequency_after us g"
| "frequency_after (u # us) f = frequency_after us f"

lemma sessions_simps [simp]:
  "sessions [] = []" "sessions (c # cs) = (if is_session c then c # sessions cs else sessions cs)"
  by (simp_all add: sessions_def)

lemma sessions_append: "sessions (cs @ ds) = sessions cs @ sessions ds"
  by (simp add: sessions_def)

lemma configured_append: "configured p (cs @ ds) = fold (config_step p) ds (configured p cs)"
  by (simp add: configured_def)

lemma on_link_silent: "sessions (on_link h cs) = []" "fold (config_step p) (on_link h cs) acc = acc"
  by (induction cs) (simp_all add: on_link_def)

lemma fold_messages:
  "snd (fold (\<lambda>msg (tot, cs). (add_count tot (msg_count msg), cs @ on_link h (message_cmds msg))) msgs (tot, cs)) =
     cs @ on_link h (concat (map message_cmds msgs))"
  by (induction msgs arbitrary: tot cs) (simp_all add: on_link_def)

text \<open>Both transfers run their commands on one link, which they create and delete.\<close>

lemma transfer_calls:
  obtains ds where "snd (transfer_one E p msg cs) = cs @ [i2c_cmd_link_create (new_link E cs)] @ on_link (new_link E cs) ds
      @ [i2c_master_cmd_begin p (new_link E cs) (TIMEOUT div portTICK_PERIOD_MS E), i2c_cmd_link_delete (new_link E cs)]"
  by (simp add: transfer_one_def Let_def split_def)

lemma transfer_all_explicit:
  "snd (transfer_all E p msgs cs) = cs @ [i2c_cmd_link_create (new_link E cs)]
      @ on_link (new_link E cs) (concat (map message_cmds msgs))
      @ [i2c_master_cmd_begin p (new_link E cs) (TIMEOUT div portTICK_PERIOD_MS E), i2c_cmd_link_delete (new_link E cs)]"
  unfolding transfer_all_def Let_def split_def by (simp add: fold_messages [unfolded split_def])

lemma transfer_all_calls:
  obtains ds where "snd (transfer_all E p msgs cs) = cs @ [i2c_cmd_link_create (new_link E cs)] @ on_link (new_link E cs) ds
      @ [i2c_master_cmd_begin p (new_link E cs) (TIMEOUT div portTICK_PERIOD_MS E), i2c_cmd_link_delete (new_link E cs)]"
  using transfer_all_explicit by (rule that)

text \<open>What every use keeps: the object's port and pins, the driver's sessions and live links, and the
  configuration of the port.\<close>

definition object_ok :: "i2c_object \<Rightarrow> i2c_call list \<Rightarrow> nat set \<Rightarrow> i2c_call list \<Rightarrow> bool" where
  "object_ok this ss L cs \<longleftrightarrow> sessions cs = ss \<and> live cs = L \<and> configured (a_portno this) cs = Some (a_config this)"

lemma transfer_silent:
  assumes "fresh_links E" and "ds = cs @ [i2c_cmd_link_create (new_link E cs)] @ on_link (new_link E cs) es
      @ [i2c_master_cmd_begin p (new_link E cs) t, i2c_cmd_link_delete (new_link E cs)]"
  shows "sessions ds = sessions cs \<and> live ds = live cs \<and> configured q ds = configured q cs"
proof -
  have "live ds = live cs"
    using assms by (cases "new_link E cs") (auto simp: live_append fold_live_on_link fresh_links_def split: option.splits)
  then show ?thesis
    using assms(2) by (simp add: sessions_append configured_append on_link_silent)
qed

lemma use_i2c_ok:
  assumes "fresh_links E" and "object_ok this ss L cs"
  obtains this' cs' where "use_i2c E u (this, (ps, cs)) = (this', (ps, cs'))" and "object_ok this' ss L cs'"
    and "a_portno this' = a_portno this" "a_sda this' = a_sda this" "a_scl this' = a_scl this"
    and "a_config this' = (a_config this)\<lparr>clk_speed := frequency_after [u] (clk_speed (a_config this))\<rparr>"
proof (cases u)
  case (SetFreq f)
  then show ?thesis
    using assms(2)
    by (intro that [of "this\<lparr>a_config := (a_config this)\<lparr>clk_speed := f\<rparr>\<rparr>"])
      (auto simp: SetFreq I2CAlgorithm_setFrequency_def Let_def object_ok_def sessions_append live_append
        configured_append)
next
  case (Transfer1 msg)
  obtain ds where "snd (transfer_one E (a_portno this) msg cs) = cs @ [i2c_cmd_link_create (new_link E cs)]
      @ on_link (new_link E cs) ds
      @ [i2c_master_cmd_begin (a_portno this) (new_link E cs) (TIMEOUT div portTICK_PERIOD_MS E), i2c_cmd_link_delete (new_link E cs)]"
    by (rule transfer_calls)
  from transfer_silent [OF assms(1) this] assms(2) show ?thesis
    by (intro that [of this "snd (transfer_one E (a_portno this) msg cs)"]) (auto simp: Transfer1 object_ok_def)
next
  case (TransferAll msgs)
  obtain ds where "snd (transfer_all E (a_portno this) msgs cs) = cs @ [i2c_cmd_link_create (new_link E cs)]
      @ on_link (new_link E cs) ds
      @ [i2c_master_cmd_begin (a_portno this) (new_link E cs) (TIMEOUT div portTICK_PERIOD_MS E), i2c_cmd_link_delete (new_link E cs)]"
    by (rule transfer_all_calls)
  from transfer_silent [OF assms(1) this] assms(2) show ?thesis
    by (intro that [of this "snd (transfer_all E (a_portno this) msgs cs)"]) (auto simp: TransferAll object_ok_def)
qed

lemma uses_ok:
  assumes "fresh_links E" and "object_ok this ss L cs"
  shows "\<exists>this' cs'. fold (use_i2c E) us (this, (ps, cs)) = (this', (ps, cs')) \<and> object_ok this' ss L cs'
    \<and> a_portno this' = a_portno this \<and> a_sda this' = a_sda this \<and> a_scl this' = a_scl this
    \<and> a_config this' = (a_config this)\<lparr>clk_speed := frequency_after us (clk_speed (a_config this))\<rparr>"
  using assms(2)
proof (induction us arbitrary: this cs)
  case Nil
  then show ?case by simp
next
  case (Cons u us)
  obtain this1 cs1 where s: "use_i2c E u (this, (ps, cs)) = (this1, (ps, cs1))" "object_ok this1 ss L cs1"
    "a_portno this1 = a_portno this" "a_sda this1 = a_sda this" "a_scl this1 = a_scl this"
    "a_config this1 = (a_config this)\<lparr>clk_speed := frequency_after [u] (clk_speed (a_config this))\<rparr>"
    by (rule use_i2c_ok [OF assms(1) Cons.prems])
  have "frequency_after us (frequency_after [u] f) = frequency_after (u # us) f" for f
    by (cases u) simp_all
  then show ?case using Cons.IH [OF s(2)] s by auto
qed

text \<open>Property C23. The life of an I2C object: construction, any sequence of frequency changes and transfers, and
  destruction install the driver of the port exactly once and delete it exactly once, at the end;
  every transfer's command link is gone; in between the driver is configured for the object's pins
  with pull-ups and the last frequency set; both pins are made open-drain and at the end inputs.\<close>

theorem i2c_object_life:
  assumes "fresh_links E" and "get_frequency freq = freq"
    and "I2CAlgorithm_ctor get_frequency sda scl freq num (ps, cs) = (this, log)"
  shows "\<exists>this' log'. fold (use_i2c E) us (this, log) = (this', log')
    \<and> configured num (snd log') = Some \<lparr>sda_io_num = sda, scl_io_num = scl, sda_pullup_en = True,
          scl_pullup_en = True, clk_speed = frequency_after us freq\<rparr>
    \<and> sessions (snd (I2CAlgorithm_dtor this' log')) = sessions cs @ [i2c_driver_install num, i2c_driver_delete num]
    \<and> live (snd (I2CAlgorithm_dtor this' log')) = live cs
    \<and> fst (I2CAlgorithm_dtor this' log') = ps @ [pin_setOpenDrain sda, pin_setOpenDrain scl, pin_input sda, pin_input scl]"
proof -
  let ?cs = "snd log"
  have obj: "this = \<lparr>a_sda = sda, a_scl = scl, a_portno = num, a_config = \<lparr>sda_io_num = sda, scl_io_num = scl,
      sda_pullup_en = True, scl_pullup_en = True, clk_speed = freq\<rparr>\<rparr>"
    and log: "log = (ps @ [pin_setOpenDrain sda, pin_setOpenDrain scl], ?cs)"
    using assms(2,3) by (auto simp: I2CAlgorithm_ctor_def Let_def)
  have ok: "object_ok this (sessions cs @ [i2c_driver_install num]) (live cs) ?cs"
    using assms(2,3) by (auto simp: I2CAlgorithm_ctor_def Let_def object_ok_def sessions_append live_append
        configured_append)
  obtain this' cs' where e: "fold (use_i2c E) us (this, log) = (this', (ps @ [pin_setOpenDrain sda, pin_setOpenDrain scl], cs'))"
    "object_ok this' (sessions cs @ [i2c_driver_install num]) (live cs) cs'"
    "a_portno this' = num" "a_sda this' = sda" "a_scl this' = scl"
    "a_config this' = (a_config this)\<lparr>clk_speed := frequency_after us freq\<rparr>"
    using uses_ok [OF assms(1) ok, of us "ps @ [pin_setOpenDrain sda, pin_setOpenDrain scl]"] log obj by auto
  then show ?thesis
    by (auto simp: object_ok_def I2CAlgorithm_dtor_def sessions_append live_append obj)
qed

lemma i2c_object_life_witness:
  "\<exists>this log this' log'. I2CAlgorithm_ctor (\<lambda>f. f) 21 22 100000 1 ([], []) = (this, log)
     \<and> fold (use_i2c fresh_i2c) [SetFreq 400000,
         Transfer1 \<lparr>address = 0x50, isRead = True, repstart = False, msg_data = 100, msg_count = 3, msg_index = 0\<rparr>] (this, log) = (this', log')
     \<and> sessions (snd (I2CAlgorithm_dtor this' log')) = [i2c_driver_install 1, i2c_driver_delete 1]
     \<and> live (snd (I2CAlgorithm_dtor this' log')) = {}
     \<and> map_option clk_speed (configured 1 (snd log')) = Some 400000"
proof -
  let ?us = "[SetFreq 400000,
         Transfer1 \<lparr>address = 0x50, isRead = True, repstart = False, msg_data = 100, msg_count = 3, msg_index = 0\<rparr>]"
  obtain this log where ctor: "I2CAlgorithm_ctor (\<lambda>f. f) 21 22 100000 1 ([], []) = (this, log)"
    by (cases "I2CAlgorithm_ctor (\<lambda>f. f) 21 22 100000 1 ([], [])")
  have "live [] = {}" by (simp add: live_def)
  with i2c_object_life [OF fresh_i2c_fresh refl ctor, of ?us] ctor show ?thesis
    by (auto simp del: use_i2c.simps fold.simps)
qed

end
