(* ===== verification/I2c_Wire.thy ===== *)
theory I2c_Wire
  imports I2c_Class
begin

text \<open>
  What the transfers of the message-level I2C class (\<^verbatim>\<open>esp32/esp32i2calgorithm.cpp\<close>) mean on the bus.  The
  messages of the core library are given a meaning directly, byte by byte, against a device; the SDK's
  driver, which runs the command links, is a parameter whose documented behaviour is the hypothesis
  \<open>wire_ok\<close>; and the links that the class fills are shown to have the meaning of the messages.
\<close>

section \<open>Running a link\<close>












section \<open>What a message means\<close>







section \<open>What a message stores\<close>










section \<open>Messages on the bus\<close>













end
