(* ===== verification/Wifi.thy ===== *)
theory Wifi
  imports Prelude
begin

text \<open>
  WiFi: the subsystem functions of \<^verbatim>\<open>esp32/esp32_wifi.c\<close>, the station of \<^verbatim>\<open>esp32/esp32_sta.cpp\<close>
  and the access point of \<^verbatim>\<open>esp32/esp32_ap.cpp\<close>.  The SDK is outside the
  repository: the model records the calls made to it, and its answers (error codes, the current
  mode, the MAC address) are functions of the calls so far.  C strings are byte lists without the
  terminating zero; a destination array is written with bounds checking, so that a copy that leaves
  it is a fault.
\<close>

section \<open>Modes\<close>

datatype wifi_mode = WIFI_MODE_NULL | WIFI_MODE_STA | WIFI_MODE_AP | WIFI_MODE_APSTA

definition sta_on :: "wifi_mode \<Rightarrow> bool" where
  "sta_on m \<longleftrightarrow> m = WIFI_MODE_STA \<or> m = WIFI_MODE_APSTA"

definition ap_on :: "wifi_mode \<Rightarrow> bool" where
  "ap_on m \<longleftrightarrow> m = WIFI_MODE_AP \<or> m = WIFI_MODE_APSTA"

definition mode_of :: "bool \<Rightarrow> bool \<Rightarrow> wifi_mode" where
  "mode_of sta ap = (if sta then (if ap then WIFI_MODE_APSTA else WIFI_MODE_STA)
     else (if ap then WIFI_MODE_AP else WIFI_MODE_NULL))"

lemma mode_of_on [simp]:
  "sta_on (mode_of s a) = s" "ap_on (mode_of s a) = a" "mode_of (sta_on m) (ap_on m) = m"
  by (auto simp: sta_on_def ap_on_def mode_of_def) (cases m; simp)

lemma mode_eqI: "sta_on m = sta_on n \<Longrightarrow> ap_on m = ap_on n \<Longrightarrow> m = n"
  by (cases m; cases n) (simp_all add: sta_on_def ap_on_def)

text \<open>Modes are ordered by the interfaces that are on; the join of two modes turns on both's interfaces.\<close>

instantiation wifi_mode :: semilattice_sup
begin

definition less_eq_wifi_mode :: "wifi_mode \<Rightarrow> wifi_mode \<Rightarrow> bool" where
  "less_eq_wifi_mode m n \<longleftrightarrow> (sta_on m \<longrightarrow> sta_on n) \<and> (ap_on m \<longrightarrow> ap_on n)"

definition less_wifi_mode :: "wifi_mode \<Rightarrow> wifi_mode \<Rightarrow> bool" where
  "less_wifi_mode m n \<longleftrightarrow> m \<le> n \<and> \<not> n \<le> m"

definition sup_wifi_mode :: "wifi_mode \<Rightarrow> wifi_mode \<Rightarrow> wifi_mode" where
  "sup_wifi_mode m n = mode_of (sta_on m \<or> sta_on n) (ap_on m \<or> ap_on n)"

instance
  by standard
    (auto simp: less_eq_wifi_mode_def less_wifi_mode_def sup_wifi_mode_def intro: mode_eqI)

end

section \<open>State\<close>

datatype wifi_iface = ESP_IF_WIFI_STA | ESP_IF_WIFI_AP

datatype wifi_auth = WIFI_AUTH_OPEN | WIFI_AUTH_WPA_WPA2_PSK

record ap_config =
  ap_ssid :: "byte list"
  ap_password :: "byte list"
  ssid_len :: byte
  max_connection :: byte
  authmode :: wifi_auth
  ssid_hidden :: byte
  ap_channel :: byte

record sta_config =
  sta_ssid :: "byte list"
  sta_password :: "byte list"
  sta_channel :: byte

datatype wifi_config = ApConfig ap_config | StaConfig sta_config

record dhcps_lease =
  start_ip :: "32 word"
  end_ip :: "32 word"

datatype wifi_call =
    nvs_flash_init | nvs_flash_erase | xEventGroupCreate | tcpip_adapter_init
  | esp_event_loop_init | esp_wifi_init | esp_wifi_start | esp_wifi_connect
  | esp_wifi_set_mode wifi_mode | esp_wifi_set_config wifi_iface wifi_config
  | tcpip_adapter_dhcps_stop | tcpip_adapter_dhcps_start
  | tcpip_adapter_set_ip_info "32 word" "32 word" "32 word"
  | tcpip_adapter_dhcps_option dhcps_lease
  | esp_efuse_mac_get_default

text \<open>The answers of the SDK after a sequence of calls: the result of the last one, the mode that
  \<open>esp_wifi_get_mode\<close> reports, and the MAC address.\<close>

record wifi_env =
  wifi_err :: "wifi_call list \<Rightarrow> int"
  get_mode :: "wifi_call list \<Rightarrow> wifi_mode"
  mac_bytes :: "byte list"
  ESP_ERR_NVS_NO_FREE_PAGES :: int

definition WIFI_OK :: int where "WIFI_OK = 0"

datatype wireless_status = WL_IDLE_STATUS | WL_CONNECTED | WL_DISCONNECTED

record wifi_state =
  initialised :: bool
  connected_bit :: bool           \<comment> \<open>\<open>WIFI_CONNECTED\<close> in the event group\<close>
  sta_status :: wireless_status
  sta_addr :: "32 word"
  ap_local :: "32 word"
  ap_gw :: "32 word"
  ap_subnet :: "32 word"
  wifi_calls :: "wifi_call list"

datatype wifi_fault = WifiAbort wifi_call | NullString | StringOverflow | UnterminatedString

definition wifi_do :: "wifi_call \<Rightarrow> wifi_state \<Rightarrow> wifi_state" where
  "wifi_do c s = s\<lparr>wifi_calls := wifi_calls s @ [c]\<rparr>"

definition call :: "wifi_call \<Rightarrow> (wifi_fault, wifi_state) step" where
  "call c s = Inr (wifi_do c s)"

text \<open>\<open>ESP_ERROR_CHECK(c)\<close>\<close>

definition checked :: "wifi_env \<Rightarrow> wifi_call \<Rightarrow> (wifi_fault, wifi_state) step" where
  "checked E c s = (let s = wifi_do c s
     in if wifi_err E (wifi_calls s) = WIFI_OK then Inr s else Inl (WifiAbort c))"

section \<open>Subsystem\<close>

definition esp32_wifi_subsys_init :: "wifi_env \<Rightarrow> (wifi_fault, wifi_state) step" where
  "esp32_wifi_subsys_init E s =
     (if initialised s then Inr s
      else let s = wifi_do nvs_flash_init s in
        bindr (if wifi_err E (wifi_calls s) = ESP_ERR_NVS_NO_FREE_PAGES E
               then exec [checked E nvs_flash_erase, checked E nvs_flash_init] s
               else if wifi_err E (wifi_calls s) = WIFI_OK then Inr s
               else Inl (WifiAbort nvs_flash_init))
          (exec [call xEventGroupCreate, call tcpip_adapter_init,
                 checked E esp_event_loop_init, checked E esp_wifi_init,
                 \<lambda>s. Inr (s\<lparr>initialised := True\<rparr>)]))"

text \<open>\<open>strlen\<close> and \<open>strcpy\<close> of a possibly NULL string into an array of \<open>sz\<close> bytes.\<close>

definition cstrlen :: "byte list option \<Rightarrow> wifi_fault + nat" where
  "cstrlen str = (case str of None \<Rightarrow> Inl NullString | Some bs \<Rightarrow> Inr (length bs))"

definition cstrcpy :: "nat \<Rightarrow> byte list option \<Rightarrow> wifi_fault + byte list" where
  "cstrcpy sz str = (case str of
       None \<Rightarrow> Inl NullString
     | Some bs \<Rightarrow> if length bs + 1 \<le> sz then Inr bs else Inl StringOverflow)"

definition SSID_SIZE :: nat where "SSID_SIZE = 32"
definition PASSWORD_SIZE :: nat where "PASSWORD_SIZE = 64"

definition esp32_wifi_init_softap ::
  "wifi_env \<Rightarrow> byte list option \<Rightarrow> byte list option \<Rightarrow> int \<Rightarrow> byte \<Rightarrow> int \<Rightarrow> (wifi_fault, wifi_state) step" where
  "esp32_wifi_init_softap E ssid pass mx hidden channel s =
     bindr (cstrlen ssid) (\<lambda>n.
     let auth = (if pass = None \<or> pass = Some [] then WIFI_AUTH_OPEN else WIFI_AUTH_WPA_WPA2_PSK) in
     bindr (cstrcpy SSID_SIZE ssid) (\<lambda>ssid.
     bindr (cstrcpy PASSWORD_SIZE pass) (\<lambda>pass.
     let config = \<lparr>ap_ssid = ssid, ap_password = pass, ssid_len = of_nat n,
                   max_connection = of_int mx, authmode = auth, ssid_hidden = hidden,
                   ap_channel = of_int channel\<rparr>;
         mode = get_mode E (wifi_calls s)
     in exec [call (esp_wifi_set_mode (if mode = WIFI_MODE_APSTA \<or> mode = WIFI_MODE_STA
                                       then WIFI_MODE_APSTA else WIFI_MODE_AP)),
              call (esp_wifi_set_config ESP_IF_WIFI_AP (ApConfig config)),
              call esp_wifi_start] s)))"

definition esp32_wifi_init_station ::
  "wifi_env \<Rightarrow> byte list option \<Rightarrow> byte list option \<Rightarrow> (wifi_fault, wifi_state) step" where
  "esp32_wifi_init_station E ssid pass s =
     bindr (cstrcpy SSID_SIZE ssid) (\<lambda>ssid.
     bindr (cstrcpy PASSWORD_SIZE pass) (\<lambda>pass.
     let config = \<lparr>sta_ssid = ssid, sta_password = pass, sta_channel = 1\<rparr>;
         mode = get_mode E (wifi_calls s)
     in exec [call (esp_wifi_set_mode (if mode = WIFI_MODE_APSTA \<or> mode = WIFI_MODE_AP
                                       then WIFI_MODE_APSTA else WIFI_MODE_STA)),
              call (esp_wifi_set_config ESP_IF_WIFI_STA (StaConfig config)),
              call esp_wifi_start] s))"

section \<open>Station\<close>

definition setStatus :: "wireless_status \<Rightarrow> wifi_state \<Rightarrow> wifi_state" where
  "setStatus status s = s\<lparr>sta_status := status\<rparr>"

definition setAddress :: "32 word \<Rightarrow> wifi_state \<Rightarrow> wifi_state" where
  "setAddress addr s = s\<lparr>sta_addr := addr\<rparr>"

datatype wifi_event =
    SYSTEM_EVENT_STA_START
  | SYSTEM_EVENT_STA_GOT_IP "32 word"
  | SYSTEM_EVENT_AP_STACONNECTED
  | SYSTEM_EVENT_AP_STADISCONNECTED
  | SYSTEM_EVENT_STA_DISCONNECTED
  | SYSTEM_EVENT_OTHER nat

definition esp32_wifi_station_event :: "wifi_event \<Rightarrow> wifi_state \<Rightarrow> wifi_state" where
  "esp32_wifi_station_event event s = (case event of
       SYSTEM_EVENT_STA_GOT_IP ip \<Rightarrow> setAddress ip (setStatus WL_CONNECTED s)
     | SYSTEM_EVENT_STA_DISCONNECTED \<Rightarrow> setAddress 0 (setStatus WL_DISCONNECTED s)
     | _ \<Rightarrow> s)"

definition esp32_wifi_ap_event :: "wifi_event \<Rightarrow> wifi_state \<Rightarrow> wifi_state" where
  \<comment> \<open>only prints a message\<close>
  "esp32_wifi_ap_event event s = s"

definition wifi_event_handler :: "wifi_event \<Rightarrow> wifi_state \<Rightarrow> wifi_state" where
  "wifi_event_handler event s = (case event of
       SYSTEM_EVENT_STA_START \<Rightarrow> wifi_do esp_wifi_connect s
     | SYSTEM_EVENT_STA_GOT_IP ip \<Rightarrow>
         esp32_wifi_station_event event (s\<lparr>connected_bit := True\<rparr>)
     | SYSTEM_EVENT_AP_STACONNECTED \<Rightarrow> esp32_wifi_ap_event event s
     | SYSTEM_EVENT_AP_STADISCONNECTED \<Rightarrow> esp32_wifi_ap_event event s
     | SYSTEM_EVENT_STA_DISCONNECTED \<Rightarrow>
         esp32_wifi_station_event event ((wifi_do esp_wifi_connect s)\<lparr>connected_bit := False\<rparr>)
     | SYSTEM_EVENT_OTHER n \<Rightarrow> s)"

definition connectTo :: "wifi_env \<Rightarrow> byte list \<Rightarrow> byte list option \<Rightarrow> (wifi_fault, wifi_state) step" where
  \<comment> \<open>both overloads; without a password the empty string is passed\<close>
  "connectTo E ssid pass = esp32_wifi_init_station E (Some ssid) (case pass of None \<Rightarrow> Some [] | Some p \<Rightarrow> Some p)"

definition WifiStation_ctor :: "wifi_env \<Rightarrow> (wifi_fault, wifi_state) step" where
  \<comment> \<open>what the base class initialises is part of the state the object is constructed in\<close>
  "WifiStation_ctor E = esp32_wifi_subsys_init E"

definition disconnect :: "wifi_env \<Rightarrow> wifi_state \<Rightarrow> wifi_state" where
  "disconnect E s = (if get_mode E (wifi_calls s) = WIFI_MODE_APSTA
     then wifi_do (esp_wifi_set_mode WIFI_MODE_AP) s
     else wifi_do (esp_wifi_set_mode WIFI_MODE_NULL) s)"

definition station_bool :: "wifi_state \<Rightarrow> bool" where
  "station_bool s \<longleftrightarrow> sta_status s = WL_CONNECTED"

section \<open>Access point\<close>

definition ap_begin ::
  "wifi_env \<Rightarrow> byte list \<Rightarrow> byte list \<Rightarrow> int \<Rightarrow> bool \<Rightarrow> int \<Rightarrow> (wifi_fault, wifi_state) step" where
  "ap_begin E ssid pass chan hidden mx =
     esp32_wifi_init_softap E (Some ssid) (Some pass) mx (of_bool hidden) chan"

definition ap_start :: "wifi_env \<Rightarrow> (wifi_fault, wifi_state) step" where
  "ap_start E = esp32_wifi_subsys_init E"

definition ap_lease :: "32 word \<Rightarrow> dhcps_lease" where
  "ap_lease loc = \<lparr>start_ip = loc + push_bit 24 1, end_ip = loc + push_bit 24 11\<rparr>"

definition ap_config_ip :: "wifi_env \<Rightarrow> 32 word \<Rightarrow> 32 word \<Rightarrow> 32 word \<Rightarrow> wifi_state \<Rightarrow> wifi_state" where
  "ap_config_ip E loc gw sn s =
     (let s = wifi_do esp_wifi_start s;
          s = wifi_do tcpip_adapter_dhcps_stop s;
          s = wifi_do (tcpip_adapter_set_ip_info loc gw sn) s;
          s = (if wifi_err E (wifi_calls s) = WIFI_OK
               then wifi_do tcpip_adapter_dhcps_start (wifi_do (tcpip_adapter_dhcps_option (ap_lease loc)) s)
               else wifi_do tcpip_adapter_dhcps_start s)
      in s\<lparr>ap_local := loc, ap_gw := gw, ap_subnet := sn\<rparr>)"

text \<open>The configuration \<open>stop\<close> passes is a local variable of which three members are assigned: the
  others, \<open>junk\<close>, are what was on the stack.\<close>

definition ap_stop :: "wifi_env \<Rightarrow> ap_config \<Rightarrow> wifi_state \<Rightarrow> wifi_state" where
  "ap_stop E junk s =
     (let config = junk\<lparr>ap_ssid := [], ap_password := [], authmode := WIFI_AUTH_OPEN\<rparr>;
          s = wifi_do (esp_wifi_set_config ESP_IF_WIFI_AP (ApConfig config)) s
      in if get_mode E (wifi_calls s) = WIFI_MODE_APSTA
         then wifi_do (esp_wifi_set_mode WIFI_MODE_STA) s
         else wifi_do (esp_wifi_set_mode WIFI_MODE_NULL) s)"

definition ap_bool :: "wifi_state \<Rightarrow> bool" where
  "ap_bool s \<longleftrightarrow> ap_local s \<noteq> 0"

text \<open>A \<open>String\<close> made from an array that need not contain a terminating zero.\<close>

definition string_of_array :: "byte list \<Rightarrow> wifi_fault + byte list" where
  "string_of_array bs = (if 0 \<in> set bs then Inr (takeWhile (\<lambda>b. b \<noteq> 0) bs) else Inl UnterminatedString)"

definition ap_mac :: "wifi_env \<Rightarrow> wifi_state \<Rightarrow> wifi_fault + (byte list \<times> wifi_state)" where
  "ap_mac E s = (let s = wifi_do esp_efuse_mac_get_default s in
     if wifi_err E (wifi_calls s) \<noteq> WIFI_OK then Inr ([], s)
     else bindr (string_of_array (mac_bytes E)) (\<lambda>str. Inr (str, s)))"


section \<open>Lemmas\<close>

lemma wifi_do_simps [simp, stmt]:
  "wifi_calls (wifi_do c s) = wifi_calls s @ [c]" "initialised (wifi_do c s) = initialised s"
  "connected_bit (wifi_do c s) = connected_bit s" "sta_status (wifi_do c s) = sta_status s"
  "sta_addr (wifi_do c s) = sta_addr s" "ap_local (wifi_do c s) = ap_local s"
  by (simp_all add: wifi_do_def)

lemma call_step [stmt]: "call c s = Inr (wifi_do c s)"
  by (simp add: call_def)

text \<open>The documented behaviour of the mode: once \<open>esp_wifi_init\<close> has been called, what was set last is what is
  read.  Before that the driver refuses \<open>esp_wifi_set_mode\<close>, and nothing is assumed of what it reports.\<close>

definition mode_driver :: "wifi_env \<Rightarrow> bool" where
  "mode_driver E \<longleftrightarrow> (\<forall>cs m. esp_wifi_init \<in> set cs \<longrightarrow> get_mode E (cs @ [esp_wifi_set_mode m]) = m)
     \<and> (\<forall>cs c. esp_wifi_init \<in> set cs \<longrightarrow> (\<forall>m. c \<noteq> esp_wifi_set_mode m) \<longrightarrow> get_mode E (cs @ [c]) = get_mode E cs)"

abbreviation mode_at :: "wifi_env \<Rightarrow> wifi_state \<Rightarrow> wifi_mode" where
  "mode_at E s \<equiv> get_mode E (wifi_calls s)"

definition driver_up :: "wifi_state \<Rightarrow> bool" where
  "driver_up s \<longleftrightarrow> esp_wifi_init \<in> set (wifi_calls s)"

lemma driver_up_do [simp]: "driver_up s \<Longrightarrow> driver_up (wifi_do c s)"
  by (simp add: driver_up_def)

lemma mode_set: "mode_driver E \<Longrightarrow> driver_up s \<Longrightarrow> mode_at E (wifi_do (esp_wifi_set_mode m) s) = m"
  by (simp add: mode_driver_def driver_up_def)

lemma mode_kept:
  "mode_driver E \<Longrightarrow> driver_up s \<Longrightarrow> (\<And>m. c \<noteq> esp_wifi_set_mode m) \<Longrightarrow> mode_at E (wifi_do c s) = mode_at E s"
  by (simp add: mode_driver_def driver_up_def)

text \<open>A driver whose calls all succeed, that keeps the mode, for the witnesses.\<close>

fun mode_call :: "wifi_call \<Rightarrow> wifi_mode \<Rightarrow> wifi_mode" where
  "mode_call (esp_wifi_set_mode m) _ = m"
| "mode_call _ n = n"

definition demo_wifi :: wifi_env where
  "demo_wifi = \<lparr>wifi_err = (\<lambda>cs. 0), get_mode = (\<lambda>cs. fold mode_call cs WIFI_MODE_NULL),
     mac_bytes = [0x24, 0x0A, 0xC4, 0x11, 0x22, 0x33], ESP_ERR_NVS_NO_FREE_PAGES = 0x1101\<rparr>"

definition off_wifi :: wifi_state where
  "off_wifi = \<lparr>initialised = False, connected_bit = False, sta_status = WL_IDLE_STATUS, sta_addr = 0,
     ap_local = 0, ap_gw = 0, ap_subnet = 0, wifi_calls = []\<rparr>"

lemma demo_mode_driver: "mode_driver demo_wifi"
proof -
  have "mode_call c n = n" if "\<forall>m. c \<noteq> esp_wifi_set_mode m" for c n
    using that by (cases c) auto
  then show ?thesis by (simp add: mode_driver_def demo_wifi_def)
qed

section \<open>Bringing the subsystem up\<close>

text \<open>The calls of a start-up, and for each whether its error code is checked.  The first call's is not when it
  reports that the flash has no free pages.\<close>

definition startup_calls :: "wifi_env \<Rightarrow> wifi_call list \<Rightarrow> (wifi_call \<times> bool) list" where
  "startup_calls E cs =
     (if wifi_err E (cs @ [nvs_flash_init]) = ESP_ERR_NVS_NO_FREE_PAGES E
      then [(nvs_flash_init, False), (nvs_flash_erase, True), (nvs_flash_init, True)]
      else [(nvs_flash_init, True)])
     @ [(xEventGroupCreate, False), (tcpip_adapter_init, False), (esp_event_loop_init, True), (esp_wifi_init, True)]"

text \<open>Call number \<open>k\<close> of a list succeeds, or need not, after the calls \<open>cs\<close> and those before it.\<close>

definition call_passes :: "wifi_env \<Rightarrow> wifi_call list \<Rightarrow> (wifi_call \<times> bool) list \<Rightarrow> nat \<Rightarrow> bool" where
  "call_passes E cs ds k \<longleftrightarrow> (snd (ds ! k) \<longrightarrow> wifi_err E (cs @ map fst (take (Suc k) ds)) = WIFI_OK)"

fun check_call :: "wifi_env \<Rightarrow> wifi_call \<times> bool \<Rightarrow> (wifi_fault, wifi_state) step" where
  "check_call E (c, True) = checked E c"
| "check_call E (c, False) = call c"

lemma check_call_step:
  "check_call E d s = (if call_passes E (wifi_calls s) (d # ds) 0 then Inr (wifi_do (fst d) s) else Inl (WifiAbort (fst d)))"
  by (cases "(E, d)" rule: check_call.cases) (simp_all add: call_passes_def checked_def Let_def call_def)

lemma call_passes_Suc: "call_passes E cs (d # ds) (Suc k) = call_passes E (cs @ [fst d]) ds k"
  by (simp add: call_passes_def)

lemma checks_pass:
  assumes "\<forall>k < length ds. call_passes E (wifi_calls s) ds k"
  shows "exec (map (check_call E) ds) s = Inr (s\<lparr>wifi_calls := wifi_calls s @ map fst ds\<rparr>)"
  using assms
proof (induction ds arbitrary: s)
  case Nil
  then show ?case by simp
next
  case (Cons d ds)
  have "\<forall>k < length ds. call_passes E (wifi_calls (wifi_do (fst d) s)) ds k"
    using Cons.prems call_passes_Suc [of E "wifi_calls s" d ds] by auto
  then show ?case using Cons.IH Cons.prems by (simp add: check_call_step [of E d s ds] wifi_do_def)
qed

lemma checks_fail:
  assumes "k < length ds" and "\<not> call_passes E (wifi_calls s) ds k" and "\<forall>j < k. call_passes E (wifi_calls s) ds j"
  shows "exec (map (check_call E) ds) s = Inl (WifiAbort (fst (ds ! k)))"
  using assms
proof (induction ds arbitrary: s k)
  case Nil
  then show ?case by simp
next
  case (Cons d ds)
  show ?case
  proof (cases k)
    case 0
    then show ?thesis using Cons.prems(2) by (simp add: check_call_step [of E d s ds])
  next
    case (Suc i)
    have "\<forall>j < i. call_passes E (wifi_calls (wifi_do (fst d) s)) ds j"
      using Cons.prems(3) call_passes_Suc [of E "wifi_calls s" d ds] Suc by auto
    moreover have "call_passes E (wifi_calls s) (d # ds) 0" using Cons.prems(3) Suc by simp
    ultimately show ?thesis
      using Cons.IH [of i "wifi_do (fst d) s"] Cons.prems(1,2) Suc
      by (simp add: check_call_step [of E d s ds] call_passes_Suc)
  qed
qed

lemma subsys_init_checks:
  assumes "\<not> initialised s"
  shows "esp32_wifi_subsys_init E s =
    bindr (exec (map (check_call E) (startup_calls E (wifi_calls s))) s) (\<lambda>s. Inr (s\<lparr>initialised := True\<rparr>))"
  using assms
  by (simp add: esp32_wifi_subsys_init_def startup_calls_def Let_def call_step checked_def bindr_assoc)

text \<open>Property C38. The subsystem is initialised once, and every error that the code checks stops it.  From the state
  in which the flag is not set, the flash is initialised, and erased and initialised again only if
  the first attempt reports no free pages; then come the event group, the adapter, the event loop and
  the driver.  When the calls whose result is checked (a first flash initialisation with any other
  error, the erasure, the second initialisation, the event loop, the driver) all succeed, exactly
  these calls are made, in this order, and the flag is set; otherwise the program aborts at the first
  of them that fails, whatever the later ones would do.  Once the flag is set a call does nothing.\<close>

theorem subsys_init_once:
  assumes "\<not> initialised s" and "ds = startup_calls E (wifi_calls s)"
  shows "(if \<forall>k < length ds. call_passes E (wifi_calls s) ds k
      then \<exists>t. esp32_wifi_subsys_init E s = Inr t \<and> initialised t \<and> wifi_calls t = wifi_calls s @ map fst ds
         \<and> esp32_wifi_subsys_init E t = Inr t
      else \<exists>k < length ds. \<not> call_passes E (wifi_calls s) ds k \<and> (\<forall>j < k. call_passes E (wifi_calls s) ds j)
         \<and> esp32_wifi_subsys_init E s = Inl (WifiAbort (fst (ds ! k))))"
proof (cases "\<forall>k < length ds. call_passes E (wifi_calls s) ds k")
  case True
  then have "esp32_wifi_subsys_init E s = Inr (s\<lparr>wifi_calls := wifi_calls s @ map fst ds, initialised := True\<rparr>)"
    using checks_pass [OF True] by (simp add: subsys_init_checks [OF assms(1)] assms(2))
  then show ?thesis using True by (simp add: esp32_wifi_subsys_init_def)
next
  case False
  then have "\<exists>k. k < length ds \<and> \<not> call_passes E (wifi_calls s) ds k" by blast
  then obtain m where m: "m < length ds" "\<not> call_passes E (wifi_calls s) ds m"
    and "\<forall>j < m. \<not> (j < length ds \<and> \<not> call_passes E (wifi_calls s) ds j)"
    unfolding exists_least_iff [of "\<lambda>k. k < length ds \<and> \<not> call_passes E (wifi_calls s) ds k"] by blast
  then have first: "\<forall>j < m. call_passes E (wifi_calls s) ds j" by auto
  then have "esp32_wifi_subsys_init E s = Inl (WifiAbort (fst (ds ! m)))"
    using checks_fail [OF m first] by (simp add: subsys_init_checks [OF assms(1)] assms(2))
  with m first show ?thesis by auto
qed

text \<open>A driver whose flash is full at first, and one whose \<open>esp_wifi_init\<close> fails.\<close>

lemma subsys_init_once_witness:
  "(\<exists>t. esp32_wifi_subsys_init (demo_wifi\<lparr>wifi_err := (\<lambda>cs. if cs = [nvs_flash_init] then 0x1101 else 0)\<rparr>) off_wifi = Inr t
      \<and> initialised t \<and> wifi_calls t = [nvs_flash_init, nvs_flash_erase, nvs_flash_init, xEventGroupCreate,
          tcpip_adapter_init, esp_event_loop_init, esp_wifi_init])
   \<and> esp32_wifi_subsys_init (demo_wifi\<lparr>wifi_err := (\<lambda>cs. if last cs = esp_wifi_init then 1 else 0)\<rparr>) off_wifi =
       Inl (WifiAbort esp_wifi_init)"
proof (intro conjI)
  let ?E = "demo_wifi\<lparr>wifi_err := (\<lambda>cs. if cs = [nvs_flash_init] then 0x1101 else 0)\<rparr>"
  let ?F = "demo_wifi\<lparr>wifi_err := (\<lambda>cs. if last cs = esp_wifi_init then 1 else 0)\<rparr>"
  have off: "\<not> initialised off_wifi" "wifi_calls off_wifi = []" by (simp_all add: off_wifi_def)
  have E: "startup_calls ?E [] = [(nvs_flash_init, False), (nvs_flash_erase, True), (nvs_flash_init, True),
      (xEventGroupCreate, False), (tcpip_adapter_init, False), (esp_event_loop_init, True), (esp_wifi_init, True)]"
    by (simp add: startup_calls_def demo_wifi_def)
  have "\<forall>k < length (startup_calls ?E []). call_passes ?E [] (startup_calls ?E []) k"
    unfolding E by (simp add: call_passes_def WIFI_OK_def less_Suc_eq numeral_eq_Suc All_less_Suc)
  with subsys_init_once [OF off(1) refl, of ?E] E off(2)
  show "\<exists>t. esp32_wifi_subsys_init ?E off_wifi = Inr t \<and> initialised t \<and> wifi_calls t = [nvs_flash_init, nvs_flash_erase,
      nvs_flash_init, xEventGroupCreate, tcpip_adapter_init, esp_event_loop_init, esp_wifi_init]"
    by auto
  have F: "startup_calls ?F [] = [(nvs_flash_init, True), (xEventGroupCreate, False), (tcpip_adapter_init, False),
      (esp_event_loop_init, True), (esp_wifi_init, True)]"
    by (simp add: startup_calls_def demo_wifi_def)
  have f: "call_passes ?F [] (startup_calls ?F []) k \<longleftrightarrow> k \<noteq> 4" if "k < 5" for k
    using that unfolding F by (auto simp: call_passes_def WIFI_OK_def less_Suc_eq numeral_eq_Suc)
  have l: "length (startup_calls ?F []) = 5" by (simp add: F)
  have "\<not> (\<forall>k < 5. call_passes ?F [] (startup_calls ?F []) k)"
    using f [of 4] by (auto intro: exI [of _ 4])
  with subsys_init_once [OF off(1) refl, of ?F]
  obtain k where k: "k < 5" "\<not> call_passes ?F [] (startup_calls ?F []) k"
    "esp32_wifi_subsys_init ?F off_wifi = Inl (WifiAbort (fst (startup_calls ?F [] ! k)))"
    unfolding off(2) l by auto
  then have "k = 4" using f by simp
  with k(3) show "esp32_wifi_subsys_init ?F off_wifi = Inl (WifiAbort esp_wifi_init)" by (simp add: F)
qed

section \<open>Interfaces and modes\<close>

text \<open>A string that fits: at most 31 characters for a network name, 63 for a password.\<close>

definition fits :: "nat \<Rightarrow> byte list \<Rightarrow> bool" where "fits sz bs \<longleftrightarrow> length bs < sz"

lemma cstrcpy_fits: "fits sz bs \<Longrightarrow> cstrcpy sz (Some bs) = Inr bs"
  by (simp add: fits_def cstrcpy_def)

lemma cstrcpy_cases: "cstrcpy sz (Some bs) = (if fits sz bs then Inr bs else Inl StringOverflow)"
  by (simp add: fits_def cstrcpy_def)

lemma softap_mode: "(if m = WIFI_MODE_APSTA \<or> m = WIFI_MODE_STA then WIFI_MODE_APSTA else WIFI_MODE_AP) = sup m WIFI_MODE_AP"
  by (cases m) (simp_all add: sup_wifi_mode_def sta_on_def ap_on_def mode_of_def)

lemma station_mode: "(if m = WIFI_MODE_APSTA \<or> m = WIFI_MODE_AP then WIFI_MODE_APSTA else WIFI_MODE_STA) = sup m WIFI_MODE_STA"
  by (cases m) (simp_all add: sup_wifi_mode_def sta_on_def ap_on_def mode_of_def)

text \<open>Property C37. Starting the access point or the station turns that interface on and leaves the other one as it is:
  the driver is asked for the join of the mode it reports with the interface's, then configured and
  started, and when it has been initialised this join is its mode afterwards.  Both calls succeed for a
  name and a password that fit, and a name of 32 bytes or a password of 64 overruns its array.\<close>

theorem bring_up_joins_mode:
  assumes "mode_driver E"
  shows "(case ap_begin E ssid pass chan hidden mx s of
        Inr t \<Rightarrow> fits SSID_SIZE ssid \<and> fits PASSWORD_SIZE pass
          \<and> (\<exists>config. wifi_calls t = wifi_calls s @ [esp_wifi_set_mode (sup (mode_at E s) WIFI_MODE_AP),
                esp_wifi_set_config ESP_IF_WIFI_AP config, esp_wifi_start])
          \<and> (driver_up s \<longrightarrow> mode_at E t = sup (mode_at E s) WIFI_MODE_AP)
      | Inl e \<Rightarrow> e = StringOverflow \<and> \<not> (fits SSID_SIZE ssid \<and> fits PASSWORD_SIZE pass))
    \<and> (case connectTo E ssid (Some pass) s of
        Inr t \<Rightarrow> fits SSID_SIZE ssid \<and> fits PASSWORD_SIZE pass
          \<and> (\<exists>config. wifi_calls t = wifi_calls s @ [esp_wifi_set_mode (sup (mode_at E s) WIFI_MODE_STA),
                esp_wifi_set_config ESP_IF_WIFI_STA config, esp_wifi_start])
          \<and> (driver_up s \<longrightarrow> mode_at E t = sup (mode_at E s) WIFI_MODE_STA)
      | Inl e \<Rightarrow> e = StringOverflow \<and> \<not> (fits SSID_SIZE ssid \<and> fits PASSWORD_SIZE pass))"
proof -
  have mode: "driver_up s \<Longrightarrow>
      mode_at E (wifi_do esp_wifi_start (wifi_do (esp_wifi_set_config i c) (wifi_do (esp_wifi_set_mode m) s))) = m" for i c m
    using mode_set [OF assms] mode_kept [OF assms] by (simp del: wifi_do_simps)
  have calls: "wifi_calls (wifi_do esp_wifi_start (wifi_do (esp_wifi_set_config i c) (wifi_do (esp_wifi_set_mode m) s))) =
      wifi_calls s @ [esp_wifi_set_mode m, esp_wifi_set_config i c, esp_wifi_start]" for i c m
    by simp
  show ?thesis
    using mode
    by (simp add: ap_begin_def connectTo_def esp32_wifi_init_softap_def esp32_wifi_init_station_def
        cstrlen_def cstrcpy_cases softap_mode station_mode Let_def call_step calls del: wifi_do_simps)
qed

text \<open>The state after a start-up of the driver of \<open>demo_wifi\<close>.\<close>

definition up_wifi :: wifi_state where
  "up_wifi = off_wifi\<lparr>initialised := True, wifi_calls := [nvs_flash_init, xEventGroupCreate, tcpip_adapter_init,
     esp_event_loop_init, esp_wifi_init]\<rparr>"

lemma bring_up_joins_mode_witness:
  "\<exists>t u. ap_begin demo_wifi [0x41] [0x42] 1 False 4 up_wifi = Inr t \<and> connectTo demo_wifi [0x43] (Some [0x44]) t = Inr u
     \<and> mode_at demo_wifi u = WIFI_MODE_APSTA"
proof -
  note j = bring_up_joins_mode [OF demo_mode_driver]
  have up: "driver_up up_wifi" "mode_at demo_wifi up_wifi = WIFI_MODE_NULL"
    by (simp_all add: driver_up_def up_wifi_def demo_wifi_def)
  obtain t where t: "ap_begin demo_wifi [0x41] [0x42] 1 False 4 up_wifi = Inr t"
    using j [where ssid = "[0x41]" and pass = "[0x42]" and chan = 1 and hidden = False and mx = 4 and s = up_wifi]
    by (auto simp: fits_def SSID_SIZE_def PASSWORD_SIZE_def split: sum.splits)
  have tm: "driver_up t" "mode_at demo_wifi t = WIFI_MODE_AP"
    using j [where ssid = "[0x41]" and pass = "[0x42]" and chan = 1 and hidden = False and mx = 4 and s = up_wifi] t up
    by (auto simp: driver_up_def sup_wifi_mode_def sta_on_def ap_on_def mode_of_def)
  obtain u where u: "connectTo demo_wifi [0x43] (Some [0x44]) t = Inr u"
    using j [where ssid = "[0x43]" and pass = "[0x44]" and chan = 1 and hidden = False and mx = 4 and s = t]
    by (auto simp: fits_def SSID_SIZE_def PASSWORD_SIZE_def split: sum.splits)
  have "mode_at demo_wifi u = WIFI_MODE_APSTA"
    using j [where ssid = "[0x43]" and pass = "[0x44]" and chan = 1 and hidden = False and mx = 4 and s = t] u tm
    by (auto simp: sup_wifi_mode_def sta_on_def ap_on_def mode_of_def)
  with t u show ?thesis by blast
qed

text \<open>Shutting one interface down: with both interfaces on, only that one is turned off; otherwise
  everything is turned off, so that stopping the access point while only the station runs, or
  disconnecting the station while only the access point runs, turns the other interface off.\<close>

lemma shut_down_modes:
  assumes "mode_driver E" and "driver_up s"
  shows "mode_at E (ap_stop E junk s) = (if mode_at E s = WIFI_MODE_APSTA then WIFI_MODE_STA else WIFI_MODE_NULL)
    \<and> mode_at E (disconnect E s) = (if mode_at E s = WIFI_MODE_APSTA then WIFI_MODE_AP else WIFI_MODE_NULL)
    \<and> (mode_at E s = WIFI_MODE_STA \<longrightarrow> sta_on (mode_at E s) \<and> \<not> sta_on (mode_at E (ap_stop E junk s)))
    \<and> (mode_at E s = WIFI_MODE_AP \<longrightarrow> ap_on (mode_at E s) \<and> \<not> ap_on (mode_at E (disconnect E s)))"
  using mode_set [OF assms(1)] mode_kept [OF assms(1)] assms(2)
  by (simp add: ap_stop_def disconnect_def Let_def sta_on_def ap_on_def del: wifi_do_simps)

text \<open>\<open>esp32_wifi_init_softap\<close> tests its password for NULL and then selects an open network, but copies from
  it all the same: with a NULL password it dereferences NULL, whatever the name; with an empty
  password it configures an open network and with any other a protected one.\<close>

lemma softap_password:
  assumes "fits SSID_SIZE ssid" and "fits PASSWORD_SIZE pass"
  shows "esp32_wifi_init_softap E (Some ssid) None mx hidden chan s = Inl NullString
    \<and> (\<exists>t c. esp32_wifi_init_softap E (Some ssid) (Some pass) mx hidden chan s = Inr t
        \<and> esp_wifi_set_config ESP_IF_WIFI_AP (ApConfig c) \<in> set (wifi_calls t)
        \<and> ap_ssid c = ssid \<and> ap_password c = pass \<and> unat (ssid_len c) = length ssid
        \<and> authmode c = (if pass = [] then WIFI_AUTH_OPEN else WIFI_AUTH_WPA_WPA2_PSK))"
proof -
  have "length ssid < 256" using assms(1) by (simp add: fits_def SSID_SIZE_def)
  then have len: "unat (of_nat (length ssid) :: byte) = length ssid"
    by (simp add: unat_of_nat)
  define c where "c = \<lparr>ap_ssid = ssid, ap_password = pass, ssid_len = of_nat (length ssid),
      max_connection = of_int mx, authmode = (if pass = [] then WIFI_AUTH_OPEN else WIFI_AUTH_WPA_WPA2_PSK),
      ssid_hidden = hidden, ap_channel = of_int chan\<rparr>"
  have "\<exists>t. esp32_wifi_init_softap E (Some ssid) (Some pass) mx hidden chan s = Inr t
      \<and> esp_wifi_set_config ESP_IF_WIFI_AP (ApConfig c) \<in> set (wifi_calls t)"
    using assms by (simp add: esp32_wifi_init_softap_def cstrlen_def cstrcpy_fits stmt Let_def c_def)
  moreover have "esp32_wifi_init_softap E (Some ssid) None mx hidden chan s = Inl NullString"
    using assms(1) by (simp add: esp32_wifi_init_softap_def cstrlen_def cstrcpy_fits)
      (simp add: cstrcpy_def)
  moreover have "ap_ssid c = ssid \<and> ap_password c = pass \<and> unat (ssid_len c) = length ssid
      \<and> authmode c = (if pass = [] then WIFI_AUTH_OPEN else WIFI_AUTH_WPA_WPA2_PSK)"
    using len by (simp add: c_def)
  ultimately show ?thesis by blast
qed

section \<open>Events\<close>

text \<open>The connection state as the user of the station sees it: the address of the last connection event.\<close>

definition run_events :: "wifi_event list \<Rightarrow> wifi_state \<Rightarrow> wifi_state" where
  "run_events = fold wifi_event_handler"

fun lease :: "wifi_event list \<Rightarrow> 32 word option \<Rightarrow> 32 word option" where
  "lease [] a = a"
| "lease (SYSTEM_EVENT_STA_GOT_IP ip # es) a = lease es (Some ip)"
| "lease (SYSTEM_EVENT_STA_DISCONNECTED # es) a = lease es None"
| "lease (_ # es) a = lease es a"

definition agrees :: "wifi_state \<Rightarrow> 32 word option \<Rightarrow> bool" where
  "agrees s a \<longleftrightarrow> (connected_bit s \<longleftrightarrow> a \<noteq> None) \<and> (station_bool s \<longleftrightarrow> a \<noteq> None)
     \<and> sta_addr s = (case a of None \<Rightarrow> 0 | Some ip \<Rightarrow> ip)"

lemmas event_defs = wifi_event_handler_def esp32_wifi_station_event_def esp32_wifi_ap_event_def
  setStatus_def setAddress_def

lemma run_events_agree: "agrees s a \<Longrightarrow> agrees (run_events es s) (lease es a)"
proof (induction es a arbitrary: s rule: lease.induct)
  case (2 ip es a)
  have "agrees (wifi_event_handler (SYSTEM_EVENT_STA_GOT_IP ip) s) (Some ip)"
    by (simp add: event_defs agrees_def station_bool_def)
  then show ?case using "2.IH" by (simp add: run_events_def)
next
  case (3 es a)
  have "agrees (wifi_event_handler SYSTEM_EVENT_STA_DISCONNECTED s) None"
    by (simp add: event_defs agrees_def station_bool_def)
  then show ?case using "3.IH" by (simp add: run_events_def)
qed (simp_all add: run_events_def event_defs agrees_def station_bool_def)

definition connects :: "wifi_state \<Rightarrow> nat" where
  "connects s = length (filter (\<lambda>c. c = esp_wifi_connect) (wifi_calls s))"

text \<open>The statements of the handler that other tasks can observe one by one: the handler runs in the SDK's event
  task, the readers of the event group, the status and the address in others.\<close>

fun event_statements :: "wifi_event \<Rightarrow> (wifi_state \<Rightarrow> wifi_state) list" where
  "event_statements SYSTEM_EVENT_STA_START = [wifi_do esp_wifi_connect]"
| "event_statements (SYSTEM_EVENT_STA_GOT_IP ip) =
     [\<lambda>s. s\<lparr>connected_bit := True\<rparr>, setStatus WL_CONNECTED, setAddress ip]"
| "event_statements SYSTEM_EVENT_STA_DISCONNECTED =
     [wifi_do esp_wifi_connect, \<lambda>s. s\<lparr>connected_bit := False\<rparr>, setStatus WL_DISCONNECTED, setAddress 0]"
| "event_statements e = []"

definition statements_of :: "wifi_event list \<Rightarrow> (wifi_state \<Rightarrow> wifi_state) list" where
  "statements_of es = concat (map event_statements es)"

definition after :: "(wifi_state \<Rightarrow> wifi_state) list \<Rightarrow> wifi_state \<Rightarrow> wifi_state" where
  "after fs = fold (\<lambda>f s. f s) fs"

lemma after_append: "after (fs @ gs) s = after gs (after fs s)"
  by (simp add: after_def)

lemma event_statements_all: "after (event_statements e) s = wifi_event_handler e s"
  by (cases e) (simp_all add: after_def event_defs)

lemma statements_run: "after (statements_of es) s = run_events es s"
  by (induction es arbitrary: s)
    (simp_all add: statements_of_def run_events_def after_append event_statements_all, simp add: after_def)

definition obtained :: "wifi_event list \<Rightarrow> 32 word set" where
  "obtained es = {ip. SYSTEM_EVENT_STA_GOT_IP ip \<in> set es}"

lemma statement_address:
  assumes "f \<in> set (statements_of es)"
  shows "sta_addr (f s) \<in> insert 0 (insert (sta_addr s) (obtained es))"
proof -
  obtain e where "e \<in> set es" "f \<in> set (event_statements e)" using assms by (auto simp: statements_of_def)
  then show ?thesis
    by (cases e rule: wifi_event.exhaust) (auto simp: obtained_def setStatus_def setAddress_def)
qed

lemma prefix_address:
  assumes "set fs \<subseteq> set (statements_of es)" and "sta_addr s \<in> insert 0 (obtained es)"
  shows "sta_addr (after fs s) \<in> insert 0 (obtained es)"
  using assms
proof (induction fs arbitrary: s)
  case Nil
  then show ?case by (simp add: after_def)
next
  case (Cons f fs)
  have "sta_addr (f s) \<in> insert 0 (obtained es)" using statement_address [of f es s] Cons.prems by auto
  with Cons show ?case by (simp add: after_def)
qed

text \<open>Property C36. For every sequence of events from the state after start-up: the event group's bit, the station's
  status and its address agree, and they are those of the last event that obtained or lost an
  address; and the driver was told to connect once for each start and each loss of connection.  A
  task that looks in the middle of an event sees an address that was obtained, or zero; but when an
  address is obtained while there is none, it can see the bit and the status of a connection while
  the address is still zero, because the handler sets the address last.\<close>

theorem station_follows_events:
  "agrees (run_events es off_wifi) (lease es None)
   \<and> connects (run_events es off_wifi) =
       length (filter (\<lambda>e. e = SYSTEM_EVENT_STA_START \<or> e = SYSTEM_EVENT_STA_DISCONNECTED) es)
   \<and> after (statements_of es) off_wifi = run_events es off_wifi
   \<and> sta_addr (after (take j (statements_of es)) off_wifi) \<in> insert 0 (obtained es)
   \<and> (lease es None = None \<longrightarrow>
       (let s = after (take (length (statements_of es) + 2) (statements_of (es @ [SYSTEM_EVENT_STA_GOT_IP ip]))) off_wifi
        in connected_bit s \<and> station_bool s \<and> sta_addr s = 0))"
proof (intro conjI impI)
  have off: "agrees off_wifi None" by (simp add: agrees_def off_wifi_def station_bool_def)
  then show agree: "agrees (run_events es off_wifi) (lease es None)" by (rule run_events_agree)
  have step: "connects (wifi_event_handler e s) = connects s +
      (if e = SYSTEM_EVENT_STA_START \<or> e = SYSTEM_EVENT_STA_DISCONNECTED then 1 else 0)" for e s
    by (cases e) (simp_all add: event_defs connects_def)
  have "connects (run_events es s) = connects s +
      length (filter (\<lambda>e. e = SYSTEM_EVENT_STA_START \<or> e = SYSTEM_EVENT_STA_DISCONNECTED) es)" for s
    by (induction es arbitrary: s) (auto simp: run_events_def step)
  then show "connects (run_events es off_wifi) =
      length (filter (\<lambda>e. e = SYSTEM_EVENT_STA_START \<or> e = SYSTEM_EVENT_STA_DISCONNECTED) es)"
    by (simp add: connects_def off_wifi_def)
  show "after (statements_of es) off_wifi = run_events es off_wifi" by (rule statements_run)
  show "sta_addr (after (take j (statements_of es)) off_wifi) \<in> insert 0 (obtained es)"
    by (rule prefix_address [OF set_take_subset]) (simp add: off_wifi_def)
  assume "lease es None = None"
  with agree have "sta_addr (run_events es off_wifi) = 0" by (simp add: agrees_def)
  moreover have "take (length (statements_of es) + 2) (statements_of (es @ [SYSTEM_EVENT_STA_GOT_IP ip])) =
      statements_of es @ [\<lambda>s. s\<lparr>connected_bit := True\<rparr>, setStatus WL_CONNECTED]"
    by (simp add: statements_of_def numeral_2_eq_2)
  ultimately show "let s = after (take (length (statements_of es) + 2) (statements_of (es @ [SYSTEM_EVENT_STA_GOT_IP ip]))) off_wifi
        in connected_bit s \<and> station_bool s \<and> sta_addr s = 0"
    by (simp add: after_append statements_run) (simp add: after_def setStatus_def station_bool_def)
qed

lemma station_follows_events_witness:
  "let s = after (take 3 (statements_of [SYSTEM_EVENT_STA_START, SYSTEM_EVENT_STA_GOT_IP 0x0100A8C0])) off_wifi
   in connected_bit s \<and> station_bool s \<and> sta_addr s = 0"
  using station_follows_events [of "[SYSTEM_EVENT_STA_START]" 0 "0x0100A8C0"]
  by (simp add: statements_of_def)

section \<open>Addresses of the access point\<close>

text \<open>An IPv4 address in network byte order: its first octet is the lowest byte of the word.\<close>

definition octets :: "32 word \<Rightarrow> byte list" where
  "octets = word_bytes"

lemma octet_nat: "i < 4 \<Longrightarrow> octets w ! i = of_nat (unat w div 2 ^ (8 * i))"
proof -
  assume "i < 4"
  then have "octets w ! i = ucast (drop_bit (8 * i) w)" by (simp add: octets_def nth_word_bytes)
  also have "\<dots> = of_nat (unat (drop_bit (8 * i) w))" by (simp add: unsigned_ucast_eq)
  also have "unat (drop_bit (8 * i) w) = unat w div 2 ^ (8 * i)"
    by (subst unat_drop_bit_eq) (rule drop_bit_eq_div)
  finally show ?thesis .
qed

lemma of_nat_byte_eqI: "m mod 256 = n mod 256 \<Longrightarrow> (of_nat m :: byte) = of_nat n"
  by (simp add: word_of_nat_eq_iff take_bit_eq_mod)

lemma div_mod_low:
  assumes "(x :: nat) mod 2 ^ 24 = y mod 2 ^ 24" and "i < 3"
  shows "x div 2 ^ (8 * i) mod 256 = y div 2 ^ (8 * i) mod 256"
proof -
  have "z div 2 ^ (8 * i) mod 256 = z mod 2 ^ 24 div 2 ^ (8 * i) mod 256" for z :: nat
  proof -
    have "2 ^ 24 = (2 :: nat) ^ (8 * i) * (256 * 2 ^ (16 - 8 * i))"
      using assms(2) by (simp add: less_Suc_eq numeral_3_eq_3) auto
    then show ?thesis
      by (simp only: mod_mult2_eq) (simp add: mod_mult2_eq)
  qed
  with assms(1) show ?thesis by metis
qed

lemma octets_add_top:
  "octets (w + push_bit 24 (of_nat k)) = take 3 (octets w) @ [octets w ! 3 + of_nat k]"
proof -
  let ?v = "w + push_bit 24 (of_nat k)" and ?u = "unat w"
  have "push_bit 24 (of_nat k) = (of_nat (2 ^ 24 * k) :: 32 word)"
    by (simp add: push_bit_eq_mult mult.commute)
  then have "?v = of_nat (?u + 2 ^ 24 * k)" by simp
  then have v: "unat ?v = (?u + 2 ^ 24 * k) mod 2 ^ 32"
    by (simp only: unat_of_nat) simp
  have "unat ?v mod 2 ^ 24 = (?u + 2 ^ 24 * k) mod 2 ^ 24"
    unfolding v by (rule mod_mod_cancel) simp
  then have low: "unat ?v mod 2 ^ 24 = ?u mod 2 ^ 24" by simp
  have "octets ?v ! i = octets w ! i" if "i < 3" for i
    using that of_nat_byte_eqI [OF div_mod_low [OF low that]] by (simp add: octet_nat)
  moreover have "octets ?v ! 3 = octets w ! 3 + of_nat k"
  proof -
    have "(2 :: nat) ^ 32 = 2 ^ 24 * 256" by simp
    then have "unat ?v div 2 ^ 24 = (?u + 2 ^ 24 * k) div 2 ^ 24 mod 256"
      unfolding v by (simp only: mod_mult2_eq) simp
    also have "(?u + 2 ^ 24 * k) div 2 ^ 24 = ?u div 2 ^ 24 + k" by simp
    finally have "(of_nat (unat ?v div 2 ^ 24) :: byte) = of_nat (?u div 2 ^ 24 + k)"
      by (intro of_nat_byte_eqI) simp
    then show ?thesis by (simp add: octet_nat)
  qed
  ultimately have "octets ?v ! i = (take 3 (octets w) @ [octets w ! 3 + of_nat k]) ! i" if "i < 4" for i
    using that by (cases "i < 3") (auto simp: nth_append octets_def less_Suc_eq numeral_eq_Suc)
  then show ?thesis
    by (intro nth_equalityI) (simp_all add: octets_def)
qed


text \<open>Property C40. The DHCP range of the access point: both ends keep the first three octets of the local address, and
  their last octets are the local one plus 1 and plus 11 modulo 256; so for a last octet up to 244
  the range is the eleven addresses after the local one, and above that its end wraps around and
  lies below its start.\<close>

theorem dhcp_range:
  "octets (start_ip (ap_lease loc)) = take 3 (octets loc) @ [octets loc ! 3 + 1]
   \<and> octets (end_ip (ap_lease loc)) = take 3 (octets loc) @ [octets loc ! 3 + 11]
   \<and> (octets loc ! 3 \<le> 244 \<longrightarrow>
        unat (octets (start_ip (ap_lease loc)) ! 3) = unat (octets loc ! 3) + 1
        \<and> unat (octets (end_ip (ap_lease loc)) ! 3) = unat (octets loc ! 3) + 11)
   \<and> (244 < octets loc ! 3 \<longrightarrow> octets loc ! 3 < 255 \<longrightarrow>
        octets (end_ip (ap_lease loc)) ! 3 < octets (start_ip (ap_lease loc)) ! 3)"
proof -
  have e: "octets (start_ip (ap_lease loc)) = take 3 (octets loc) @ [octets loc ! 3 + 1]"
    "octets (end_ip (ap_lease loc)) = take 3 (octets loc) @ [octets loc ! 3 + 11]"
    using octets_add_top [of loc 1] octets_add_top [of loc 11] by (simp_all add: ap_lease_def)
  have n: "(take 3 (octets loc) @ [x]) ! 3 = x" for x
    by (simp add: nth_append octets_def)
  have "unat (b + 1) = unat b + 1 \<and> unat (b + 11) = unat b + 11" if "b \<le> 244" for b :: byte
    using that by (simp add: word_le_nat_alt unat_word_ariths)
  moreover have "b + 11 < b + 1" if "244 < b" "b < 255" for b :: byte
  proof -
    have b: "244 < unat b" "unat b < 255" using that by (simp_all add: word_less_nat_alt)
    then have "unat (b + 11) = unat b + 11 - 256" "unat (b + 1) = unat b + 1"
      by (simp_all add: unat_word_ariths mod_if)
    with b show ?thesis by (simp add: word_less_nat_alt)
  qed
  ultimately show ?thesis
    unfolding e n by blast
qed

lemma dhcp_range_witness:
  "octets (start_ip (ap_lease (bytes_word [192, 168, 1, 1]))) = [192, 168, 1, 2]
   \<and> octets (end_ip (ap_lease (bytes_word [192, 168, 1, 1]))) = [192, 168, 1, 12]
   \<and> octets (end_ip (ap_lease (bytes_word [192, 168, 1, 250]))) ! 3 < octets (start_ip (ap_lease (bytes_word [192, 168, 1, 250]))) ! 3"
proof -
  have "octets (bytes_word [a, b, c, d]) = [a, b, c, d]" for a b c d
    by (simp add: octets_def word_bytes_inverse)
  with dhcp_range [of "bytes_word [192, 168, 1, 1]"] dhcp_range [of "bytes_word [192, 168, 1, 250]"]
  show ?thesis by simp
qed

text \<open>The access point counts as running exactly when its configured local address is not zero:
  configuring it with such an address turns that on, whatever the driver reports, and stopping it
  does not turn it off.\<close>

lemma ap_bool_after_stop:
  assumes "loc \<noteq> 0"
  shows "ap_bool (ap_config_ip E loc gw sn s) \<and> ap_bool (ap_stop E junk (ap_config_ip E loc gw sn s))"
  using assms by (simp add: ap_bool_def ap_config_ip_def ap_stop_def Let_def)

text \<open>\<open>mac\<close> makes a string from the six bytes of the address, which are followed by no terminating zero:
  an address without a zero byte is read past its end, and any other is cut at its first zero
  byte.\<close>

lemma mac_unterminated:
  assumes "wifi_err E (wifi_calls s @ [esp_efuse_mac_get_default]) = WIFI_OK" and "length (mac_bytes E) = 6"
  shows "if 0 \<in> set (mac_bytes E)
    then \<exists>str t. ap_mac E s = Inr (str, t) \<and> length str < 6 \<and> str = take (length str) (mac_bytes E)
    else ap_mac E s = Inl UnterminatedString"
proof (cases "0 \<in> set (mac_bytes E)")
  case True
  let ?str = "takeWhile (\<lambda>b. b \<noteq> 0) (mac_bytes E)"
  have "?str \<noteq> mac_bytes E" using True by (metis (full_types) set_takeWhileD)
  then have "length ?str < 6"
    using assms(2) by (metis length_takeWhile_le nat_less_le take_all_iff takeWhile_eq_take)
  with True assms(1) show ?thesis
    by (auto simp: ap_mac_def string_of_array_def Let_def takeWhile_eq_take [symmetric])
next
  case False
  with assms(1) show ?thesis by (simp add: ap_mac_def string_of_array_def Let_def)
qed

end
