(* ===== verification/Wifi_Life.thy ===== *)
theory Wifi_Life
  imports Wifi
begin

text \<open>
  The WiFi classes together: any sequence of constructions, connections, access-point operations and
  driver events on the shared subsystem of \<^verbatim>\<open>esp32/esp32_wifi.c\<close>, against an abstract machine that
  knows which interfaces are on and which address the station has.
\<close>

section \<open>Uses of the classes\<close>

datatype wifi_use =
    NewStation | ConnectTo "byte list" "byte list option" | Disconnect
  | ApStart | ApBegin "byte list" "byte list" int bool int | ApConfigure "32 word" "32 word" "32 word"
  | ApStop ap_config | Event wifi_event

fun use_wifi :: "wifi_env \<Rightarrow> wifi_use \<Rightarrow> (wifi_fault, wifi_state) step" where
  "use_wifi E NewStation s = WifiStation_ctor E s"
| "use_wifi E (ConnectTo ssid pass) s = connectTo E ssid pass s"
| "use_wifi E Disconnect s = Inr (disconnect E s)"
| "use_wifi E ApStart s = ap_start E s"
| "use_wifi E (ApBegin ssid pass chan hidden mx) s = ap_begin E ssid pass chan hidden mx s"
| "use_wifi E (ApConfigure loc gw sn) s = Inr (ap_config_ip E loc gw sn s)"
| "use_wifi E (ApStop junk) s = Inr (ap_stop E junk s)"
| "use_wifi E (Event e) s = Inr (wifi_event_handler e s)"

text \<open>Names and passwords that fit their arrays.\<close>

fun use_fits :: "wifi_use \<Rightarrow> bool" where
  "use_fits (ConnectTo ssid pass) \<longleftrightarrow> fits SSID_SIZE ssid \<and> (case pass of None \<Rightarrow> True | Some p \<Rightarrow> fits PASSWORD_SIZE p)"
| "use_fits (ApBegin ssid pass chan hidden mx) \<longleftrightarrow> fits SSID_SIZE ssid \<and> fits PASSWORD_SIZE pass"
| "use_fits u \<longleftrightarrow> True"

fun brings_up :: "wifi_use \<Rightarrow> bool" where
  "brings_up NewStation = True"
| "brings_up ApStart = True"
| "brings_up u = False"

section \<open>The abstract machine\<close>

record wifi_machine =
  w_sta :: bool
  w_ap :: bool
  w_address :: "32 word option"
  w_local :: "32 word"

text \<open>Turning one interface off keeps the other only when both are on.  Constructing a station and starting the
  access point do nothing more once the subsystem is up.\<close>

fun wifi_spec :: "wifi_use \<Rightarrow> wifi_machine \<Rightarrow> wifi_machine" where
  "wifi_spec NewStation a = a"
| "wifi_spec (ConnectTo ssid pass) a = a\<lparr>w_sta := True\<rparr>"
| "wifi_spec Disconnect a = a\<lparr>w_sta := False, w_ap := w_sta a \<and> w_ap a\<rparr>"
| "wifi_spec ApStart a = a"
| "wifi_spec (ApBegin ssid pass chan hidden mx) a = a\<lparr>w_ap := True\<rparr>"
| "wifi_spec (ApConfigure loc gw sn) a = a\<lparr>w_local := loc\<rparr>"
| "wifi_spec (ApStop junk) a = a\<lparr>w_ap := False, w_sta := w_sta a \<and> w_ap a\<rparr>"
| "wifi_spec (Event e) a = a\<lparr>w_address := lease [e] (w_address a)\<rparr>"

definition simulates :: "wifi_env \<Rightarrow> wifi_state \<Rightarrow> wifi_machine \<Rightarrow> bool" where
  "simulates E s a \<longleftrightarrow> mode_at E s = mode_of (w_sta a) (w_ap a)
     \<and> agrees s (w_address a) \<and> ap_local s = w_local a"

text \<open>The calls of a start-up from the first state, whether all that are checked succeed, and the machine after
  it, whose interfaces are those of the mode that the driver then reports.\<close>

definition first_startup :: "wifi_env \<Rightarrow> (wifi_call \<times> bool) list" where
  "first_startup E = startup_calls E []"

definition startup_ok :: "wifi_env \<Rightarrow> bool" where
  "startup_ok E \<longleftrightarrow> (\<forall>k < length (first_startup E). call_passes E [] (first_startup E) k)"

definition started_machine :: "wifi_env \<Rightarrow> wifi_machine" where
  "started_machine E = (let m = get_mode E (map fst (first_startup E))
     in \<lparr>w_sta = sta_on m, w_ap = ap_on m, w_address = None, w_local = 0\<rparr>)"

definition started :: "wifi_env \<Rightarrow> wifi_state" where
  "started E = off_wifi\<lparr>wifi_calls := map fst (first_startup E), initialised := True\<rparr>"

lemma first_use:
  assumes "brings_up u"
  shows "use_wifi E u off_wifi = esp32_wifi_subsys_init E off_wifi"
  using assms by (cases u) (simp_all add: WifiStation_ctor_def ap_start_def)

lemma first_use_starts:
  assumes "brings_up u" and "startup_ok E"
  shows "use_wifi E u off_wifi = Inr (started E)"
  unfolding first_use [OF assms(1)]
  using checks_pass [of "first_startup E" E off_wifi] assms(2) subsys_init_checks [of off_wifi E]
  by (simp add: startup_ok_def first_startup_def started_def off_wifi_def)

lemma first_use_aborts:
  assumes "brings_up u" and "\<not> startup_ok E"
  obtains k where "k < length (first_startup E)" "\<not> call_passes E [] (first_startup E) k"
    "\<forall>j < k. call_passes E [] (first_startup E) j" "use_wifi E u off_wifi = Inl (WifiAbort (fst (first_startup E ! k)))"
proof -
  have "\<exists>k. k < length (first_startup E) \<and> \<not> call_passes E [] (first_startup E) k"
    using assms(2) by (simp add: startup_ok_def)
  then obtain k where k: "k < length (first_startup E)" "\<not> call_passes E [] (first_startup E) k"
    and "\<forall>j < k. \<not> (j < length (first_startup E) \<and> \<not> call_passes E [] (first_startup E) j)"
    unfolding exists_least_iff [of "\<lambda>k. k < length (first_startup E) \<and> \<not> call_passes E [] (first_startup E) k"] by blast
  then have first: "\<forall>j < k. call_passes E [] (first_startup E) j" by auto
  have "exec (map (check_call E) (first_startup E)) off_wifi = Inl (WifiAbort (fst (first_startup E ! k)))"
    using checks_fail [of k "first_startup E" E off_wifi] k first by (simp add: off_wifi_def)
  then have "use_wifi E u off_wifi = Inl (WifiAbort (fst (first_startup E ! k)))"
    unfolding first_use [OF assms(1)] using subsys_init_checks [of off_wifi E] by (simp add: first_startup_def off_wifi_def)
  with k first show ?thesis by (rule that)
qed

section \<open>Simulation\<close>

lemma mode_kept_list:
  assumes "mode_driver E" and "esp_wifi_init \<in> set cs" and "\<forall>c \<in> set ds. \<forall>m. c \<noteq> esp_wifi_set_mode m"
  shows "get_mode E (cs @ ds) = get_mode E cs"
  using assms(3)
proof (induction ds rule: rev_induct)
  case Nil
  then show ?case by simp
next
  case (snoc d ds)
  then show ?case using assms(1,2) by (simp add: mode_driver_def append_assoc [symmetric] del: append_assoc)
qed

lemma mode_last:
  assumes "mode_driver E" and "esp_wifi_init \<in> set cs" and "\<forall>c \<in> set ds. \<forall>m. c \<noteq> esp_wifi_set_mode m"
  shows "get_mode E (cs @ esp_wifi_set_mode m # ds) = m"
  using mode_kept_list [OF assms(1) _ assms(3), of "cs @ [esp_wifi_set_mode m]"] assms(1,2) by (simp add: mode_driver_def)

lemma mode_of_join: "mode_of True a = sup (mode_of s a) WIFI_MODE_STA" "mode_of s True = sup (mode_of s a) WIFI_MODE_AP"
  by (cases s; cases a; simp add: sup_wifi_mode_def mode_of_def sta_on_def ap_on_def)+

text \<open>One use after start-up: it returns and follows the abstract machine.\<close>

definition up :: "wifi_state \<Rightarrow> bool" where
  "up s \<longleftrightarrow> initialised s \<and> driver_up s"

definition follows :: "wifi_env \<Rightarrow> wifi_use \<Rightarrow> wifi_state \<Rightarrow> wifi_machine \<Rightarrow> wifi_state \<Rightarrow> bool" where
  "follows E u s a t \<longleftrightarrow> use_wifi E u s = Inr t \<and> simulates E t (wifi_spec u a)"

lemma bring_up_follows:
  assumes "mode_driver E" and "up s" and "simulates E s a" and "use_fits u"
    and "u = ConnectTo ssid pass \<or> u = ApBegin ssid pw chan hidden mx"
  shows "\<exists>t. follows E u s a t"
proof -
  have mode: "get_mode E (wifi_calls s @ [esp_wifi_set_mode m, esp_wifi_set_config i c, esp_wifi_start]) = m" for m i c
    using mode_last [OF assms(1), of "wifi_calls s" "[esp_wifi_set_config i c, esp_wifi_start]"] assms(2)
    by (simp add: up_def driver_up_def)
  show ?thesis
    using assms(3-5) mode
    by (auto simp: follows_def connectTo_def ap_begin_def esp32_wifi_init_station_def esp32_wifi_init_softap_def
        cstrlen_def cstrcpy_fits softap_mode station_mode simulates_def agrees_def station_bool_def Let_def stmt
        fits_def PASSWORD_SIZE_def mode_of_join [symmetric] split: option.splits)
qed

lemma bring_up_overruns:
  assumes "\<not> use_fits u"
  shows "use_wifi E u s = Inl StringOverflow"
  using assms
  by (cases u) (auto simp: connectTo_def ap_begin_def esp32_wifi_init_station_def esp32_wifi_init_softap_def
      cstrlen_def cstrcpy_cases Let_def split: option.splits)

lemma mode_of_APSTA [simp]: "mode_of s a = WIFI_MODE_APSTA \<longleftrightarrow> s \<and> a"
  by (simp add: mode_of_def)

lemma shut_down_follows:
  assumes "mode_driver E" and "up s" and "simulates E s a" and "u = Disconnect \<or> u = ApStop junk"
  shows "\<exists>t. follows E u s a t"
proof -
  have init: "esp_wifi_init \<in> set (wifi_calls s)" "driver_up s" using assms(2) by (simp_all add: up_def driver_up_def)
  have two: "get_mode E (wifi_calls s @ [c, esp_wifi_set_mode m]) = m" for c m
    using mode_last [OF assms(1), of "wifi_calls s @ [c]" "[]"] init(1) by simp
  show ?thesis
    using assms(3,4) two mode_last [OF assms(1) init(1), of "[]"]
      mode_kept [OF assms(1) init(2), of "esp_wifi_set_config i c" for i c]
    by (auto simp: follows_def disconnect_def ap_stop_def Let_def simulates_def agrees_def station_bool_def)
      (simp_all add: mode_of_def)
qed

lemma configure_follows:
  assumes "mode_driver E" and "up s" and "simulates E s a" and "u = ApConfigure loc gw sn"
  shows "\<exists>t. follows E u s a t"
  using assms(3,4) mode_kept_list [OF assms(1), of "wifi_calls s"] assms(2)
  by (auto simp: follows_def ap_config_ip_def Let_def simulates_def agrees_def station_bool_def up_def driver_up_def)

lemma event_follows:
  assumes "mode_driver E" and "up s" and "simulates E s a" and "u = Event e"
  shows "\<exists>t. follows E u s a t"
proof -
  have "agrees (wifi_event_handler e s) (lease [e] (w_address a))"
    using run_events_agree [of s "w_address a" "[e]"] assms(3) by (simp add: run_events_def simulates_def)
  moreover have "mode_at E (wifi_event_handler e s) = mode_at E s"
    using mode_kept_list [OF assms(1), of "wifi_calls s" "[esp_wifi_connect]"] assms(2)
    by (cases e) (simp_all add: event_defs up_def driver_up_def)
  moreover have "ap_local (wifi_event_handler e s) = ap_local s"
    by (cases e) (simp_all add: event_defs)
  ultimately show ?thesis using assms(3,4) by (simp add: follows_def simulates_def)
qed

lemma use_follows:
  assumes "mode_driver E" and "up s" and "simulates E s a" and "use_fits u"
  shows "\<exists>t. follows E u s a t"
proof (cases u)
  case (ConnectTo ssid pass)
  then show ?thesis using bring_up_follows [OF assms] by blast
next
  case (ApBegin ssid pass chan hidden mx)
  then show ?thesis using bring_up_follows [OF assms] by blast
next
  case Disconnect
  then show ?thesis using shut_down_follows [OF assms(1-3)] by blast
next
  case (ApStop junk)
  then show ?thesis using shut_down_follows [OF assms(1-3)] by blast
next
  case (ApConfigure loc gw sn)
  then show ?thesis using configure_follows [OF assms(1-3)] by blast
next
  case (Event e)
  then show ?thesis using event_follows [OF assms(1-3)] by blast
qed (use assms(2,3) in \<open>simp_all add: follows_def up_def WifiStation_ctor_def ap_start_def esp32_wifi_subsys_init_def\<close>)

section \<open>The order of the driver's calls\<close>

fun needs_driver :: "wifi_call \<Rightarrow> bool" where
  "needs_driver esp_wifi_start = True"
| "needs_driver esp_wifi_connect = True"
| "needs_driver (esp_wifi_set_mode m) = True"
| "needs_driver (esp_wifi_set_config i c) = True"
| "needs_driver c = False"

text \<open>\<open>r\<close> says whether the driver has been initialised already.\<close>

fun after_init :: "bool \<Rightarrow> wifi_call list \<Rightarrow> bool" where
  "after_init r [] \<longleftrightarrow> True"
| "after_init r (c # cs) \<longleftrightarrow> (needs_driver c \<longrightarrow> r) \<and> after_init (r \<or> esp_wifi_init = c) cs"

definition brought_up :: "wifi_state \<Rightarrow> bool" where
  "brought_up s \<longleftrightarrow> initialised s \<and> after_init False (wifi_calls s)
     \<and> count_list (wifi_calls s) esp_wifi_init = 1"

lemma after_init_True [simp]: "after_init True cs"
  by (induction cs) simp_all

lemma after_init_append: "after_init r (cs @ ds) \<longleftrightarrow> after_init r cs \<and> after_init (r \<or> esp_wifi_init \<in> set cs) ds"
  by (induction cs arbitrary: r) (auto simp: disj_assoc)

text \<open>Once the subsystem is initialised no use initialises it again.\<close>

lemma use_adds:
  assumes "use_wifi E u s = Inr t" and "initialised s"
  obtains ds where "wifi_calls t = wifi_calls s @ ds" and "esp_wifi_init \<notin> set ds" and "initialised t"
proof (cases u)
  case (Event e)
  with assms show ?thesis
    by (intro that [of "drop (length (wifi_calls s)) (wifi_calls t)"]; cases e) (auto simp: event_defs)
qed (use assms that in \<open>auto simp: WifiStation_ctor_def ap_start_def esp32_wifi_subsys_init_def connectTo_def ap_begin_def
    esp32_wifi_init_station_def esp32_wifi_init_softap_def bindr_eq_Inr_iff stmt Let_def disconnect_def
    ap_stop_def ap_config_ip_def split: if_splits\<close>)

lemma use_brought_up: "use_wifi E u s = Inr t \<Longrightarrow> brought_up s \<Longrightarrow> brought_up t"
proof -
  assume u: "use_wifi E u s = Inr t" and s: "brought_up s"
  then have "initialised s" by (simp add: brought_up_def)
  from u this obtain ds where ds: "wifi_calls t = wifi_calls s @ ds" "esp_wifi_init \<notin> set ds" "initialised t"
    by (rule use_adds)
  have "esp_wifi_init \<in> set (wifi_calls s)" using s count_notin [of esp_wifi_init "wifi_calls s"] by (fastforce simp: brought_up_def)
  with s ds show ?thesis by (simp add: brought_up_def after_init_append count_list_append)
qed

lemma brought_up_up: "brought_up s \<Longrightarrow> up s"
  using count_notin [of esp_wifi_init "wifi_calls s"] by (fastforce simp: brought_up_def up_def driver_up_def)

text \<open>A sequence of uses after start-up returns exactly when all names and passwords fit.\<close>

lemma uses_follow:
  assumes "mode_driver E" and "simulates E s a" and "brought_up s"
  shows "if \<forall>u \<in> set us. use_fits u
    then \<exists>t. exec (map (use_wifi E) us) s = Inr t \<and> simulates E t (fold wifi_spec us a) \<and> brought_up t
    else exec (map (use_wifi E) us) s = Inl StringOverflow"
  using assms(2,3)
proof (induction us arbitrary: s a)
  case Nil
  then show ?case by simp
next
  case (Cons u us)
  show ?case
  proof (cases "use_fits u")
    case True
    then obtain s1 where s1: "use_wifi E u s = Inr s1" "simulates E s1 (wifi_spec u a)"
      using use_follows [OF assms(1) brought_up_up [OF Cons.prems(2)] Cons.prems(1), of u] by (auto simp: follows_def)
    with Cons.IH [OF s1(2) use_brought_up [OF s1(1) Cons.prems(2)]] True show ?thesis by (simp split: if_splits)
  next
    case False
    then show ?thesis by (simp add: bring_up_overruns)
  qed
qed

lemma started_simulates: "simulates E (started E) (started_machine E)" "brought_up (started E)"
  by (simp_all add: simulates_def started_def started_machine_def off_wifi_def agrees_def station_bool_def Let_def
      brought_up_def first_startup_def startup_calls_def)

text \<open>Property C17. The WiFi classes implement the abstract machine.  A program whose first use constructs a station or
  starts an access point, and goes on with any sequence of constructions, connections, access-point
  operations and driver events, has one of three ends: it aborts in the first use, at the first call
  of the start-up that is checked and fails; or the start-up succeeds and a name or password of the
  sequence does not fit its array, and the first such use overruns it; or all fit, and the program
  returns.  Then the driver's mode, the station's status and address, and the access point's address
  are those of the machine, in which turning one interface off keeps the other only when both are on,
  and the driver has been initialised exactly once and before anything else was asked of it.\<close>

theorem wifi_life:
  assumes "mode_driver E" and "brings_up u"
  shows "case exec (map (use_wifi E) (u # us)) off_wifi of
      Inr t \<Rightarrow> startup_ok E \<and> (\<forall>v \<in> set us. use_fits v)
        \<and> simulates E t (fold wifi_spec us (started_machine E))
        \<and> after_init False (wifi_calls t) \<and> count_list (wifi_calls t) esp_wifi_init = 1
    | Inl f \<Rightarrow> (f = StringOverflow \<and> startup_ok E
          \<and> (\<exists>vs v ws s. us = vs @ v # ws \<and> (\<forall>w \<in> set vs. use_fits w) \<and> \<not> use_fits v
              \<and> exec (map (use_wifi E) (u # vs)) off_wifi = Inr s \<and> use_wifi E v s = Inl StringOverflow))
        \<or> (\<exists>k < length (first_startup E). f = WifiAbort (fst (first_startup E ! k))
            \<and> \<not> call_passes E [] (first_startup E) k \<and> (\<forall>j < k. call_passes E [] (first_startup E) j))"
proof (cases "startup_ok E")
  case True
  have run: "exec (map (use_wifi E) (u # vs)) off_wifi = exec (map (use_wifi E) vs) (started E)" for vs
    using True by (simp add: first_use_starts [OF assms(2)])
  note follow = uses_follow [OF assms(1) started_simulates]
  show ?thesis
  proof (cases "\<forall>v \<in> set us. use_fits v")
    case True
    with follow [of us] \<open>startup_ok E\<close> show ?thesis
      unfolding run by (auto simp: brought_up_def simp del: exec.simps split: if_splits)
  next
    case False
    then have "\<exists>v \<in> set us. \<not> use_fits v" by blast
    from split_list_first_prop [OF this] obtain vs v ws where us: "us = vs @ v # ws" "\<not> use_fits v" "\<forall>w \<in> set vs. use_fits w"
      by blast
    with follow [of vs] obtain s where s: "exec (map (use_wifi E) vs) (started E) = Inr s" by auto
    have over: "exec (map (use_wifi E) (u # us)) off_wifi = Inl StringOverflow" unfolding run using follow [of us] False by simp
    have "exec (map (use_wifi E) (u # vs)) off_wifi = Inr s" unfolding run by (rule s)
    with us bring_up_overruns [OF us(2), of E s] have first: "\<exists>vs v ws s. us = vs @ v # ws \<and> (\<forall>w \<in> set vs. use_fits w) \<and> \<not> use_fits v
        \<and> exec (map (use_wifi E) (u # vs)) off_wifi = Inr s \<and> use_wifi E v s = Inl StringOverflow"
      by (intro exI [of _ vs] exI [of _ v] exI [of _ ws] exI [of _ s] conjI)
    show ?thesis unfolding over sum.case using first \<open>startup_ok E\<close> by (intro disjI1 conjI refl)
  qed
next
  case False
  then obtain k where k: "k < length (first_startup E)" "\<not> call_passes E [] (first_startup E) k"
    "\<forall>j < k. call_passes E [] (first_startup E) j" "use_wifi E u off_wifi = Inl (WifiAbort (fst (first_startup E ! k)))"
    by (rule first_use_aborts [OF assms(2)])
  then have "exec (map (use_wifi E) (u # us)) off_wifi = Inl (WifiAbort (fst (first_startup E ! k)))" by simp
  with k(1-3) show ?thesis by (auto simp del: exec.simps list.map)
qed

lemma wifi_life_witness:
  "(\<exists>t. exec (map (use_wifi demo_wifi) [NewStation, ConnectTo [0x41] None, Event (SYSTEM_EVENT_STA_GOT_IP 7),
        ApBegin [0x42] [] 1 False 4, Disconnect]) off_wifi = Inr t
     \<and> mode_at demo_wifi t = WIFI_MODE_AP \<and> station_bool t \<and> sta_addr t = 7)
   \<and> exec (map (use_wifi demo_wifi) [ApStart, ConnectTo (replicate 32 0x41) None]) off_wifi = Inl StringOverflow"
proof (intro conjI)
  let ?us = "[ConnectTo [0x41] None, Event (SYSTEM_EVENT_STA_GOT_IP 7), ApBegin [0x42] [] 1 False 4, Disconnect]"
  let ?vs = "[ConnectTo (replicate 32 0x41) None]"
  note w = wifi_life [OF demo_mode_driver]
  have ok: "call_passes demo_wifi [] (first_startup demo_wifi) k" for k
    by (simp add: call_passes_def demo_wifi_def WIFI_OK_def)
  have fit: "\<forall>u \<in> set ?us. use_fits u" "\<not> use_fits (ConnectTo (replicate 32 0x41) None)"
    by (simp_all add: fits_def SSID_SIZE_def PASSWORD_SIZE_def)
  have none: "\<not> (?us = vs @ v # ws \<and> \<not> use_fits v)" for vs v ws
    using fit(1) in_set_conv_decomp [of v ?us] by blast
  have "brings_up NewStation" "brings_up ApStart" by simp_all
  from w [OF this(1), of ?us] ok none obtain t where "exec (map (use_wifi demo_wifi) (NewStation # ?us)) off_wifi = Inr t"
    "simulates demo_wifi t (fold wifi_spec ?us (started_machine demo_wifi))"
    by (cases "exec (map (use_wifi demo_wifi) (NewStation # ?us)) off_wifi") (auto simp del: exec.simps list.map fold.simps use_fits.simps)
  then show "\<exists>t. exec (map (use_wifi demo_wifi) (NewStation # ?us)) off_wifi = Inr t
     \<and> mode_at demo_wifi t = WIFI_MODE_AP \<and> station_bool t \<and> sta_addr t = 7"
    by (intro exI [of _ t]) (simp add: simulates_def agrees_def mode_of_def started_machine_def Let_def del: exec.simps)
  from w [OF \<open>brings_up ApStart\<close>, of ?vs] ok fit(2)
  show "exec (map (use_wifi demo_wifi) (ApStart # ?vs)) off_wifi = Inl StringOverflow"
    by (auto simp del: exec.simps list.map use_fits.simps split: sum.splits)
qed

end
