(* ===== verification/Station_Former.thy ===== *)
theory Station_Former
  imports Wifi
begin

text \<open>
  The station class of \<^verbatim>\<open>esp32/esp32_station.cpp\<close>, the predecessor of \<^verbatim>\<open>esp32/esp32_sta.cpp\<close>, which is no longer
  in the build list.  It keeps address, name, password and status itself, where its successor leaves
  them to its base class.  The lemmas show that the two cannot be told apart by connecting, by events
  and by the three queries; only the successor can disconnect.
\<close>

section \<open>The class\<close>

record former_station =
  f_addr :: "32 word"
  f_ssid :: "byte list"
  f_password :: "byte list"
  f_status :: wireless_status

definition former_ctor :: "wifi_env \<Rightarrow> wifi_state \<Rightarrow> wifi_fault + (former_station \<times> wifi_state)" where
  "former_ctor E s =
     (let this = \<lparr>f_addr = 0, f_ssid = [], f_password = [], f_status = WL_IDLE_STATUS\<rparr>
      in bindr (esp32_wifi_subsys_init E s) (\<lambda>s. Inr (this, s)))"

definition former_connectTo_open :: "wifi_env \<Rightarrow> byte list \<Rightarrow> (wifi_fault, wifi_state) step" where
  "former_connectTo_open E ssid = esp32_wifi_init_station E (Some ssid) (Some [])"

definition former_connectTo :: "wifi_env \<Rightarrow> byte list \<Rightarrow> byte list \<Rightarrow> (wifi_fault, wifi_state) step" where
  "former_connectTo E ssid pass = esp32_wifi_init_station E (Some ssid) (Some pass)"

definition former_setAddress :: "32 word \<Rightarrow> former_station \<Rightarrow> former_station" where
  "former_setAddress addr this = this\<lparr>f_addr := addr\<rparr>"

definition former_setStatus :: "wireless_status \<Rightarrow> former_station \<Rightarrow> former_station" where
  "former_setStatus status this = this\<lparr>f_status := status\<rparr>"

definition former_bool :: "former_station \<Rightarrow> bool" where
  "former_bool this \<longleftrightarrow> f_status this = WL_CONNECTED"

definition former_get_status :: "former_station \<Rightarrow> wireless_status" where
  "former_get_status this = f_status this"

definition former_get_address :: "former_station \<Rightarrow> 32 word" where
  "former_get_address this = f_addr this"

definition former_station_event :: "wifi_event \<Rightarrow> former_station \<Rightarrow> former_station" where
  "former_station_event event station = (case event of
       SYSTEM_EVENT_STA_GOT_IP ip \<Rightarrow> former_setAddress ip (former_setStatus WL_CONNECTED station)
     | SYSTEM_EVENT_STA_DISCONNECTED \<Rightarrow> former_setAddress 0 (former_setStatus WL_DISCONNECTED station)
     | _ \<Rightarrow> station)"

section \<open>Programs\<close>

datatype station_use = Connect "byte list" "byte list option" | Notify wifi_event

fun use_former :: "wifi_env \<Rightarrow> station_use \<Rightarrow> (wifi_fault, former_station \<times> wifi_state) step" where
  "use_former E (Connect ssid None) (this, s) = bindr (former_connectTo_open E ssid s) (\<lambda>s. Inr (this, s))"
| "use_former E (Connect ssid (Some pass)) (this, s) = bindr (former_connectTo E ssid pass s) (\<lambda>s. Inr (this, s))"
| "use_former E (Notify e) (this, s) = Inr (former_station_event e this, s)"

fun use_current :: "wifi_env \<Rightarrow> station_use \<Rightarrow> (wifi_fault, wifi_state) step" where
  "use_current E (Connect ssid pass) = connectTo E ssid pass"
| "use_current E (Notify e) = (\<lambda>s. Inr (esp32_wifi_station_event e s))"

text \<open>The state of the successor that corresponds to an object of the former class.\<close>

fun as_current :: "former_station \<times> wifi_state \<Rightarrow> wifi_state" where
  "as_current (this, s) = s\<lparr>sta_status := f_status this, sta_addr := f_addr this\<rparr>"

section \<open>The two classes\<close>

lemma init_station_frame:
  "esp32_wifi_init_station E ssid pass (s\<lparr>sta_status := st, sta_addr := a\<rparr>) =
     map_sum id (\<lambda>t. t\<lparr>sta_status := st, sta_addr := a\<rparr>) (esp32_wifi_init_station E ssid pass s)"
  by (cases "cstrcpy SSID_SIZE ssid"; cases "cstrcpy PASSWORD_SIZE pass")
    (simp_all add: esp32_wifi_init_station_def Let_def call_def wifi_do_def)

lemma station_same_calls:
  "map_sum id as_current (use_former E u x) = use_current E u (as_current x)"
proof (cases u)
  case (Connect ssid pass)
  obtain this s where x: "x = (this, s)" by (cases x)
  show ?thesis
  proof (cases pass)
    case None
    then show ?thesis
      unfolding Connect x
      by (cases "esp32_wifi_init_station E (Some ssid) (Some []) s")
        (simp_all add: former_connectTo_open_def connectTo_def init_station_frame)
  next
    case (Some p)
    then show ?thesis
      unfolding Connect x
      by (cases "esp32_wifi_init_station E (Some ssid) (Some p) s")
        (simp_all add: former_connectTo_def connectTo_def init_station_frame)
  qed
next
  case (Notify e)
  then show ?thesis
    by (cases x; cases e)
      (simp_all add: former_station_event_def esp32_wifi_station_event_def former_setAddress_def
        former_setStatus_def setAddress_def setStatus_def)
qed

lemma station_same_programs:
  "map_sum id as_current (exec (map (use_former E) us) x) = exec (map (use_current E) us) (as_current x)"
proof (induction us arbitrary: x)
  case Nil
  then show ?case by simp
next
  case (Cons u us)
  show ?case
    using station_same_calls [of E u x, symmetric] Cons.IH
    by (cases "use_former E u x") (simp_all del: use_former.simps use_current.simps as_current.simps add: id_def)
qed

text \<open>A program on an object of the former class makes the driver calls the same program makes on the
  successor, fails where it fails, and both answer status, address and \<open>operator bool\<close> alike; the
  name and password members of the former class stay empty.\<close>

lemma former_keeps_names:
  assumes "exec (map (use_former E) us) (this, s) = Inr (this', s')"
  shows "f_ssid this' = f_ssid this \<and> f_password this' = f_password this"
  using assms
proof (induction us arbitrary: this s)
  case Nil
  then show ?case by simp
next
  case (Cons u us)
  obtain this1 s1 where u: "use_former E u (this, s) = Inr (this1, s1)"
    "exec (map (use_former E) us) (this1, s1) = Inr (this', s')"
    using Cons.prems by (auto simp: bindr_eq_Inr_iff simp del: use_former.simps)
  have "f_ssid this1 = f_ssid this \<and> f_password this1 = f_password this"
    using u(1) by (cases "(E, u, (this, s))" rule: use_former.cases)
      (auto simp: bindr_eq_Inr_iff former_station_event_def former_setAddress_def former_setStatus_def split: wifi_event.splits)
  then show ?case using Cons.IH [OF u(2)] by simp
qed

lemma former_station_equiv:
  assumes "former_ctor E s = Inr (this, s1)"
  shows "case exec (map (use_former E) us) (this, s1) of
      Inl e \<Rightarrow> exec (map (use_current E) us) (as_current (this, s1)) = Inl e
    | Inr (this', t) \<Rightarrow> exec (map (use_current E) us) (as_current (this, s1)) = Inr (as_current (this', t))
        \<and> wifi_calls (as_current (this', t)) = wifi_calls t
        \<and> former_bool this' = station_bool (as_current (this', t))
        \<and> former_get_status this' = sta_status (as_current (this', t))
        \<and> former_get_address this' = sta_addr (as_current (this', t))
        \<and> f_ssid this' = [] \<and> f_password this' = []"
proof -
  have "f_ssid this = [] \<and> f_password this = []"
    using assms by (auto simp: former_ctor_def bindr_eq_Inr_iff)
  then show ?thesis
    using station_same_programs [of E us "(this, s1)"] former_keeps_names [of E us this s1]
    by (cases "exec (map (use_former E) us) (this, s1)")
      (auto simp: former_bool_def former_get_status_def former_get_address_def station_bool_def simp del: exec.simps)
qed

end
