(* ===== verification/Pwm.thy ===== *)
theory Pwm
  imports Prelude
begin

text \<open>
  Pulse-width modulation: \<open>PwmChannel\<close> (\<^verbatim>\<open>esp32/esp32pwmchannel.cpp\<close>) and \<open>PwmTimer\<close>
  (\<^verbatim>\<open>esp32/esp32pwmtimer.cpp\<close>).  The calls to the MCPWM driver are recorded; duty cycles are values
  of an arbitrary type.  A read outside the channel map is a fault, and a signal that was never
  assigned is \<open>None\<close>.
\<close>

section \<open>Data\<close>

datatype mcpwm_io_signals_t = MCPWM0A | MCPWM0B | MCPWM1A | MCPWM1B | MCPWM2A | MCPWM2B

datatype mcpwm_operator_t = MCPWM_OPR_A | MCPWM_OPR_B

datatype mcpwm_counter_t = MCPWM_UP_COUNTER

datatype mcpwm_duty_t = MCPWM_DUTY_MODE_0

record 'd mcpwm_config_t =
  cmpr_a :: 'd
  cmpr_b :: 'd
  frequency :: "32 word"
  counter_mode :: mcpwm_counter_t
  duty_mode :: mcpwm_duty_t

datatype 'd mcpwm_call =
    mcpwm_set_frequency nat int "32 word"
  | mcpwm_set_duty nat int mcpwm_operator_t 'd
  | mcpwm_gpio_init nat mcpwm_io_signals_t int
  | mcpwm_init nat int "'d mcpwm_config_t"

record pwm_timer =
  t_unit :: nat
  t_num :: int

record 'd pwm_channel =
  c_timer :: pwm_timer
  c_iopin :: "mcpwm_io_signals_t option"
  c_duty :: 'd
  c_freq_cache :: int

datatype pwm_fault = MapOverrun | ConfigOverrun | NoSignal

definition pwm_channel_map :: "mcpwm_io_signals_t list" where
  "pwm_channel_map = [MCPWM0A, MCPWM0B, MCPWM1A, MCPWM1B, MCPWM2A, MCPWM2B]"

text \<open>\<open>sizeof\<close> counts bytes; an enumeration takes four.\<close>

definition sizeof_channel_map :: nat where
  "sizeof_channel_map = 4 * length pwm_channel_map"

section \<open>Channels\<close>

text \<open>The duty cycle and the frequency cache are members of the base class of the core library: what its
  constructor leaves in them are the arguments \<open>duty\<close> and \<open>cache\<close>.  \<open>_iopin\<close> has no initialiser.\<close>

definition PwmChannel_ctor :: "'d \<Rightarrow> int \<Rightarrow> int \<Rightarrow> pwm_timer \<Rightarrow> pwm_fault + 'd pwm_channel" where
  "PwmChannel_ctor duty cache num timer =
     (let ch = \<lparr>c_timer = timer, c_iopin = None, c_duty = duty, c_freq_cache = cache\<rparr> in
      if unat (of_int num :: 32 word) \<ge> sizeof_channel_map then Inr ch
      else if nat num < length pwm_channel_map
           then Inr (ch\<lparr>c_iopin := Some (pwm_channel_map ! nat num)\<rparr>)
      else Inl MapOverrun)"

definition toOperator :: "'d pwm_channel \<Rightarrow> pwm_fault + mcpwm_operator_t" where
  "toOperator ch = (case c_iopin ch of
       None \<Rightarrow> Inl NoSignal
     | Some io \<Rightarrow> Inr (if io = MCPWM0B \<or> io = MCPWM1B \<or> io = MCPWM2B then MCPWM_OPR_B else MCPWM_OPR_A))"

definition set_duty_call :: "'d pwm_channel \<Rightarrow> mcpwm_operator_t \<Rightarrow> 'd mcpwm_call" where
  "set_duty_call ch op = mcpwm_set_duty (t_unit (c_timer ch)) (t_num (c_timer ch)) op (c_duty ch)"

text \<open>The driver takes the frequency as a \<open>uint32_t\<close>: the \<open>int\<close> that is passed is converted.\<close>

definition pwm_update :: "int \<Rightarrow> 'd pwm_channel \<Rightarrow> pwm_fault + 'd mcpwm_call list" where
  "pwm_update freq ch = bindr (toOperator ch) (\<lambda>op.
     Inr [mcpwm_set_frequency (t_unit (c_timer ch)) (t_num (c_timer ch)) (of_int freq), set_duty_call ch op])"

definition pwm_enable :: "'d pwm_channel \<Rightarrow> pwm_fault + 'd mcpwm_call list" where
  "pwm_enable ch = bindr (toOperator ch) (\<lambda>op. Inr [set_duty_call ch op])"

definition pwm_reload :: "'d pwm_channel \<Rightarrow> pwm_fault + 'd mcpwm_call list" where
  "pwm_reload ch = bindr (toOperator ch) (\<lambda>op.
     Inr ((if c_freq_cache ch > 0
           then [mcpwm_set_frequency (t_unit (c_timer ch)) (t_num (c_timer ch)) (of_int (c_freq_cache ch))] else [])
          @ [set_duty_call ch op]))"

definition pwm_disable :: "'d pwm_channel \<Rightarrow> pwm_fault + 'd mcpwm_call list" where
  "pwm_disable ch = bindr (toOperator ch) (\<lambda>op. Inr [set_duty_call ch op])"

text \<open>\<open>pwm_config\<close> has six entries; \<open>zero\<close> is \<open>0.0f\<close>.\<close>

definition config_index :: "pwm_timer \<Rightarrow> int" where
  "config_index timer = int (t_unit timer) + t_num timer"

definition default_config :: "'d \<Rightarrow> 'd mcpwm_config_t" where
  "default_config zero = \<lparr>cmpr_a = zero, cmpr_b = zero, frequency = 50,
     counter_mode = MCPWM_UP_COUNTER, duty_mode = MCPWM_DUTY_MODE_0\<rparr>"

definition setGpioPin ::
  "'d \<Rightarrow> int \<Rightarrow> 'd pwm_channel \<Rightarrow> 'd mcpwm_config_t list \<Rightarrow> pwm_fault + ('d mcpwm_config_t list \<times> 'd mcpwm_call list)" where
  "setGpioPin zero pin ch configs =
     (let idx = config_index (c_timer ch) in
      if idx < 0 \<or> length configs \<le> nat idx then Inl ConfigOverrun
      else let configs = configs[nat idx := default_config zero] in
        case c_iopin ch of
          None \<Rightarrow> Inl NoSignal
        | Some io \<Rightarrow> Inr (configs, [mcpwm_gpio_init (t_unit (c_timer ch)) io pin,
            mcpwm_init (t_unit (c_timer ch)) (t_num (c_timer ch)) (configs ! nat idx)]))"

section \<open>Timers\<close>

definition PwmTimer_ctor :: "'d \<Rightarrow> int \<Rightarrow> int \<Rightarrow> nat \<Rightarrow> pwm_fault + (pwm_timer \<times> 'd pwm_channel list)" where
  "PwmTimer_ctor duty cache num unit =
     (let timer = \<lparr>t_unit = unit, t_num = num\<rparr>;
          channels = (\<lambda>channel. bindr (PwmChannel_ctor duty cache channel timer) (\<lambda>a.
             bindr (PwmChannel_ctor duty cache (channel + 1) timer) (\<lambda>b. Inr (timer, [a, b]))))
      in if num = 0 then channels 0
         else if num = 1 then channels 2
         else if num = 2 then channels 4
         else Inr (timer, []))"

section \<open>Properties\<close>

lemma length_channel_map [simp]: "length pwm_channel_map = 6"
  by (simp add: pwm_channel_map_def)

lemma sizeof_channel_map [simp]: "sizeof_channel_map = 24"
  by (simp add: sizeof_channel_map_def)

lemma channel_map_nth:
  "pwm_channel_map ! 0 = MCPWM0A" "pwm_channel_map ! 1 = MCPWM0B" "pwm_channel_map ! 2 = MCPWM1A"
  "pwm_channel_map ! Suc 0 = MCPWM0B" "pwm_channel_map ! 3 = MCPWM1B" "pwm_channel_map ! 4 = MCPWM2A" "pwm_channel_map ! 5 = MCPWM2B"
  by (simp_all add: pwm_channel_map_def)

lemma unat_of_int_32: "0 \<le> i \<Longrightarrow> i < 2 ^ 32 \<Longrightarrow> unat (of_int i :: 32 word) = nat i"
  by (simp add: unsigned_of_int take_bit_int_eq_self)

lemma ctor_in_map:
  assumes "0 \<le> num" and "num < 6"
  shows "PwmChannel_ctor duty cache num timer = Inr \<lparr>c_timer = timer, c_iopin = Some (pwm_channel_map ! nat num),
    c_duty = duty, c_freq_cache = cache\<rparr>"
  using assms by (simp add: PwmChannel_ctor_def Let_def unat_of_int_32)

text \<open>A timer 0, 1 or 2 owns exactly two channels, on the two output signals of that timer, the first
  driving operator A and the second operator B; any other timer number owns none.  A channel
  constructed directly with a number from 6 to 23 reads outside the channel map, because its bound
  is the size of the map in bytes.\<close>

lemma pwm_timer_channels:
  "(\<forall>num. (num = 0 \<or> num = 1 \<or> num = 2) \<longrightarrow> (\<exists>timer a b.
      PwmTimer_ctor duty cache num unit = Inr (timer, [a, b]) \<and> t_num timer = num \<and> t_unit timer = unit
      \<and> c_iopin a = Some (pwm_channel_map ! nat (2 * num)) \<and> toOperator a = Inr MCPWM_OPR_A
      \<and> c_iopin b = Some (pwm_channel_map ! nat (2 * num + 1)) \<and> toOperator b = Inr MCPWM_OPR_B))
   \<and> (\<forall>num. num < 0 \<or> 2 < num \<longrightarrow> (\<exists>timer. PwmTimer_ctor duty cache num unit = Inr (timer, [])))
   \<and> (\<forall>num timer. 6 \<le> num \<and> num < 24 \<longrightarrow> PwmChannel_ctor duty cache num timer = Inl MapOverrun)"
proof (intro conjI allI impI)
  fix num :: int
  assume "num = 0 \<or> num = 1 \<or> num = 2"
  then show "\<exists>timer a b.
      PwmTimer_ctor duty cache num unit = Inr (timer, [a, b]) \<and> t_num timer = num \<and> t_unit timer = unit
      \<and> c_iopin a = Some (pwm_channel_map ! nat (2 * num)) \<and> toOperator a = Inr MCPWM_OPR_A
      \<and> c_iopin b = Some (pwm_channel_map ! nat (2 * num + 1)) \<and> toOperator b = Inr MCPWM_OPR_B"
    by (elim disjE) (simp_all add: PwmTimer_ctor_def Let_def ctor_in_map toOperator_def channel_map_nth)
next
  fix num :: int
  assume "num < 0 \<or> 2 < num"
  then show "\<exists>timer. PwmTimer_ctor duty cache num unit = Inr (timer, [])"
    by (auto simp: PwmTimer_ctor_def Let_def)
next
  fix num :: int and timer
  assume "6 \<le> num \<and> num < 24"
  then have "\<not> nat num < 6" "\<not> 24 \<le> nat num" "0 \<le> num" "num < 2 ^ 32" by auto
  then show "PwmChannel_ctor duty cache num timer = Inl MapOverrun"
    by (simp add: PwmChannel_ctor_def Let_def unat_of_int_32)
qed

text \<open>Disabling a channel makes the same driver call as enabling it: the output keeps its duty cycle.  Both
  differ from \<open>reload\<close> only in that a cached frequency is set again first.\<close>

lemma pwm_disable_keeps_output:
  "pwm_disable ch = pwm_enable ch
   \<and> (\<forall>io. c_iopin ch = Some io \<longrightarrow> (\<exists>op. pwm_disable ch = Inr [set_duty_call ch op]
        \<and> pwm_reload ch = Inr ((if c_freq_cache ch > 0
             then [mcpwm_set_frequency (t_unit (c_timer ch)) (t_num (c_timer ch)) (of_int (c_freq_cache ch))] else [])
             @ [set_duty_call ch op])))"
  by (auto simp: pwm_disable_def pwm_enable_def pwm_reload_def toOperator_def)

text \<open>Timers 1 of unit 0 and 0 of unit 1 share an entry of \<open>pwm_config\<close>; since the entry is rewritten
  before it is used, every channel is still initialised with the default configuration.\<close>

lemma setGpioPin_default:
  assumes "length configs = 6" and "t_unit (c_timer ch) < 2" and "0 \<le> t_num (c_timer ch)" and "t_num (c_timer ch) < 3"
    and "c_iopin ch = Some io"
  shows "\<exists>configs'. setGpioPin zero pin ch configs = Inr (configs',
      [mcpwm_gpio_init (t_unit (c_timer ch)) io pin,
       mcpwm_init (t_unit (c_timer ch)) (t_num (c_timer ch)) (default_config zero)]) \<and> length configs' = 6"
  using assms by (auto simp: setGpioPin_def config_index_def Let_def)

lemma config_index_shared: "config_index \<lparr>t_unit = 0, t_num = 1\<rparr> = config_index \<lparr>t_unit = 1, t_num = 0\<rparr>"
  by (simp add: config_index_def)

end
