(* ===== verification/Pwm_Timer.thy ===== *)
theory Pwm_Timer
  imports Pwm
begin

text \<open>
  A PWM timer with its two channels over a whole program (\<^verbatim>\<open>esp32pwmtimer.cpp\<close>, \<^verbatim>\<open>esp32pwmchannel.cpp\<close>):
  what the outputs of the peripheral are after any sequence of calls, as a small machine, and that
  the other timers are not disturbed.
\<close>

section \<open>Programs\<close>

text \<open>A use of one of the two channels (\<open>False\<close> is the first).  \<open>PwmBase\<close> is the base class of the core
  library storing a duty cycle and a frequency.\<close>

datatype 'd pwm_use =
    PwmOn bool | PwmOff bool | PwmReload bool | PwmUpdate bool int | PwmPin bool int | PwmBase bool 'd int

record 'd pwm_run =
  r_first :: "'d pwm_channel"
  r_second :: "'d pwm_channel"
  r_configs :: "'d mcpwm_config_t list"
  r_calls :: "'d mcpwm_call list"

definition chan :: "bool \<Rightarrow> 'd pwm_run \<Rightarrow> 'd pwm_channel" where
  "chan i s = (if i then r_second s else r_first s)"

definition store_base :: "bool \<Rightarrow> 'd \<Rightarrow> int \<Rightarrow> 'd pwm_run \<Rightarrow> 'd pwm_run" where
  "store_base i d k s = (if i then s\<lparr>r_second := (r_second s)\<lparr>c_duty := d, c_freq_cache := k\<rparr>\<rparr>
     else s\<lparr>r_first := (r_first s)\<lparr>c_duty := d, c_freq_cache := k\<rparr>\<rparr>)"

definition made :: "'d pwm_run \<Rightarrow> pwm_fault + 'd mcpwm_call list \<Rightarrow> pwm_fault + 'd pwm_run" where
  "made s r = bindr r (\<lambda>cs. Inr (s\<lparr>r_calls := r_calls s @ cs\<rparr>))"

fun use_pwm :: "'d \<Rightarrow> 'd pwm_use \<Rightarrow> (pwm_fault, 'd pwm_run) step" where
  "use_pwm zero (PwmOn i) s = made s (pwm_enable (chan i s))"
| "use_pwm zero (PwmOff i) s = made s (pwm_disable (chan i s))"
| "use_pwm zero (PwmReload i) s = made s (pwm_reload (chan i s))"
| "use_pwm zero (PwmUpdate i f) s = made s (pwm_update f (chan i s))"
| "use_pwm zero (PwmPin i p) s = bindr (setGpioPin zero p (chan i s) (r_configs s))
     (\<lambda>(configs, cs). Inr (s\<lparr>r_configs := configs, r_calls := r_calls s @ cs\<rparr>))"
| "use_pwm zero (PwmBase i d k) s = Inr (store_base i d k s)"

section \<open>The peripheral\<close>

text \<open>The driver of the SDK and the peripheral behind it, with a state \<open>'s\<close>: what a call does, what each unit,
  timer and operator puts out (as a duty cycle), the frequency of each timer, and the frequencies the
  driver accepts.\<close>

record ('s, 'd) mcpwm =
  drv :: "'d mcpwm_call \<Rightarrow> 's \<Rightarrow> 's"
  outs :: "'s \<Rightarrow> nat \<Rightarrow> int \<Rightarrow> mcpwm_operator_t \<Rightarrow> 'd"
  freqs :: "'s \<Rightarrow> nat \<Rightarrow> int \<Rightarrow> 32 word"
  accepts :: "32 word \<Rightarrow> bool"

text \<open>Two states that agree on every timer but one.\<close>

definition others_same :: "('s, 'd) mcpwm \<Rightarrow> nat \<Rightarrow> int \<Rightarrow> 's \<Rightarrow> 's \<Rightarrow> bool" where
  "others_same V unit num x y \<longleftrightarrow> (\<forall>u n. (u, n) \<noteq> (unit, num) \<longrightarrow> outs V y u n = outs V x u n \<and> freqs V y u n = freqs V x u n)"

text \<open>The documented behaviour: an accepted frequency becomes that of the timer, whose duty cycles stay; a duty
  cycle becomes that of the operator; \<open>mcpwm_init\<close> sets the frequency and both duty cycles from the
  configuration; connecting a pin changes neither; and no call changes another timer.\<close>

definition mcpwm_ok :: "('s, 'd) mcpwm \<Rightarrow> bool" where
  "mcpwm_ok V \<longleftrightarrow>
     (\<forall>u n f x. accepts V f \<longrightarrow>
        (let y = drv V (mcpwm_set_frequency u n f) x
         in freqs V y u n = f \<and> outs V y u n = outs V x u n \<and> others_same V u n x y))
   \<and> (\<forall>u n p d x.
        (let y = drv V (mcpwm_set_duty u n p d) x
         in outs V y u n = (outs V x u n)(p := d) \<and> freqs V y u n = freqs V x u n \<and> others_same V u n x y))
   \<and> (\<forall>u n cfg x. accepts V (mcpwm_config_t.frequency cfg) \<longrightarrow>
        (let y = drv V (mcpwm_init u n cfg) x
         in freqs V y u n = mcpwm_config_t.frequency cfg \<and> outs V y u n MCPWM_OPR_A = cmpr_a cfg
            \<and> outs V y u n MCPWM_OPR_B = cmpr_b cfg \<and> others_same V u n x y))
   \<and> (\<forall>u io pin x. outs V (drv V (mcpwm_gpio_init u io pin) x) = outs V x
        \<and> freqs V (drv V (mcpwm_gpio_init u io pin) x) = freqs V x)"

lemma mcpwm_okD:
  assumes "mcpwm_ok V"
  shows "accepts V f \<Longrightarrow> freqs V (drv V (mcpwm_set_frequency u n f) x) u n = f"
    "accepts V f \<Longrightarrow> outs V (drv V (mcpwm_set_frequency u n f) x) u n = outs V x u n"
    "accepts V f \<Longrightarrow> others_same V u n x (drv V (mcpwm_set_frequency u n f) x)"
    "outs V (drv V (mcpwm_set_duty u n p d) x) u n = (outs V x u n)(p := d)"
    "freqs V (drv V (mcpwm_set_duty u n p d) x) u n = freqs V x u n"
    "others_same V u n x (drv V (mcpwm_set_duty u n p d) x)"
    "accepts V (mcpwm_config_t.frequency cfg) \<Longrightarrow> freqs V (drv V (mcpwm_init u n cfg) x) u n = mcpwm_config_t.frequency cfg"
    "accepts V (mcpwm_config_t.frequency cfg) \<Longrightarrow> outs V (drv V (mcpwm_init u n cfg) x) u n MCPWM_OPR_A = cmpr_a cfg"
    "accepts V (mcpwm_config_t.frequency cfg) \<Longrightarrow> outs V (drv V (mcpwm_init u n cfg) x) u n MCPWM_OPR_B = cmpr_b cfg"
    "accepts V (mcpwm_config_t.frequency cfg) \<Longrightarrow> others_same V u n x (drv V (mcpwm_init u n cfg) x)"
    "outs V (drv V (mcpwm_gpio_init u io pin) x) = outs V x"
    "freqs V (drv V (mcpwm_gpio_init u io pin) x) = freqs V x"
  using assms by (simp_all add: mcpwm_ok_def Let_def)

lemma others_same_refl [simp]: "others_same V u n x x"
  by (simp add: others_same_def)

lemma others_same_trans: "others_same V u n x y \<Longrightarrow> others_same V u n y z \<Longrightarrow> others_same V u n x z"
  by (simp add: others_same_def)

section \<open>The machine\<close>

text \<open>The stored duty cycles and frequencies of the two channels, what they put out and the frequency of the
  timer.  Connecting either channel to a pin stops both outputs and sets the timer to 50 Hz; switching
  a channel off puts out its duty cycle, as switching it on does.\<close>

record 'd pwm_machine =
  m_duty :: "bool \<Rightarrow> 'd"
  m_cache :: "bool \<Rightarrow> int"
  m_out :: "bool \<Rightarrow> 'd"
  m_freq :: "32 word"

definition put_out :: "bool \<Rightarrow> 'd pwm_machine \<Rightarrow> 'd pwm_machine" where
  "put_out i m = m\<lparr>m_out := (m_out m)(i := m_duty m i)\<rparr>"

fun pwm_spec :: "'d \<Rightarrow> 'd pwm_use \<Rightarrow> 'd pwm_machine \<Rightarrow> 'd pwm_machine" where
  "pwm_spec zero (PwmOn i) m = put_out i m"
| "pwm_spec zero (PwmOff i) m = put_out i m"
| "pwm_spec zero (PwmReload i) m = put_out i (if m_cache m i > 0 then m\<lparr>m_freq := of_int (m_cache m i)\<rparr> else m)"
| "pwm_spec zero (PwmUpdate i f) m = put_out i (m\<lparr>m_freq := of_int f\<rparr>)"
| "pwm_spec zero (PwmPin i p) m = m\<lparr>m_out := (\<lambda>_. zero), m_freq := 50\<rparr>"
| "pwm_spec zero (PwmBase i d k) m = m\<lparr>m_duty := (m_duty m)(i := d), m_cache := (m_cache m)(i := k)\<rparr>"

text \<open>The frequencies of a program that reach the driver, as the driver gets them, are ones it accepts.\<close>

definition cache_accepted :: "('s, 'd) mcpwm \<Rightarrow> int \<Rightarrow> bool" where
  "cache_accepted V k \<longleftrightarrow> (k > 0 \<longrightarrow> accepts V (of_int k))"

fun use_accepted :: "('s, 'd) mcpwm \<Rightarrow> 'd pwm_use \<Rightarrow> bool" where
  "use_accepted V (PwmUpdate i f) = accepts V (of_int f)"
| "use_accepted V (PwmBase i d k) = cache_accepted V k"
| "use_accepted V (PwmPin i p) = accepts V 50"
| "use_accepted V u = True"

definition operator_of :: "bool \<Rightarrow> mcpwm_operator_t" where
  "operator_of i = (if i then MCPWM_OPR_B else MCPWM_OPR_A)"

text \<open>The two channels belong to the timer and drive operator A and B.\<close>

definition channel_of :: "pwm_timer \<Rightarrow> bool \<Rightarrow> 'd pwm_channel \<Rightarrow> bool" where
  "channel_of timer i ch \<longleftrightarrow> c_timer ch = timer \<and> c_iopin ch \<noteq> None \<and> toOperator ch = Inr (operator_of i)"

definition machine_of :: "('s, 'd) mcpwm \<Rightarrow> pwm_timer \<Rightarrow> 'd pwm_run \<Rightarrow> 's \<Rightarrow> 'd pwm_machine" where
  "machine_of V timer s x = \<lparr>m_duty = (\<lambda>i. c_duty (chan i s)), m_cache = (\<lambda>i. c_freq_cache (chan i s)),
     m_out = (\<lambda>i. outs V x (t_unit timer) (t_num timer) (operator_of i)), m_freq = freqs V x (t_unit timer) (t_num timer)\<rparr>"

definition run_ok :: "('s, 'd) mcpwm \<Rightarrow> pwm_timer \<Rightarrow> 'd pwm_run \<Rightarrow> bool" where
  "run_ok V timer s \<longleftrightarrow> (\<forall>i. channel_of timer i (chan i s) \<and> cache_accepted V (c_freq_cache (chan i s)))
     \<and> length (r_configs s) = 6 \<and> 0 \<le> config_index timer \<and> config_index timer < 6"

abbreviation undisturbed :: "('s, 'd) mcpwm \<Rightarrow> pwm_timer \<Rightarrow> 's \<Rightarrow> 's \<Rightarrow> bool" where
  "undisturbed V timer \<equiv> others_same V (t_unit timer) (t_num timer)"

text \<open>What a use does to a program's state and, through its driver calls, to the peripheral.\<close>

definition implements :: "('s, 'd) mcpwm \<Rightarrow> pwm_timer \<Rightarrow> 'd \<Rightarrow> 'd pwm_use list \<Rightarrow> 'd pwm_run \<Rightarrow> 'd pwm_run \<Rightarrow> bool" where
  "implements V timer zero us s t \<longleftrightarrow> run_ok V timer t \<and> (\<exists>cs. r_calls t = r_calls s @ cs \<and>
     (\<forall>x. machine_of V timer t (fold (drv V) cs x) = fold (pwm_spec zero) us (machine_of V timer s x)
        \<and> undisturbed V timer x (fold (drv V) cs x)))"

lemma set_duty_acts:
  assumes "mcpwm_ok V" and "channel_of timer i (chan i s)"
  shows "machine_of V timer s (drv V (set_duty_call (chan i s) (operator_of i)) x) = put_out i (machine_of V timer s x)"
    "undisturbed V timer x (drv V (set_duty_call (chan i s) (operator_of i)) x)"
  using assms(2) mcpwm_okD(4-6) [OF assms(1)]
  by (auto simp: channel_of_def set_duty_call_def machine_of_def put_out_def operator_of_def fun_eq_iff)

lemma set_freq_acts:
  assumes "mcpwm_ok V" and "accepts V f"
  shows "machine_of V timer s (drv V (mcpwm_set_frequency (t_unit timer) (t_num timer) f) x) = (machine_of V timer s x)\<lparr>m_freq := f\<rparr>"
    "undisturbed V timer x (drv V (mcpwm_set_frequency (t_unit timer) (t_num timer) f) x)"
  using mcpwm_okD(1-3) [OF assms] by (auto simp: machine_of_def)

lemma pin_acts:
  fixes V :: "('s, 'd) mcpwm"
  assumes "mcpwm_ok V" and "accepts V 50"
  shows "machine_of V timer s (drv V (mcpwm_init (t_unit timer) (t_num timer) (default_config zero)) (drv V (mcpwm_gpio_init u io p) x))
     = (machine_of V timer s x)\<lparr>m_out := (\<lambda>_. zero), m_freq := 50\<rparr>"
    "undisturbed V timer x (drv V (mcpwm_init (t_unit timer) (t_num timer) (default_config zero)) (drv V (mcpwm_gpio_init u io p) x))"
proof -
  have a: "accepts V (mcpwm_config_t.frequency (default_config zero :: 'd mcpwm_config_t))" using assms(2) by (simp add: default_config_def)
  note init = mcpwm_okD(7-10) [OF assms(1) a]
  show "machine_of V timer s (drv V (mcpwm_init (t_unit timer) (t_num timer) (default_config zero)) (drv V (mcpwm_gpio_init u io p) x))
     = (machine_of V timer s x)\<lparr>m_out := (\<lambda>_. zero), m_freq := 50\<rparr>"
    using init(1-3) by (auto simp: machine_of_def operator_of_def fun_eq_iff) (simp_all add: default_config_def)
  have "undisturbed V timer x (drv V (mcpwm_gpio_init u io p) x)"
    using mcpwm_okD(11,12) [OF assms(1)] by (simp add: others_same_def)
  then show "undisturbed V timer x (drv V (mcpwm_init (t_unit timer) (t_num timer) (default_config zero)) (drv V (mcpwm_gpio_init u io p) x))"
    by (rule others_same_trans) (rule init(4))
qed

lemma run_okD:
  assumes "run_ok V timer s"
  shows "channel_of timer i (chan i s)" "toOperator (chan i s) = Inr (operator_of i)" "c_timer (chan i s) = timer"
    "length (r_configs s) = 6" "0 \<le> config_index timer" "nat (config_index timer) < 6"
    "\<exists>io. c_iopin (chan i s) = Some io" "cache_accepted V (c_freq_cache (chan i s))"
  using assms by (auto simp: run_ok_def channel_of_def)

lemma chan_simps [simp]: "chan i (s\<lparr>r_calls := cs\<rparr>) = chan i s" "chan i (s\<lparr>r_configs := cfg\<rparr>) = chan i s"
  by (simp_all add: chan_def)

lemma machine_calls [simp]: "machine_of V timer (s\<lparr>r_calls := cs\<rparr>) x = machine_of V timer s x"
    "machine_of V timer (s\<lparr>r_configs := cfg\<rparr>) x = machine_of V timer s x"
  by (simp_all add: machine_of_def)

lemma run_ok_calls [simp]: "run_ok V timer (s\<lparr>r_calls := cs\<rparr>) = run_ok V timer s"
    "length cfg = 6 \<Longrightarrow> length (r_configs s) = 6 \<Longrightarrow> run_ok V timer (s\<lparr>r_configs := cfg\<rparr>) = run_ok V timer s"
  by (simp_all add: run_ok_def)

lemma made_implements:
  assumes "run_ok V timer s"
    and "\<And>x. machine_of V timer s (fold (drv V) cs x) = pwm_spec zero u (machine_of V timer s x)"
    and "\<And>x. undisturbed V timer x (fold (drv V) cs x)"
  shows "\<exists>t. made s (Inr cs) = Inr t \<and> implements V timer zero [u] s t"
  using assms by (simp add: made_def implements_def)

lemma use_implements:
  assumes ok: "mcpwm_ok V" and "run_ok V timer s" and "use_accepted V u"
  shows "\<exists>t. use_pwm zero u s = Inr t \<and> implements V timer zero [u] s t"
proof -
  note D = run_okD [OF assms(2)]
  have duty: "machine_of V timer s (drv V (set_duty_call (chan i s) (operator_of i)) x) = put_out i (machine_of V timer s x)"
    "undisturbed V timer x (drv V (set_duty_call (chan i s) (operator_of i)) x)" for i x
    using set_duty_acts [OF ok D(1)] by blast+
  have on: "\<exists>t. made s (Inr [set_duty_call (chan i s) (operator_of i)]) = Inr t \<and> implements V timer zero [u] s t"
    if "\<And>x. pwm_spec zero u (machine_of V timer s x) = put_out i (machine_of V timer s x)" for i u
    by (rule made_implements [OF assms(2)]) (simp_all add: duty that)
  have freq: "\<exists>t. made s (Inr [mcpwm_set_frequency (t_unit timer) (t_num timer) f, set_duty_call (chan i s) (operator_of i)]) = Inr t
      \<and> implements V timer zero [u] s t"
    if "accepts V f" and "\<And>x. pwm_spec zero u (machine_of V timer s x) = put_out i ((machine_of V timer s x)\<lparr>m_freq := f\<rparr>)" for i f u
  proof (rule made_implements [OF assms(2)])
    note set = set_freq_acts [OF ok that(1), of timer]
    show "machine_of V timer s (fold (drv V) [mcpwm_set_frequency (t_unit timer) (t_num timer) f, set_duty_call (chan i s) (operator_of i)] x)
        = pwm_spec zero u (machine_of V timer s x)" for x
      by (simp add: duty(1) set(1) that(2))
    show "undisturbed V timer x (fold (drv V) [mcpwm_set_frequency (t_unit timer) (t_num timer) f, set_duty_call (chan i s) (operator_of i)] x)" for x
      using others_same_trans [OF set(2) duty(2)] by simp
  qed
  have cache: "m_cache (machine_of V timer s x) i = c_freq_cache (chan i s)" for x i by (simp add: machine_of_def)
  show ?thesis
  proof (cases u)
    case (PwmOn i)
    then show ?thesis using on by (simp add: pwm_enable_def D)
  next
    case (PwmOff i)
    then show ?thesis using on by (simp add: pwm_disable_def D)
  next
    case (PwmReload i)
    show ?thesis
    proof (cases "c_freq_cache (chan i s) > 0")
      case True
      then have "accepts V (of_int (c_freq_cache (chan i s)))" using D(8) by (simp add: cache_accepted_def)
      with True show ?thesis
        using freq [where u = u and i = i] by (simp add: PwmReload pwm_reload_def D cache)
    next
      case False
      then show ?thesis using on [where u = u and i = i] by (simp add: PwmReload pwm_reload_def D cache)
    qed
  next
    case (PwmUpdate i f)
    then show ?thesis
      using freq [where u = u and i = i and f = "of_int f"] assms(3) by (simp add: pwm_update_def D)
  next
    case (PwmPin i p)
    obtain io where io: "c_iopin (chan i s) = Some io" using D(7) by blast
    let ?cfg = "(r_configs s)[nat (config_index timer) := default_config zero]"
    let ?cs = "[mcpwm_gpio_init (t_unit timer) io p, mcpwm_init (t_unit timer) (t_num timer) (default_config zero)]"
    have "use_pwm zero u s = Inr (s\<lparr>r_configs := ?cfg, r_calls := r_calls s @ ?cs\<rparr>)"
      using D(4,5,6) by (simp add: PwmPin setGpioPin_def io D(3) Let_def)
    then show ?thesis
      using assms(2,3) D(4) pin_acts [OF ok] by (auto simp: implements_def PwmPin)
  next
    case (PwmBase i d k)
    have "channel_of timer j (chan j (store_base i d k s)) = channel_of timer j (chan j s)" for j
      by (cases i; cases j) (simp_all add: channel_of_def chan_def store_base_def toOperator_def)
    moreover have "c_freq_cache (chan j (store_base i d k s)) = (if j = i then k else c_freq_cache (chan j s))" for j
      by (cases i; cases j) (simp_all add: chan_def store_base_def)
    moreover have "r_configs (store_base i d k s) = r_configs s" by (simp add: store_base_def)
    ultimately have "run_ok V timer (store_base i d k s)"
      using assms(2,3) by (simp add: run_ok_def PwmBase)
    moreover have "machine_of V timer (store_base i d k s) x = pwm_spec zero u (machine_of V timer s x)" for x
      by (auto simp: PwmBase machine_of_def chan_def store_base_def fun_eq_iff)
    ultimately show ?thesis by (simp add: PwmBase implements_def store_base_def)
  qed
qed

lemma implements_trans:
  assumes "implements V timer zero us s t" and "implements V timer zero vs t v"
  shows "implements V timer zero (us @ vs) s v"
proof -
  obtain cs where cs: "r_calls t = r_calls s @ cs"
    "\<forall>x. machine_of V timer t (fold (drv V) cs x) = fold (pwm_spec zero) us (machine_of V timer s x)
       \<and> undisturbed V timer x (fold (drv V) cs x)"
    using assms(1) by (auto simp: implements_def)
  obtain ds where ds: "r_calls v = r_calls t @ ds"
    "\<forall>x. machine_of V timer v (fold (drv V) ds x) = fold (pwm_spec zero) vs (machine_of V timer t x)
       \<and> undisturbed V timer x (fold (drv V) ds x)"
    using assms(2) by (auto simp: implements_def)
  have "undisturbed V timer x (fold (drv V) ds (fold (drv V) cs x))" for x
    using others_same_trans cs(2) ds(2) by metis
  then show ?thesis
    using assms(2) cs ds unfolding implements_def by (intro conjI exI [of _ "cs @ ds"]) simp_all
qed

lemma uses_implement:
  assumes "mcpwm_ok V" and "run_ok V timer s" and "\<forall>u \<in> set us. use_accepted V u"
  shows "\<exists>t. exec (map (use_pwm zero) us) s = Inr t \<and> implements V timer zero us s t"
  using assms(2,3)
proof (induction us arbitrary: s)
  case Nil
  then show ?case by (simp add: implements_def)
next
  case (Cons u us)
  obtain t where t: "use_pwm zero u s = Inr t" "implements V timer zero [u] s t"
    using use_implements [OF assms(1) Cons.prems(1)] Cons.prems(2) by fastforce
  have "run_ok V timer t" using t(2) by (simp add: implements_def)
  then obtain v where "exec (map (use_pwm zero) us) t = Inr v" "implements V timer zero us t v"
    using Cons.IH Cons.prems(2) by fastforce
  then show ?case using t implements_trans [OF t(2)] by fastforce
qed

section \<open>A timer\<close>

text \<open>Property C31. A timer's two outputs over a whole program, on a driver that behaves as documented: constructed
  for unit 0 or 1 with number 0, 1 or 2, and used in any way (connecting pins, switching on and off,
  reloading, changing duty cycles and frequencies) with frequencies that the driver accepts once they
  are converted to its unsigned 32-bit parameter (and 50 Hz, when a pin is connected), its channels never read an unset signal or leave the
  configuration table, operators A and B put out what the machine says, and no other timer of either
  unit is disturbed.  By the machine, \<open>disable\<close> puts out the duty cycle just as \<open>enable\<close> does, and
  connecting one channel to a pin also stops the other channel and resets the frequency of the timer.\<close>

theorem pwm_timer_machine:
  assumes "mcpwm_ok V" and "\<forall>u \<in> set us. use_accepted V u" and "cache_accepted V cache"
    and "PwmTimer_ctor duty cache num unit = Inr (timer, [a, b])" and "num \<in> {0, 1, 2}" and "unit < 2"
    and "length configs = 6"
  shows "\<exists>t. exec (map (use_pwm zero) us) \<lparr>r_first = a, r_second = b, r_configs = configs, r_calls = []\<rparr> = Inr t
    \<and> (let y = fold (drv V) (r_calls t) x;
           m = fold (pwm_spec zero) us \<lparr>m_duty = (\<lambda>_. duty), m_cache = (\<lambda>_. cache),
             m_out = (\<lambda>i. outs V x unit num (if i then MCPWM_OPR_B else MCPWM_OPR_A)), m_freq = freqs V x unit num\<rparr>
       in outs V y unit num MCPWM_OPR_A = m_out m False \<and> outs V y unit num MCPWM_OPR_B = m_out m True
          \<and> freqs V y unit num = m_freq m
          \<and> (\<forall>u n. (u, n) \<noteq> (unit, num) \<longrightarrow> outs V y u n = outs V x u n \<and> freqs V y u n = freqs V x u n))"
proof -
  let ?s = "\<lparr>r_first = a, r_second = b, r_configs = configs, r_calls = []\<rparr>"
  have ab: "timer = \<lparr>t_unit = unit, t_num = num\<rparr>" "channel_of timer False a" "channel_of timer True b"
    "c_duty a = duty" "c_duty b = duty" "c_freq_cache a = cache" "c_freq_cache b = cache"
    using assms(4,5)
    by (auto simp: PwmTimer_ctor_def Let_def ctor_in_map channel_of_def toOperator_def channel_map_nth operator_of_def)
  have ok: "run_ok V timer ?s"
    using ab assms(3,5-7) by (auto simp: run_ok_def chan_def config_index_def)
  obtain t where t: "exec (map (use_pwm zero) us) ?s = Inr t" "implements V timer zero us ?s t"
    using uses_implement [OF assms(1) ok assms(2)] by blast
  then obtain cs where cs: "r_calls t = cs" "machine_of V timer t (fold (drv V) cs x) = fold (pwm_spec zero) us (machine_of V timer ?s x)"
    "undisturbed V timer x (fold (drv V) cs x)"
    by (auto simp: implements_def)
  have m: "machine_of V timer ?s x = \<lparr>m_duty = (\<lambda>_. duty), m_cache = (\<lambda>_. cache),
       m_out = (\<lambda>i. outs V x unit num (if i then MCPWM_OPR_B else MCPWM_OPR_A)), m_freq = freqs V x unit num\<rparr>"
    using ab by (simp add: machine_of_def chan_def operator_of_def if_distrib fun_eq_iff)
  have "m_out (machine_of V timer t (fold (drv V) cs x)) i = outs V (fold (drv V) cs x) unit num (operator_of i)"
    "m_freq (machine_of V timer t (fold (drv V) cs x)) = freqs V (fold (drv V) cs x) unit num" for i
    using ab(1) by (simp_all add: machine_of_def)
  from this(1) [of False] this(1) [of True] this(2) show ?thesis
    using t(1) cs ab(1) unfolding cs(2) m by (auto simp: Let_def others_same_def operator_of_def)
qed

text \<open>A driver that keeps a table, refuses the frequency zero and those above 10 MHz, and then does nothing.\<close>

definition accepted_10MHz :: "32 word \<Rightarrow> bool" where
  "accepted_10MHz f \<longleftrightarrow> 0 < f \<and> f \<le> 10000000"

fun table_call :: "'d mcpwm_call \<Rightarrow> (nat \<Rightarrow> int \<Rightarrow> mcpwm_operator_t \<Rightarrow> 'd) \<times> (nat \<Rightarrow> int \<Rightarrow> 32 word)
    \<Rightarrow> (nat \<Rightarrow> int \<Rightarrow> mcpwm_operator_t \<Rightarrow> 'd) \<times> (nat \<Rightarrow> int \<Rightarrow> 32 word)" where
  "table_call (mcpwm_set_frequency u n f) (d, q) = (if accepted_10MHz f then (d, q(u := (q u)(n := f))) else (d, q))"
| "table_call (mcpwm_set_duty u n p v) (d, q) = (d(u := (d u)(n := (d u n)(p := v))), q)"
| "table_call (mcpwm_gpio_init u io p) (d, q) = (d, q)"
| "table_call (mcpwm_init u n cfg) (d, q) = (if accepted_10MHz (mcpwm_config_t.frequency cfg)
     then (d(u := (d u)(n := (\<lambda>p. case p of MCPWM_OPR_A \<Rightarrow> cmpr_a cfg | MCPWM_OPR_B \<Rightarrow> cmpr_b cfg))),
           q(u := (q u)(n := mcpwm_config_t.frequency cfg)))
     else (d, q))"

definition table_mcpwm :: "((nat \<Rightarrow> int \<Rightarrow> mcpwm_operator_t \<Rightarrow> 'd) \<times> (nat \<Rightarrow> int \<Rightarrow> 32 word), 'd) mcpwm" where
  "table_mcpwm = \<lparr>drv = table_call, outs = fst, freqs = snd, accepts = accepted_10MHz\<rparr>"

lemma table_mcpwm_ok: "mcpwm_ok table_mcpwm"
  by (auto simp: mcpwm_ok_def table_mcpwm_def others_same_def Let_def)

lemma pwm_timer_machine_witness:
  "\<exists>timer a b t. PwmTimer_ctor (0 :: nat) (- 1) 1 0 = Inr (timer, [a, b])
     \<and> exec (map (use_pwm 0) [PwmPin False 4, PwmBase False 30 1000, PwmReload False, PwmOff False, PwmBase True 70 0,
          PwmOn True, PwmPin True 5, PwmOff True]) \<lparr>r_first = a, r_second = b, r_configs = replicate 6 (default_config 0), r_calls = []\<rparr> = Inr t
     \<and> (let y = fold (drv table_mcpwm) (r_calls t) ((\<lambda>_ _ _. 99), (\<lambda>_ _. 1))
        in outs table_mcpwm y 0 1 MCPWM_OPR_A = 0 \<and> outs table_mcpwm y 0 1 MCPWM_OPR_B = 70
           \<and> freqs table_mcpwm y 0 1 = 50 \<and> outs table_mcpwm y 1 0 MCPWM_OPR_A = 99)"
proof -
  let ?us = "[PwmPin False 4, PwmBase False 30 1000, PwmReload False, PwmOff False, PwmBase True 70 0,
          PwmOn True, PwmPin True 5, PwmOff True] :: nat pwm_use list"
  obtain timer a b where ctor: "PwmTimer_ctor (0 :: nat) (- 1) 1 0 = Inr (timer, [a, b])"
    by (simp add: PwmTimer_ctor_def Let_def ctor_in_map)
  have "\<forall>u \<in> set ?us. use_accepted table_mcpwm u" "cache_accepted table_mcpwm (- 1)"
    by (simp_all add: table_mcpwm_def cache_accepted_def accepted_10MHz_def)
  note p = pwm_timer_machine [OF table_mcpwm_ok this ctor]
  have "(1 :: int) \<in> {0, 1, 2}" "(0 :: nat) < 2" "length (replicate 6 (default_config (0 :: nat))) = 6" by simp_all
  from p [OF this, of 0 "((\<lambda>_ _ _. 99), (\<lambda>_ _. 1))"]
  show ?thesis using ctor by (auto simp: Let_def put_out_def table_mcpwm_def simp del: exec.simps list.map)
qed

end
