(* ===== verification/Analog.thy ===== *)
theory Analog
  imports Prelude
begin

text \<open>
  The converters: \<open>AdcChip\<close> (\<^verbatim>\<open>esp32/esp32adcchip.cpp\<close>), which joins the primary and the secondary
  converter (\<^verbatim>\<open>esp32/esp32primaryadc.cpp\<close>, \<^verbatim>\<open>esp32/esp32secondaryadc.cpp\<close>) into one range of pins, and
  \<open>DacChip\<close> (\<^verbatim>\<open>esp32/esp32dacchip.cpp\<close>).  Every operation gives the driver calls it makes, in order.
  The driver's answers, and the scaling of the base classes of the core library, are parameters.
\<close>

section \<open>Analog to digital\<close>

datatype adc_call =
    adc_power_on
  | adc1_config_width nat
  | adc1_config_channel_atten int
  | adc2_config_channel_atten int
  | adc1_get_raw int
  | adc2_get_raw int

text \<open>\<open>raw1\<close> and \<open>raw2\<close> are what the driver reads on a channel (\<open>raw2\<close> with an error code), and the channel
  counts are constants of the driver.  The base class belongs to the core library: \<open>base_ctor\<close> makes a
  base object of type \<open>'b\<close> from the number of pins, the supply voltage and the resolution, and
  \<open>base_pins\<close> and \<open>toVoltage\<close> are its methods.\<close>

record 'b adc_env =
  raw1 :: "int \<Rightarrow> int"
  raw2 :: "int \<Rightarrow> int \<times> int"
  base_ctor :: "int \<Rightarrow> nat \<Rightarrow> nat \<Rightarrow> 'b"
  base_pins :: "'b \<Rightarrow> int"
  toVoltage :: "'b \<Rightarrow> int \<Rightarrow> nat"
  ADC1_CHANNEL_MAX :: nat
  ADC2_CHANNEL_MAX :: nat

definition ADC1_PINS :: int where "ADC1_PINS = 8"
definition ADC2_START_PIN :: int where "ADC2_START_PIN = ADC1_PINS"

text \<open>\<open>PrimaryAdc\<close> and \<open>SecondaryAdc\<close> add nothing to their base object.\<close>

definition PrimaryAdc_ctor :: "'b adc_env \<Rightarrow> 'b" where
  "PrimaryAdc_ctor E = base_ctor E 8 3300 4095"

definition PrimaryAdc_begin :: "'b adc_env \<Rightarrow> adc_call list" where
  "PrimaryAdc_begin E = adc1_config_width 12
     # map (\<lambda>i. adc1_config_channel_atten (int i)) [0..<ADC1_CHANNEL_MAX E]"

definition PrimaryAdc_read :: "'b adc_env \<Rightarrow> 'b \<Rightarrow> int \<Rightarrow> nat \<times> adc_call list" where
  "PrimaryAdc_read E this pin =
     (let raw = raw1 E pin in (if raw < 0 then 0 else toVoltage E this raw, [adc1_get_raw pin]))"

definition SecondaryAdc_ctor :: "'b adc_env \<Rightarrow> 'b" where
  "SecondaryAdc_ctor E = base_ctor E 10 3300 4095"

definition SecondaryAdc_begin :: "'b adc_env \<Rightarrow> adc_call list" where
  "SecondaryAdc_begin E = map (\<lambda>i. adc2_config_channel_atten (int i)) [0..<ADC2_CHANNEL_MAX E]"

definition SecondaryAdc_read :: "'b adc_env \<Rightarrow> 'b \<Rightarrow> int \<Rightarrow> nat \<times> adc_call list" where
  "SecondaryAdc_read E this pin =
     (case raw2 E pin of (status, readvalue) \<Rightarrow>
        (if status \<noteq> 0 then 0 else toVoltage E this readvalue, [adc2_get_raw pin]))"

record 'b adc_chip =
  chip_base :: 'b
  primary :: 'b
  secondary :: 'b

definition AdcChip_ctor :: "'b adc_env \<Rightarrow> 'b adc_chip" where
  "AdcChip_ctor E = \<lparr>chip_base = base_ctor E 18 3300 4095, primary = PrimaryAdc_ctor E, secondary = SecondaryAdc_ctor E\<rparr>"

definition AdcChip_begin :: "'b adc_env \<Rightarrow> 'b adc_chip \<Rightarrow> adc_call list" where
  "AdcChip_begin E this = adc_power_on # PrimaryAdc_begin E @ SecondaryAdc_begin E"

definition AdcChip_read :: "'b adc_env \<Rightarrow> 'b adc_chip \<Rightarrow> int \<Rightarrow> nat \<times> adc_call list" where
  "AdcChip_read E this pin =
     (if pin \<ge> base_pins E (chip_base this) then (0, [])
      else if pin \<ge> ADC2_START_PIN then SecondaryAdc_read E (secondary this) (pin - ADC2_START_PIN)
      else PrimaryAdc_read E (primary this) pin)"

text \<open>The calls that \<open>begin\<close> must have made before a channel is read.\<close>

fun channel_setup :: "adc_call \<Rightarrow> adc_call set" where
  "channel_setup (adc1_get_raw c) = {adc_power_on, adc1_config_width 12, adc1_config_channel_atten c}"
| "channel_setup (adc2_get_raw c) = {adc_power_on, adc2_config_channel_atten c}"
| "channel_setup c = {}"

lemmas adc_defs = AdcChip_begin_def AdcChip_read_def PrimaryAdc_begin_def PrimaryAdc_read_def
  SecondaryAdc_begin_def SecondaryAdc_read_def ADC1_PINS_def ADC2_START_PIN_def

lemmas adc_ctor_defs = AdcChip_ctor_def PrimaryAdc_ctor_def SecondaryAdc_ctor_def

lemma mem_channels: "f (int i) \<in> (\<lambda>i. f (int i)) ` {0..<k}" if "i < k" for i k :: nat
  using that by auto

lemma channel_in: "0 \<le> c \<Longrightarrow> c < int k \<Longrightarrow> f c \<in> (\<lambda>i. f (int i)) ` {0..<k}"
  using mem_channels [of "nat c" k f] by simp

text \<open>Property C29. The pins of the ADC chip as it is constructed, for a driver with eight and ten channels and a base
  class whose \<open>pins\<close> is the number given to its constructor: reading one of the pins 0 to 17 makes
  exactly one driver call, on a channel of its own that \<open>begin\<close> has powered and configured, and gives
  the value scaled by the converter it belongs to, or zero on a driver error; a pin from 18 gives zero
  without touching the driver.  A negative pin passes both tests: the driver is asked for a channel
  with that negative number, which \<open>begin\<close> has not configured, and its answer is returned.\<close>

theorem adc_pins_have_channels:
  assumes "\<forall>p v m. base_pins E (base_ctor E p v m) = p" and "ADC1_CHANNEL_MAX E = 8" and "ADC2_CHANNEL_MAX E = 10"
    and "this = AdcChip_ctor E"
  shows "(\<forall>pin. 0 \<le> pin \<and> pin < 18 \<longrightarrow> (\<exists>c. snd (AdcChip_read E this pin) = [c]
        \<and> channel_setup c \<noteq> {} \<and> channel_setup c \<subseteq> set (AdcChip_begin E this)
        \<and> fst (AdcChip_read E this pin) =
            (if pin < 8 then (if raw1 E pin < 0 then 0 else toVoltage E (base_ctor E 8 3300 4095) (raw1 E pin))
             else (if fst (raw2 E (pin - 8)) \<noteq> 0 then 0 else toVoltage E (base_ctor E 10 3300 4095) (snd (raw2 E (pin - 8)))))))
    \<and> inj_on (\<lambda>pin. snd (AdcChip_read E this pin)) {0..<18}
    \<and> (\<forall>pin \<ge> 18. AdcChip_read E this pin = (0, []))
    \<and> (\<forall>pin < 0. AdcChip_read E this pin =
            (if raw1 E pin < 0 then 0 else toVoltage E (base_ctor E 8 3300 4095) (raw1 E pin), [adc1_get_raw pin])
          \<and> \<not> channel_setup (adc1_get_raw pin) \<subseteq> set (AdcChip_begin E this))"
proof (intro conjI allI impI)
  have top: "base_pins E (chip_base this) = 18" using assms(1,4) by (simp add: adc_ctor_defs)
  have parts: "primary this = base_ctor E 8 3300 4095" "secondary this = base_ctor E 10 3300 4095"
    using assms(4) by (simp_all add: adc_ctor_defs)
  show "inj_on (\<lambda>pin. snd (AdcChip_read E this pin)) {0..<18}"
    using top by (auto simp: inj_on_def adc_defs Let_def split_def split: if_splits)
  fix pin :: int
  show "AdcChip_read E this pin = (0, [])" if "18 \<le> pin" using that top by (simp add: adc_defs)
  show "AdcChip_read E this pin =
      (if raw1 E pin < 0 then 0 else toVoltage E (base_ctor E 8 3300 4095) (raw1 E pin), [adc1_get_raw pin])" if "pin < 0"
    using that top parts by (simp add: adc_defs Let_def)
  show "\<not> channel_setup (adc1_get_raw pin) \<subseteq> set (AdcChip_begin E this)" if "pin < 0"
    using that by (auto simp: adc_defs)
  assume pin: "0 \<le> pin \<and> pin < 18"
  show "\<exists>c. snd (AdcChip_read E this pin) = [c] \<and> channel_setup c \<noteq> {} \<and> channel_setup c \<subseteq> set (AdcChip_begin E this)
      \<and> fst (AdcChip_read E this pin) =
          (if pin < 8 then (if raw1 E pin < 0 then 0 else toVoltage E (base_ctor E 8 3300 4095) (raw1 E pin))
           else (if fst (raw2 E (pin - 8)) \<noteq> 0 then 0 else toVoltage E (base_ctor E 10 3300 4095) (snd (raw2 E (pin - 8)))))"
  proof (cases "pin < 8")
    case True
    with pin have "adc1_config_channel_atten pin \<in> set (AdcChip_begin E this)"
      using channel_in [of pin 8 adc1_config_channel_atten] assms(2) by (simp add: adc_defs)
    with True pin assms(2,3) top parts show ?thesis by (simp add: adc_defs Let_def)
  next
    case False
    with pin have "adc2_config_channel_atten (pin - 8) \<in> set (AdcChip_begin E this)"
      using channel_in [of "pin - 8" 10 adc2_config_channel_atten] assms(3) by (simp add: adc_defs)
    with False pin assms(2,3) top parts show ?thesis by (simp add: adc_defs split_def)
  qed
qed

text \<open>A base class that keeps its three arguments and scales linearly.\<close>

definition demo_adc :: "(int \<times> nat \<times> nat) adc_env" where
  "demo_adc = \<lparr>raw1 = (\<lambda>c. 100 + c), raw2 = (\<lambda>c. (if c = 3 then 1 else 0, 200 + c)),
     base_ctor = (\<lambda>p v m. (p, v, m)), base_pins = fst, toVoltage = (\<lambda>(p, v, m) raw. nat raw * v div m),
     ADC1_CHANNEL_MAX = 8, ADC2_CHANNEL_MAX = 10\<rparr>"

lemma adc_pins_have_channels_witness:
  "fst (AdcChip_read demo_adc (AdcChip_ctor demo_adc) 7) = 86 \<and> fst (AdcChip_read demo_adc (AdcChip_ctor demo_adc) 8) = 161
   \<and> fst (AdcChip_read demo_adc (AdcChip_ctor demo_adc) 11) = 0 \<and> AdcChip_read demo_adc (AdcChip_ctor demo_adc) 18 = (0, [])
   \<and> AdcChip_read demo_adc (AdcChip_ctor demo_adc) (- 1) = (79, [adc1_get_raw (- 1)])"
proof -
  have d: "\<forall>p v m. base_pins demo_adc (base_ctor demo_adc p v m) = p" "ADC1_CHANNEL_MAX demo_adc = 8" "ADC2_CHANNEL_MAX demo_adc = 10"
    by (simp_all add: demo_adc_def)
  note p = adc_pins_have_channels [OF d refl]
  have v: "fst (AdcChip_read demo_adc (AdcChip_ctor demo_adc) 7) = 86" "fst (AdcChip_read demo_adc (AdcChip_ctor demo_adc) 8) = 161"
    "fst (AdcChip_read demo_adc (AdcChip_ctor demo_adc) 11) = 0"
    using p [THEN conjunct1, THEN spec, of 7] p [THEN conjunct1, THEN spec, of 8] p [THEN conjunct1, THEN spec, of 11]
    by (simp_all add: demo_adc_def) auto
  have "AdcChip_read demo_adc (AdcChip_ctor demo_adc) (- 1) = (79, [adc1_get_raw (- 1)])"
    using p [THEN conjunct2, THEN conjunct2, THEN conjunct2, THEN spec, of "- 1"] by (simp add: demo_adc_def)
  with v p show ?thesis by simp
qed

section \<open>Digital to analog\<close>

datatype dac_call = dac_output_enable int | dac_output_disable int | dac_output_voltage int nat

text \<open>\<open>zero_pin\<close> and \<open>map_voltage\<close> are members of the base class of the core library.\<close>

record dac_chip =
  zero_pin :: bool
  map_voltage :: "nat \<Rightarrow> nat"

definition DacChip_enable :: "dac_chip \<Rightarrow> int \<Rightarrow> dac_call list" where
  "DacChip_enable this pin = (let pin = (if \<not> zero_pin this then pin + 1 else pin) in [dac_output_enable pin])"

definition DacChip_disable :: "dac_chip \<Rightarrow> int \<Rightarrow> dac_call list" where
  "DacChip_disable this pin = (let pin = (if \<not> zero_pin this then pin + 1 else pin) in [dac_output_disable pin])"

definition DacChip_write :: "dac_chip \<Rightarrow> int \<Rightarrow> nat \<Rightarrow> dac_call list" where
  "DacChip_write this pin voltage =
     (let mapped = map_voltage this voltage; pin = (if \<not> zero_pin this then pin + 1 else pin)
      in [dac_output_voltage pin mapped])"

fun dac_channel :: "dac_call \<Rightarrow> int" where
  "dac_channel (dac_output_enable c) = c"
| "dac_channel (dac_output_disable c) = c"
| "dac_channel (dac_output_voltage c v) = c"

lemma dac_same_channel:
  "map dac_channel (DacChip_enable this pin) = map dac_channel (DacChip_write this pin v)"
  "map dac_channel (DacChip_disable this pin) = map dac_channel (DacChip_write this pin v)"
  by (simp_all add: DacChip_enable_def DacChip_disable_def DacChip_write_def Let_def)

end
