(* ===== verification/Uart.thy ===== *)
theory Uart
  imports Prelude
begin

text \<open>
  The serial port, \<^verbatim>\<open>esp32/esp32uart.cpp\<close>.  The pins are members of the base class of the core library,
  constructed with \<open>0, 0\<close>; \<open>_setup\<close> is a plain structure without initialiser, so that a member the
  constructor does not assign keeps the memory's contents (\<open>junk\<close>).  The SDK driver and everything
  behind it is a parameter, a state \<open>'u\<close> with the three driver functions on it.
\<close>

datatype uart_word_length = UART_DATA_7_BITS | UART_DATA_8_BITS | UART_DATA_other nat

record uart_config =
  data_bits :: uart_word_length
  baud_rate :: int
  stop_bits_1 :: bool
  parity_disable :: bool
  hw_flowctrl_disable :: bool
  rx_flow_ctrl_thresh :: nat

datatype uart_call =
    uart_param_config int uart_config
  | uart_set_pin int nat nat
  | uart_driver_install int nat nat
  | uart_driver_delete int

record uart =
  uart_num :: int
  uart_tx :: nat
  uart_rx :: nat
  uart_setup :: uart_config

text \<open>Constants of the SDK and of the core library, and the driver: \<open>uart_write_bytes\<close> with its result,
  \<open>uart_read_bytes\<close> with \<open>portMAX_DELAY\<close>, where \<open>None\<close> stands for waiting for ever, with its result and
  the bytes it stores, and \<open>uart_get_buffered_data_len\<close>.\<close>

record 'u uart_env =
  SERIAL_7N1 :: "32 word"
  SERIAL_8N1 :: "32 word"
  UART_FIFO_LEN :: nat
  uart_write_bytes :: "int \<Rightarrow> byte list \<Rightarrow> 'u \<Rightarrow> int \<times> 'u"
  uart_read_bytes :: "int \<Rightarrow> nat \<Rightarrow> 'u \<Rightarrow> ((int \<times> byte list) \<times> 'u) option"
  uart_buffered :: "int \<Rightarrow> 'u \<Rightarrow> int \<times> nat"

definition UART_BUFFER_SIZE :: nat where "UART_BUFFER_SIZE = 512"

definition Uart_ctor :: "'u uart_env \<Rightarrow> uart_config \<Rightarrow> int \<Rightarrow> int \<Rightarrow> 32 word \<Rightarrow> uart \<times> uart_call list" where
  "Uart_ctor E junk num baud config =
     (let (tx, rx) = (if num = 0 then (1, 3) else if num = 1 then (10, 9)
                      else if num = 2 then (17, 16) else (0, 0));
          s = (if config = SERIAL_7N1 E then junk\<lparr>data_bits := UART_DATA_7_BITS\<rparr>
               else if config = SERIAL_8N1 E then junk\<lparr>data_bits := UART_DATA_8_BITS\<rparr>
               else junk);
          s = s\<lparr>baud_rate := baud, stop_bits_1 := True, parity_disable := True, hw_flowctrl_disable := True,
                rx_flow_ctrl_thresh := UART_FIFO_LEN E - 1\<rparr>
      in (\<lparr>uart_num = num, uart_tx = tx, uart_rx = rx, uart_setup = s\<rparr>,
          [uart_param_config num s, uart_set_pin num tx rx, uart_driver_install num (UART_BUFFER_SIZE * 2) 0]))"

definition Uart_dtor :: "uart \<Rightarrow> uart_call list" where
  "Uart_dtor this = [uart_driver_delete (uart_num this)]"

definition Uart_available :: "'u uart_env \<Rightarrow> uart \<Rightarrow> 'u \<Rightarrow> nat" where
  \<comment> \<open>\<open>unlikely(e)\<close> is \<open>e \<noteq> 0\<close>, which is what the comparison with \<open>ESP_OK\<close> then tests\<close>
  "Uart_available E this u = (case uart_buffered E (uart_num this) u of (err, retval) \<Rightarrow>
     if err \<noteq> 0 then 0 else retval)"

definition Uart_write :: "'u uart_env \<Rightarrow> uart \<Rightarrow> byte list \<Rightarrow> 'u \<Rightarrow> int \<times> 'u" where
  "Uart_write E this bytes u = uart_write_bytes E (uart_num this) bytes u"

text \<open>The comparison of the signed result with \<open>sizeof\<close> is unsigned.\<close>

definition Uart_write_byte :: "'u uart_env \<Rightarrow> uart \<Rightarrow> byte \<Rightarrow> 'u \<Rightarrow> bool \<times> 'u" where
  "Uart_write_byte E this b u =
     (case Uart_write E this [b] u of (r, u) \<Rightarrow> ((word_of_int r :: 32 word) = 1, u))"

definition Uart_read :: "'u uart_env \<Rightarrow> uart \<Rightarrow> nat \<Rightarrow> 'u \<Rightarrow> ((int \<times> byte list) \<times> 'u) option" where
  "Uart_read E this len u = uart_read_bytes E (uart_num this) len u"

definition Uart_read_byte :: "'u uart_env \<Rightarrow> uart \<Rightarrow> 'u \<Rightarrow> (byte \<times> 'u) option" where
  "Uart_read_byte E this u = (case uart_read_bytes E (uart_num this) 1 u of
       None \<Rightarrow> None
     | Some ((len, bs), u) \<Rightarrow>
         let retval = (if bs = [] then 0 else hd bs) in Some (if len = 1 then retval else 0, u))"

section \<open>Sequences of calls\<close>

datatype uart_use = Available | WriteBytes "byte list" | WriteByte byte | ReadBytes nat | ReadByte

datatype uart_answer = Length nat | Wrote int | Accepted bool | Received int "byte list" | Single byte

fun use_uart :: "'u uart_env \<Rightarrow> uart \<Rightarrow> uart_use \<Rightarrow> 'u \<Rightarrow> (uart_answer \<times> 'u) option" where
  "use_uart E this Available u = Some (Length (Uart_available E this u), u)"
| "use_uart E this (WriteBytes bs) u = Some (map_prod Wrote id (Uart_write E this bs u))"
| "use_uart E this (WriteByte b) u = Some (map_prod Accepted id (Uart_write_byte E this b u))"
| "use_uart E this (ReadBytes k) u = map_option (\<lambda>((len, bs), u). (Received len bs, u)) (Uart_read E this k u)"
| "use_uart E this ReadByte u = map_option (map_prod Single id) (Uart_read_byte E this u)"

text \<open>The answers of a sequence, \<open>None\<close> when a read waits for ever.\<close>

fun session :: "('op \<Rightarrow> 's \<Rightarrow> ('a \<times> 's) option) \<Rightarrow> 'op list \<Rightarrow> 's \<Rightarrow> ('a list \<times> 's) option" where
  "session step [] s = Some ([], s)"
| "session step (op # ops) s = (case step op s of None \<Rightarrow> None
     | Some (a, s) \<Rightarrow> map_option (\<lambda>(as, s). (a # as, s)) (session step ops s))"

text \<open>A serial line: the bytes that wait to be read and the bytes written so far.\<close>

type_synonym line = "byte list \<times> byte list"

fun line_use :: "uart_use \<Rightarrow> line \<Rightarrow> (uart_answer \<times> line) option" where
  "line_use Available (rx, tx) = Some (Length (length rx), (rx, tx))"
| "line_use (WriteBytes bs) (rx, tx) = Some (Wrote (int (length bs)), (rx, tx @ bs))"
| "line_use (WriteByte b) (rx, tx) = Some (Accepted True, (rx, tx @ [b]))"
| "line_use (ReadBytes k) (rx, tx) =
     (if k \<le> length rx then Some (Received (int k) (take k rx), (drop k rx, tx)) else None)"
| "line_use ReadByte (rx, tx) = (case rx of [] \<Rightarrow> None | b # rx \<Rightarrow> Some (Single b, (rx, tx)))"

text \<open>The documented driver of a port: writes are accepted completely, a read waits until as many bytes as
  asked for have come, and the other ports do not matter.\<close>

definition uart_ok :: "'u uart_env \<Rightarrow> int \<Rightarrow> ('u \<Rightarrow> line) \<Rightarrow> bool" where
  "uart_ok E n line \<longleftrightarrow> (\<forall>u rx tx. line u = (rx, tx) \<longrightarrow>
     (\<forall>bs. fst (uart_write_bytes E n bs u) = int (length bs) \<and> line (snd (uart_write_bytes E n bs u)) = (rx, tx @ bs))
     \<and> uart_buffered E n u = (0, length rx)
     \<and> (\<forall>k. if k \<le> length rx then (\<exists>v. uart_read_bytes E n k u = Some ((int k, take k rx), v) \<and> line v = (drop k rx, tx))
            else uart_read_bytes E n k u = None))"

lemma uart_okD:
  assumes "uart_ok E n line" and "line u = (rx, tx)"
  shows "uart_write_bytes E n bs u = (int (length bs), snd (uart_write_bytes E n bs u))"
    "line (snd (uart_write_bytes E n bs u)) = (rx, tx @ bs)"
    "uart_buffered E n u = (0, length rx)"
    "k \<le> length rx \<Longrightarrow> \<exists>v. uart_read_bytes E n k u = Some ((int k, take k rx), v) \<and> line v = (drop k rx, tx)"
    "\<not> k \<le> length rx \<Longrightarrow> uart_read_bytes E n k u = None"
  using assms unfolding uart_ok_def by (metis prod.collapse, metis, metis, metis, metis)

lemma use_is_line:
  assumes "uart_ok E (uart_num this) line"
  shows "map_option (map_prod id line) (use_uart E this use u) = line_use use (line u)"
proof -
  obtain rx tx where l: "line u = (rx, tx)" by (cases "line u")
  note d = uart_okD [OF assms l]
  show ?thesis
  proof (cases "use")
    case Available
    then show ?thesis by (simp add: l Uart_available_def d(3))
  next
    case (WriteBytes bs)
    have "map_prod Wrote id (Uart_write E this bs u) = (Wrote (int (length bs)), snd (uart_write_bytes E (uart_num this) bs u))"
      unfolding Uart_write_def by (subst d(1)) simp
    then show ?thesis by (simp add: WriteBytes l d(2))
  next
    case (WriteByte b)
    have "Uart_write_byte E this b u = (True, snd (uart_write_bytes E (uart_num this) [b] u))"
      unfolding Uart_write_byte_def Uart_write_def by (subst d(1)) simp
    then show ?thesis by (simp add: WriteByte l d(2))
  next
    case (ReadBytes k)
    then show ?thesis
      using d(4,5) [of k] by (cases "k \<le> length rx") (auto simp: l Uart_read_def)
  next
    case ReadByte
    then show ?thesis
      using d(4,5) [of 1] by (cases rx) (auto simp: l Uart_read_byte_def Let_def)
  qed
qed

lemma session_simulates:
  assumes "\<And>op s. map_option (map_prod id f) (step op s) = spec op (f s)"
  shows "map_option (map_prod id f) (session step ops s) = session spec ops (f s)"
proof (induction ops arbitrary: s)
  case Nil
  then show ?case by simp
next
  case (Cons op ops)
  show ?case
  proof (cases "step op s")
    case None
    then show ?thesis using assms [of op s, symmetric] by simp
  next
    case (Some x)
    obtain a t where x: "x = (a, t)" by (cases x)
    have "spec op (f s) = Some (a, f t)" using assms [of op s, symmetric] Some x by simp
    then show ?thesis
      using Cons.IH [of t, symmetric] Some x by (cases "session step ops t") (auto simp: id_def)
  qed
qed

section \<open>Properties\<close>

definition word_length_of :: "uart_call list \<Rightarrow> uart_word_length option" where
  "word_length_of cs = (case cs of uart_param_config n s # _ \<Rightarrow> Some (data_bits s) | _ \<Rightarrow> None)"

text \<open>Property C30. The ports: the constructor configures the driver before it installs it, on pins that belong to that
  port alone, with the word length asked for; for any configuration other than the two it knows the
  driver is given whatever the memory held.  On the port it has set up, every sequence of reads,
  writes and queries gives the answers of a serial line, in order and without loss; it waits for
  ever exactly when a read asks for more bytes than come.\<close>

theorem uart_ports:
  assumes "SERIAL_7N1 E \<noteq> SERIAL_8N1 E" and "uart_ok E num line"
  shows "(\<forall>m \<in> {0, 1, 2}. \<forall>n \<in> {0, 1, 2}. m \<noteq> n \<longrightarrow>
        {uart_tx (fst (Uart_ctor E junk m baud config)), uart_rx (fst (Uart_ctor E junk m baud config))}
        \<inter> {uart_tx (fst (Uart_ctor E junk n baud config)), uart_rx (fst (Uart_ctor E junk n baud config))} = {})
    \<and> (\<exists>s. snd (Uart_ctor E junk num baud config) =
          [uart_param_config num s, uart_set_pin num (uart_tx (fst (Uart_ctor E junk num baud config)))
             (uart_rx (fst (Uart_ctor E junk num baud config))), uart_driver_install num 1024 0]
        \<and> baud_rate s = baud \<and> stop_bits_1 s \<and> parity_disable s)
    \<and> word_length_of (snd (Uart_ctor E junk num baud config)) =
        Some (if config = SERIAL_7N1 E then UART_DATA_7_BITS
              else if config = SERIAL_8N1 E then UART_DATA_8_BITS else data_bits junk)
    \<and> map_option (map_prod id line) (session (use_uart E (fst (Uart_ctor E junk num baud config))) uses u)
        = session line_use uses (line u)"
proof -
  have "uart_num (fst (Uart_ctor E junk num baud config)) = num"
    by (simp add: Uart_ctor_def Let_def split_def)
  then have "map_option (map_prod id line) (session (use_uart E (fst (Uart_ctor E junk num baud config))) uses u)
      = session line_use uses (line u)"
    by (intro session_simulates use_is_line) (simp add: assms(2))
  then show ?thesis
    using assms(1) by (auto simp: Uart_ctor_def Let_def word_length_of_def UART_BUFFER_SIZE_def)
qed

text \<open>Whatever the driver does: writing a byte reports success exactly when the driver took one byte, and the
  byte read is the one delivered, or zero when the driver did not deliver exactly one.\<close>

lemma uart_single_bytes:
  assumes "uart_write_bytes E (uart_num this) [b] u = (r, v)" and "- (2 ^ 31) \<le> r" and "r < 2 ^ 31"
    and "uart_read_bytes E (uart_num this) 1 u = Some ((len, bs), w)" and "length bs = nat len"
  shows "Uart_write_byte E this b u = (r = 1, v)"
    and "Uart_read_byte E this u = Some (if len = 1 then bs ! 0 else 0, w)"
proof -
  have "(word_of_int r :: 32 word) = 1 \<longleftrightarrow> r = 1"
  proof
    assume "(word_of_int r :: 32 word) = 1"
    then have "sint (word_of_int r :: 32 word) = sint (1 :: 32 word)" by simp
    moreover have "sint (word_of_int r :: 32 word) = r"
      using assms(2,3) by (simp add: signed_of_int signed_take_bit_int_eq_self)
    ultimately show "r = 1" by simp
  qed simp
  then show "Uart_write_byte E this b u = (r = 1, v)"
    using assms(1) by (simp add: Uart_write_byte_def Uart_write_def)
  have "len = 1 \<Longrightarrow> bs \<noteq> []" using assms(5) by auto
  then show "Uart_read_byte E this u = Some (if len = 1 then bs ! 0 else 0, w)"
    using assms(4) by (auto simp: Uart_read_byte_def Let_def hd_conv_nth)
qed

text \<open>A driver with three ports, for the witness.\<close>

definition demo_uart :: "(int \<Rightarrow> line) uart_env" where
  "demo_uart = \<lparr>SERIAL_7N1 = 0, SERIAL_8N1 = 1, UART_FIFO_LEN = 128,
     uart_write_bytes = (\<lambda>n bs u. (int (length bs), u(n := (fst (u n), snd (u n) @ bs)))),
     uart_read_bytes = (\<lambda>n k u. if k \<le> length (fst (u n))
        then Some ((int k, take k (fst (u n))), u(n := (drop k (fst (u n)), snd (u n)))) else None),
     uart_buffered = (\<lambda>n u. (0, length (fst (u n))))\<rparr>"

lemma demo_uart_ok: "uart_ok demo_uart n (\<lambda>u. u n)"
  by (simp add: uart_ok_def demo_uart_def)

definition demo_junk :: uart_config where
  "demo_junk = \<lparr>data_bits = UART_DATA_other 77, baud_rate = 0, stop_bits_1 = False, parity_disable = False,
     hw_flowctrl_disable = False, rx_flow_ctrl_thresh = 0\<rparr>"

lemma uart_ports_witness:
  "word_length_of (snd (Uart_ctor demo_uart demo_junk 2 9600 1)) = Some UART_DATA_8_BITS
   \<and> word_length_of (snd (Uart_ctor demo_uart demo_junk 2 9600 5)) = Some (UART_DATA_other 77)
   \<and> (\<exists>v. session (use_uart demo_uart (fst (Uart_ctor demo_uart demo_junk 2 9600 1)))
        [Available, ReadByte, WriteByte 7, ReadBytes 2, WriteBytes [8, 9]] (\<lambda>_. ([1, 2, 3], [])) =
          Some ([Length 3, Single 1, Accepted True, Received 2 [2, 3], Wrote 2], v) \<and> v 2 = ([], [7, 8, 9]))
   \<and> session (use_uart demo_uart (fst (Uart_ctor demo_uart demo_junk 2 9600 1))) [ReadBytes 4] (\<lambda>_. ([1, 2, 3], [])) = None"
proof -
  have d: "SERIAL_7N1 demo_uart \<noteq> SERIAL_8N1 demo_uart" by (simp add: demo_uart_def)
  note p = uart_ports [OF d demo_uart_ok [of 2], where junk = demo_junk and baud = 9600]
  let ?u = "(\<lambda>_. ([1, 2, 3], [])) :: int \<Rightarrow> line"
  have "word_length_of (snd (Uart_ctor demo_uart demo_junk 2 9600 1)) = Some UART_DATA_8_BITS"
    "word_length_of (snd (Uart_ctor demo_uart demo_junk 2 9600 5)) = Some (UART_DATA_other 77)"
    using p [where config = 1] p [where config = 5] by (simp_all add: demo_uart_def demo_junk_def)
  moreover have "map_option (map_prod id (\<lambda>u. u 2)) (session (use_uart demo_uart (fst (Uart_ctor demo_uart demo_junk 2 9600 1))) uses ?u)
      = session line_use uses ([1, 2, 3], [])" for uses
    using p [where config = 1 and uses = uses and u = ?u] by blast
  note this [of "[Available, ReadByte, WriteByte 7, ReadBytes 2, WriteBytes [8, 9]]"] this [of "[ReadBytes 4]"]
  ultimately show ?thesis by (auto simp del: use_uart.simps) 
qed

end
