(* ===== verification/Watchdog.thy ===== *)
theory Watchdog
  imports Prelude
begin

text \<open>
  The task watchdog, \<^verbatim>\<open>esp32/esp32watchdog.cpp\<close>.  The state is the base object of the core library
  (\<open>'c\<close>, which knows whether the watchdog is enabled) and the SDK's task watchdog (\<open>'w\<close>, which knows
  the subscribed tasks).  The two configuration switches are whether the checks of the idle tasks
  are defined (\<^verbatim>\<open>CONFIG_TASK_WDT_CHECK_IDLE_TASK_CPU0\<close>, \<^verbatim>\<open>CPU1\<close>).  \<open>task\<close> is the calling task.
\<close>

record ('c, 'w) wdt_env =
  wdt_init :: "nat \<Rightarrow> bool \<Rightarrow> 'w \<Rightarrow> int \<times> 'w"
  wdt_deinit :: "'w \<Rightarrow> int \<times> 'w"
  wdt_feed :: "nat \<Rightarrow> 'w \<Rightarrow> int \<times> 'w"
  wdt_add :: "nat \<Rightarrow> 'w \<Rightarrow> int \<times> 'w"
  wdt_delete :: "nat \<Rightarrow> 'w \<Rightarrow> int \<times> 'w"
  idle_task :: "nat \<Rightarrow> nat"
  core_enable :: "nat \<Rightarrow> 'c \<Rightarrow> 'c"
  core_disable :: "'c \<Rightarrow> 'c"
  core_enabled :: "'c \<Rightarrow> bool"
  check_idle_cpu0 :: bool
  check_idle_cpu1 :: bool

record ('c, 'w) wdt_state =
  core :: 'c
  twdt :: 'w

datatype wdt_fault = WdtAbort

definition WDT_OK :: int where "WDT_OK = 0"

definition wdt_call :: "('w \<Rightarrow> int \<times> 'w) \<Rightarrow> ('c, 'w) wdt_state \<Rightarrow> int \<times> ('c, 'w) wdt_state" where
  "wdt_call f s = (fst (f (twdt s)), s\<lparr>twdt := snd (f (twdt s))\<rparr>)"

definition Watchdog_enable ::
  "('c, 'w) wdt_env \<Rightarrow> 32 word \<Rightarrow> ('c, 'w) wdt_state \<Rightarrow> bool \<times> ('c, 'w) wdt_state" where
  "Watchdog_enable E tmo s =
     (case wdt_call (wdt_init E (unat (tmo div 1000)) True) s of (r, s) \<Rightarrow>
        if r = WDT_OK then
          let s = s\<lparr>core := core_enable E (unat tmo) (core s)\<rparr>;
              s = (if check_idle_cpu0 E then snd (wdt_call (wdt_delete E (idle_task E 0)) s) else s);
              s = (if check_idle_cpu1 E then snd (wdt_call (wdt_delete E (idle_task E 1)) s) else s)
          in (True, s)
        else (False, s))"

definition Watchdog_disable :: "('c, 'w) wdt_env \<Rightarrow> ('c, 'w) wdt_state \<Rightarrow> bool \<times> ('c, 'w) wdt_state" where
  "Watchdog_disable E s =
     (let s = s\<lparr>core := core_disable E (core s)\<rparr>
      in case wdt_call (wdt_deinit E) s of (r, s) \<Rightarrow> (r = WDT_OK, s))"

definition Watchdog_reset :: "('c, 'w) wdt_env \<Rightarrow> nat \<Rightarrow> ('c, 'w) wdt_state \<Rightarrow> ('c, 'w) wdt_state" where
  "Watchdog_reset E task s =
     (if \<not> core_enabled E (core s) then s
      else case wdt_call (wdt_feed E task) s of (r, s) \<Rightarrow>
        if r = WDT_OK then s
        else snd (wdt_call (wdt_feed E task) (snd (wdt_call (wdt_add E task) s))))"

definition Watchdog_disableLocal ::
  "('c, 'w) wdt_env \<Rightarrow> nat \<Rightarrow> (wdt_fault, ('c, 'w) wdt_state) step" where
  "Watchdog_disableLocal E task s =
     (if \<not> core_enabled E (core s) then Inr s
      else case wdt_call (wdt_delete E task) s of (r, s) \<Rightarrow>
        if r = WDT_OK then Inr s else Inl WdtAbort)"

section \<open>The documented task watchdog\<close>

text \<open>
  The SDK's manual: \<open>subs w\<close> are the subscribed tasks, \<open>None\<close> while the watchdog is not initialised.
  Initialisation succeeds, and keeps the subscriptions of a watchdog that is already running; a task
  can be fed or deleted exactly when it is subscribed, and added to a running watchdog; a running
  watchdog without subscriptions can be de-initialised.  The core library's object remembers the
  last call.
\<close>

definition wdt_ok :: "('c, 'w) wdt_env \<Rightarrow> ('w \<Rightarrow> nat set option) \<Rightarrow> bool" where
  "wdt_ok E subs \<longleftrightarrow>
     (\<forall>w k p. fst (wdt_init E k p w) = 0
        \<and> subs (snd (wdt_init E k p w)) = Some (case subs w of None \<Rightarrow> {} | Some S \<Rightarrow> S))
     \<and> (\<forall>w t. (fst (wdt_feed E t w) = 0 \<longleftrightarrow> (\<exists>S. subs w = Some S \<and> t \<in> S)) \<and> subs (snd (wdt_feed E t w)) = subs w)
     \<and> (\<forall>w t. subs (snd (wdt_add E t w)) = map_option (insert t) (subs w))
     \<and> (\<forall>w t. (fst (wdt_delete E t w) = 0 \<longleftrightarrow> (\<exists>S. subs w = Some S \<and> t \<in> S))
          \<and> subs (snd (wdt_delete E t w)) = map_option (\<lambda>S. S - {t}) (subs w))
     \<and> (\<forall>w. (fst (wdt_deinit E w) = 0 \<longleftrightarrow> subs w = Some {})
          \<and> subs (snd (wdt_deinit E w)) = (if subs w = Some {} then None else subs w))
     \<and> (\<forall>k c. core_enabled E (core_enable E k c)) \<and> (\<forall>c. \<not> core_enabled E (core_disable E c))"

lemma wdt_okD:
  assumes "wdt_ok E subs"
  shows "fst (wdt_init E k p w) = 0"
    "subs (snd (wdt_init E k p w)) = Some (case subs w of None \<Rightarrow> {} | Some S \<Rightarrow> S)"
    "fst (wdt_feed E t w) = 0 \<longleftrightarrow> (\<exists>S. subs w = Some S \<and> t \<in> S)"
    "subs (snd (wdt_feed E t w)) = subs w"
    "subs (snd (wdt_add E t w)) = map_option (insert t) (subs w)"
    "fst (wdt_delete E t w) = 0 \<longleftrightarrow> (\<exists>S. subs w = Some S \<and> t \<in> S)"
    "subs (snd (wdt_delete E t w)) = map_option (\<lambda>S. S - {t}) (subs w)"
    "fst (wdt_deinit E w) = 0 \<longleftrightarrow> subs w = Some {}"
    "subs (snd (wdt_deinit E w)) = (if subs w = Some {} then None else subs w)"
    "core_enabled E (core_enable E k' c)" "\<not> core_enabled E (core_disable E c)"
  using assms unfolding wdt_ok_def by blast+

lemmas wdt_defs = Watchdog_enable_def Watchdog_disable_def Watchdog_reset_def Watchdog_disableLocal_def
  wdt_call_def WDT_OK_def Let_def

section \<open>Programs\<close>

text \<open>The calls of a program, by any tasks.\<close>

datatype wdt_use = Enable "32 word" | Disable | Reset nat | DisableLocal nat

fun use_wdt :: "('c, 'w) wdt_env \<Rightarrow> wdt_use \<Rightarrow> (wdt_fault, ('c, 'w) wdt_state) step" where
  "use_wdt E (Enable tmo) s = Inr (snd (Watchdog_enable E tmo s))"
| "use_wdt E Disable s = Inr (snd (Watchdog_disable E s))"
| "use_wdt E (Reset t) s = Inr (Watchdog_reset E t s)"
| "use_wdt E (DisableLocal t) s = Watchdog_disableLocal E t s"

text \<open>The machine they implement: whether the object is enabled, and the subscribed tasks of a running
  watchdog.  Enabling drops the idle tasks that are checked; feeding subscribes; a task that is not subscribed and
  leaves aborts the program; a disabled object ignores both.\<close>

type_synonym wdt_machine = "bool \<times> nat set option"

fun wdt_spec :: "nat set \<Rightarrow> wdt_use \<Rightarrow> (wdt_fault, wdt_machine) step" where
  "wdt_spec I (Enable tmo) (en, W) = Inr (True, Some ((case W of None \<Rightarrow> {} | Some S \<Rightarrow> S) - I))"
| "wdt_spec I Disable (en, W) = Inr (False, if W = Some {} then None else W)"
| "wdt_spec I (Reset t) (en, W) = Inr (en, if en then map_option (insert t) W else W)"
| "wdt_spec I (DisableLocal t) (en, W) =
     (if \<not> en then Inr (en, W)
      else case W of None \<Rightarrow> Inl WdtAbort | Some S \<Rightarrow> if t \<in> S then Inr (en, Some (S - {t})) else Inl WdtAbort)"

definition idles :: "('c, 'w) wdt_env \<Rightarrow> nat set" where
  "idles E = (if check_idle_cpu0 E then {idle_task E 0} else {}) \<union> (if check_idle_cpu1 E then {idle_task E 1} else {})"

definition machine_at :: "('c, 'w) wdt_env \<Rightarrow> ('w \<Rightarrow> nat set option) \<Rightarrow> ('c, 'w) wdt_state \<Rightarrow> wdt_machine" where
  "machine_at E subs s = (core_enabled E (core s), subs (twdt s))"

lemma use_simulates:
  assumes "wdt_ok E subs"
  shows "map_sum id (machine_at E subs) (use_wdt E u s) = wdt_spec (idles E) u (machine_at E subs s)"
proof (cases u)
  case (Enable tmo)
  then show ?thesis
    using wdt_okD [OF assms] by (auto simp: machine_at_def idles_def wdt_defs split_def)
next
  case Disable
  then show ?thesis using wdt_okD [OF assms] by (auto simp: machine_at_def wdt_defs split_def)
next
  case (Reset t)
  then show ?thesis
    using wdt_okD [OF assms] by (cases "subs (twdt s)") (auto simp: machine_at_def wdt_defs split_def insert_absorb)
next
  case (DisableLocal t)
  then show ?thesis
    using wdt_okD [OF assms] by (cases "subs (twdt s)") (auto simp: machine_at_def wdt_defs split_def)
qed

lemma uses_simulate:
  assumes "wdt_ok E subs"
  shows "map_sum id (machine_at E subs) (exec (map (use_wdt E) us) s) = exec (map (wdt_spec (idles E)) us) (machine_at E subs s)"
proof (induction us arbitrary: s)
  case Nil
  then show ?case by simp
next
  case (Cons u us)
  show ?case
    using use_simulates [OF assms, of u s, symmetric] Cons.IH
    by (cases "use_wdt E u s") (simp_all del: use_wdt.simps wdt_spec.simps add: id_def)
qed

text \<open>Property C24. Tasks join the watchdog by feeding it.  Any sequence of \<open>enable\<close>, \<open>disable\<close>, \<open>reset\<close> and
  \<open>disableLocal\<close> by any tasks implements the machine above: it aborts exactly when an unsubscribed task
  leaves an enabled watchdog, and otherwise ends with the object enabled or not and the tasks
  subscribed as the machine says.  A timeout below one second sets the timer to zero seconds.  And
  \<open>disable\<close> while a task is subscribed fails but marks the object disabled, so that the watchdog goes on
  watching the task while its \<open>reset\<close> calls no longer do anything.\<close>

theorem watchdog_subscriptions:
  assumes "wdt_ok E subs"
  shows "(case exec (map (wdt_spec (idles E)) us) (core_enabled E (core s), subs (twdt s)) of
       Inl e \<Rightarrow> exec (map (use_wdt E) us) s = Inl e
     | Inr m \<Rightarrow> \<exists>t. exec (map (use_wdt E) us) s = Inr t \<and> (core_enabled E (core t), subs (twdt t)) = m)
   \<and> (tmo < 1000 \<longrightarrow> twdt (snd (Watchdog_enable E tmo s)) = twdt (snd (Watchdog_enable E 0 s)))
   \<and> (core_enabled E (core s) \<and> subs (twdt s) = Some S \<longrightarrow>
       (let (r, u) = Watchdog_disable E (Watchdog_reset E task s)
        in \<not> r \<and> subs (twdt u) = Some (insert task S) \<and> (\<forall>t. Watchdog_reset E t u = u)))"
proof (intro conjI impI)
  show "case exec (map (wdt_spec (idles E)) us) (core_enabled E (core s), subs (twdt s)) of
       Inl e \<Rightarrow> exec (map (use_wdt E) us) s = Inl e
     | Inr m \<Rightarrow> \<exists>t. exec (map (use_wdt E) us) s = Inr t \<and> (core_enabled E (core t), subs (twdt t)) = m"
    using uses_simulate [OF assms, of us s]
    by (cases "exec (map (use_wdt E) us) s") (auto simp: machine_at_def split: sum.split)
next
  assume "tmo < 1000"
  then have "tmo div 1000 = 0" by (simp add: div_less word_less_nat_alt unat_eq_zero [symmetric] unat_div)
  then show "twdt (snd (Watchdog_enable E tmo s)) = twdt (snd (Watchdog_enable E 0 s))"
    by (auto simp: wdt_defs split_def)
next
  assume s: "core_enabled E (core s) \<and> subs (twdt s) = Some S"
  let ?v = "Watchdog_reset E task s"
  have "machine_at E subs ?v = (True, Some (insert task S))"
    using use_simulates [OF assms, of "Reset task" s] s by (simp add: machine_at_def)
  then show "let (r, u) = Watchdog_disable E ?v
        in \<not> r \<and> subs (twdt u) = Some (insert task S) \<and> (\<forall>t. Watchdog_reset E t u = u)"
    using wdt_okD(8,9,11) [OF assms] by (auto simp: machine_at_def Watchdog_disable_def Watchdog_reset_def wdt_call_def WDT_OK_def Let_def split_def)
qed

text \<open>A task watchdog as the manual describes it, for the witness.\<close>

definition demo_wdt :: "(bool, nat set option) wdt_env" where
  "demo_wdt = \<lparr>wdt_init = (\<lambda>k p w. (0, Some (case w of None \<Rightarrow> {} | Some S \<Rightarrow> S))),
     wdt_deinit = (\<lambda>w. if w = Some {} then (0, None) else (1, w)),
     wdt_feed = (\<lambda>t w. case w of None \<Rightarrow> (1, w) | Some S \<Rightarrow> (if t \<in> S then 0 else 1, w)),
     wdt_add = (\<lambda>t w. case w of None \<Rightarrow> (1, w) | Some S \<Rightarrow> (0, Some (insert t S))),
     wdt_delete = (\<lambda>t w. case w of None \<Rightarrow> (1, w) | Some S \<Rightarrow> (if t \<in> S then 0 else 1, Some (S - {t}))),
     idle_task = (\<lambda>n. 100 + n), core_enable = (\<lambda>k c. True), core_disable = (\<lambda>c. False), core_enabled = (\<lambda>c. c),
     check_idle_cpu0 = True, check_idle_cpu1 = True\<rparr>"

lemma demo_wdt_ok: "wdt_ok demo_wdt (\<lambda>w. w)"
  by (auto simp: wdt_ok_def demo_wdt_def split: option.splits)

text \<open>The SDK's start-up code has subscribed the idle tasks before the object is used.\<close>

lemma watchdog_subscriptions_witness:
  "(\<exists>t. exec (map (use_wdt demo_wdt) [Enable 500, Reset 3, Reset 4, DisableLocal 3, Disable, Reset 5])
        \<lparr>core = False, twdt = Some {100, 101}\<rparr> = Inr t \<and> \<not> core t \<and> twdt t = Some {4})
   \<and> exec (map (use_wdt demo_wdt) [Enable 500, Reset 3, DisableLocal 4]) \<lparr>core = False, twdt = Some {100, 101}\<rparr> = Inl WdtAbort"
proof -
  let ?s = "\<lparr>core = False, twdt = Some {100, 101}\<rparr> :: (bool, nat set option) wdt_state"
  have I: "idles demo_wdt = {100, 101}" "core_enabled demo_wdt b = b" for b
    by (auto simp: idles_def demo_wdt_def)
  note p = watchdog_subscriptions [OF demo_wdt_ok, THEN conjunct1]
  show ?thesis
    using p [of "[Enable 500, Reset 3, Reset 4, DisableLocal 3, Disable, Reset 5]" ?s]
      p [of "[Enable 500, Reset 3, DisableLocal 4]" ?s]
    by (auto simp: I insert_Diff_if simp del: use_wdt.simps)
qed

end
