(* ===== verification/Soc.thy ===== *)
theory Soc
  imports Prelude
begin

text \<open>
  The system functions: critical sections and core selection of \<^verbatim>\<open>esp32/soc/esp32.c\<close>, sleeping of
  \<^verbatim>\<open>esp32/soc/esp32system.cpp\<close>, and the resolver of \<^verbatim>\<open>esp32/netdb.c\<close>.
\<close>

section \<open>Critical sections\<close>

text \<open>
  \<open>xCoreMutex\<close> has one mutex per core (the chip has two).  \<open>mux_enter core m\<close> is
  \<open>portENTER_CRITICAL\<close> of the SDK on the given core, \<open>None\<close> while it spins; \<open>mux_exit\<close> is
  \<open>portEXIT_CRITICAL\<close>.  An index outside the array is a fault.
\<close>

record 'm mux_env =
  mux_enter :: "nat \<Rightarrow> 'm \<Rightarrow> 'm option"
  mux_exit :: "nat \<Rightarrow> 'm \<Rightarrow> 'm"

datatype soc_fault = MuxOutOfBounds | MuxSpins

definition portNUM_PROCESSORS :: nat where "portNUM_PROCESSORS = 2"

type_synonym 'm muxes = "nat \<Rightarrow> 'm"

definition enter_critical :: "'m mux_env \<Rightarrow> nat \<Rightarrow> (soc_fault, 'm muxes) step" where
  "enter_critical E core xCoreMutex =
     (let id = core in
      if portNUM_PROCESSORS \<le> id then Inl MuxOutOfBounds
      else case mux_enter E core (xCoreMutex id) of
          None \<Rightarrow> Inl MuxSpins
        | Some m \<Rightarrow> Inr (xCoreMutex(id := m)))"

definition exit_critical :: "'m mux_env \<Rightarrow> nat \<Rightarrow> (soc_fault, 'm muxes) step" where
  "exit_critical E core xCoreMutex =
     (let id = core in
      if portNUM_PROCESSORS \<le> id then Inl MuxOutOfBounds
      else Inr (xCoreMutex(id := mux_exit E core (xCoreMutex id))))"

text \<open>The documented mutex: \<open>depth core m\<close> is how often the core holds it.  A core enters a mutex that no
  other core holds, recursively; leaving undoes one entry.\<close>

definition mux_ok :: "'m mux_env \<Rightarrow> (nat \<Rightarrow> 'm \<Rightarrow> nat) \<Rightarrow> bool" where
  "mux_ok E depth \<longleftrightarrow> (\<forall>core m.
     ((\<exists>m'. mux_enter E core m = Some m') \<longleftrightarrow> (\<forall>other. other \<noteq> core \<longrightarrow> depth other m = 0))
     \<and> (\<forall>m'. mux_enter E core m = Some m' \<longrightarrow> (\<forall>c. depth c m' = (if c = core then Suc (depth c m) else depth c m)))
     \<and> (\<forall>c. depth c (mux_exit E core m) = (if c = core then depth c m - 1 else depth c m)))"

text \<open>Any interleaving of entries and exits on the two cores; a core exits only what it has entered.\<close>

inductive crit_reach :: "'m mux_env \<Rightarrow> (nat \<Rightarrow> 'm \<Rightarrow> nat) \<Rightarrow> 'm muxes \<Rightarrow> 'm muxes \<Rightarrow> bool"
  for E depth x where
  crit_start: "crit_reach E depth x x"
| crit_enter: "crit_reach E depth x y \<Longrightarrow> enter_critical E core y = Inr z \<Longrightarrow> crit_reach E depth x z"
| crit_exit: "crit_reach E depth x y \<Longrightarrow> 0 < depth core (y core) \<Longrightarrow> exit_critical E core y = Inr z
    \<Longrightarrow> crit_reach E depth x z"

definition in_section :: "(nat \<Rightarrow> 'm \<Rightarrow> nat) \<Rightarrow> 'm muxes \<Rightarrow> nat \<Rightarrow> bool" where
  "in_section depth y core \<longleftrightarrow> 0 < depth core (y core)"

lemma mux_okD:
  assumes "mux_ok E depth"
  shows "(\<And>other. other \<noteq> core \<Longrightarrow> depth other m = 0) \<Longrightarrow> \<exists>m'. mux_enter E core m = Some m'"
    "mux_enter E core m = Some m' \<Longrightarrow> depth c m' = (if c = core then Suc (depth c m) else depth c m)"
    "depth c (mux_exit E core m) = (if c = core then depth c m - 1 else depth c m)"
  using assms unfolding mux_ok_def by blast+

text \<open>Each mutex is only ever held by its own core.\<close>

lemma own_mux:
  assumes "mux_ok E depth" and "crit_reach E depth x y" and "\<forall>i core. depth core (x i) = 0"
  shows "c \<noteq> i \<Longrightarrow> depth c (y i) = 0"
  using assms(2)
proof (induction arbitrary: c i rule: crit_reach.induct)
  case crit_start
  then show ?case using assms(3) by simp
next
  case (crit_enter y core z)
  then show ?case
    using mux_okD(2) [OF assms(1), of core "y core"]
    by (auto simp: enter_critical_def Let_def split: if_splits option.splits)
next
  case (crit_exit y core z)
  then show ?case
    using mux_okD(3) [OF assms(1), of _ core "y core"]
    by (auto simp: exit_critical_def Let_def split: if_splits)
qed

text \<open>Property C27. \<open>enter_critical\<close> excludes nothing on the other core: every core takes its own mutex, so that in every
  reachable state, also while the other core is inside its section, it succeeds without waiting,
  puts its core inside and leaves the other core as it was; matching exits undo it.\<close>

theorem critical_sections_per_core:
  assumes "mux_ok E depth" and "crit_reach E depth x y" and "\<forall>i core. depth core (x i) = 0"
    and "core < 2"
  shows "\<exists>z. enter_critical E core y = Inr z \<and> in_section depth z core
    \<and> (\<forall>other. other \<noteq> core \<longrightarrow> in_section depth z other = in_section depth y other)
    \<and> (\<exists>w. exit_critical E core z = Inr w \<and> (\<forall>c. in_section depth w c = in_section depth y c))"
proof -
  have "\<exists>m. mux_enter E core (y core) = Some m"
    by (rule mux_okD(1) [OF assms(1)]) (rule own_mux [OF assms(1-3)])
  then obtain m where m: "mux_enter E core (y core) = Some m" by blast
  let ?z = "y(core := m)"
  have "depth core m = Suc (depth core (y core))" using mux_okD(2) [OF assms(1) m, of core] by simp
  moreover have "depth core (mux_exit E core m) = depth core m - 1" using mux_okD(3) [OF assms(1), of core core m] by simp
  ultimately show ?thesis
    using m assms(4) by (auto simp: enter_critical_def exit_critical_def in_section_def portNUM_PROCESSORS_def)
qed

text \<open>A recursive mutex, for the witness: who holds it, and how often.\<close>

definition demo_mux :: "(nat \<times> nat) mux_env" where
  "demo_mux = \<lparr>mux_enter = (\<lambda>core (owner, k). if k = 0 \<or> owner = core then Some (core, Suc k) else None),
     mux_exit = (\<lambda>core (owner, k). if owner = core then (owner, k - 1) else (owner, k))\<rparr>"

definition demo_depth :: "nat \<Rightarrow> nat \<times> nat \<Rightarrow> nat" where
  "demo_depth core m = (if fst m = core then snd m else 0)"

lemma demo_mux_ok: "mux_ok demo_mux demo_depth"
  by (auto simp: mux_ok_def demo_mux_def demo_depth_def split: if_splits)

lemma critical_sections_per_core_witness:
  "\<exists>y z. enter_critical demo_mux 0 (\<lambda>_. (0, 0)) = Inr y \<and> enter_critical demo_mux 1 y = Inr z
     \<and> in_section demo_depth z 0 \<and> in_section demo_depth z 1"
proof -
  let ?x = "(\<lambda>_. (0, 0)) :: (nat \<times> nat) muxes"
  have free: "\<forall>i core. demo_depth core (?x i) = 0" by (simp add: demo_depth_def)
  obtain y where y: "enter_critical demo_mux 0 ?x = Inr y" "in_section demo_depth y 0"
    using critical_sections_per_core [OF demo_mux_ok crit_start free, of 0] by auto
  have "crit_reach demo_mux demo_depth ?x y" by (rule crit_enter [OF crit_start y(1)])
  from critical_sections_per_core [OF demo_mux_ok this free, of 1] y show ?thesis by auto
qed

section \<open>Core selection\<close>

text \<open>The static variable \<open>coreid\<close> is the state.\<close>

definition esp32_get_next_coreid :: "bool \<Rightarrow> nat \<times> bool" where
  "esp32_get_next_coreid coreid = (of_bool coreid, \<not> coreid)"

fun next_coreids :: "nat \<Rightarrow> bool \<Rightarrow> nat list" where
  "next_coreids 0 coreid = []"
| "next_coreids (Suc k) coreid =
     (case esp32_get_next_coreid coreid of (r, coreid) \<Rightarrow> r # next_coreids k coreid)"

lemma next_coreids_alternate:
  "next_coreids k b = map (\<lambda>i. (i + of_bool b) mod 2) [0..<k]"
proof (induction k arbitrary: b)
  case 0
  then show ?case by simp
next
  case (Suc k)
  have "[0..<Suc k] = 0 # map Suc [0..<k]" by (simp only: upt_conv_Cons map_Suc_upt zero_less_Suc)
  then show ?case
    by (simp add: Suc.IH esp32_get_next_coreid_def comp_def del: upt_Suc)
qed

section \<open>Sleeping\<close>

definition System_sleep :: "32 word \<Rightarrow> 64 word" where
  \<comment> \<open>the microseconds passed to \<open>esp_deep_sleep\<close>; both branches of the switch are the same\<close>
  "System_sleep ms = ucast ms * 1000"

lemma sleep_no_overflow: "unat (System_sleep ms) = 1000 * unat ms"
proof -
  have "unat ms < 2 ^ 32" using unsigned_less [of ms] by simp
  then have "unat (ucast ms :: 64 word) = unat ms" by (simp add: unsigned_ucast_eq take_bit_nat_eq_self)
  with \<open>unat ms < 2 ^ 32\<close> show ?thesis by (simp add: System_sleep_def unat_word_ariths)
qed

section \<open>Name resolution\<close>

text \<open>\<open>he\<close> is what \<open>gethostbyname\<close> returns: NULL, or the address list up to its NULL entry.\<close>

record netdb_consts =
  net_EINVALID :: int
  net_ENOTFOUND :: int
  net_EOK :: int

definition lwiot_hostname_to_ip :: "netdb_consts \<Rightarrow> 32 word list option \<Rightarrow> 32 word \<Rightarrow> int \<times> 32 word" where
  "lwiot_hostname_to_ip K he addr = (case he of
       None \<Rightarrow> (- net_EINVALID K, addr)
     | Some [] \<Rightarrow> (- net_ENOTFOUND K, addr)
     | Some (a # as) \<Rightarrow> (- net_EOK K, a))"

lemma resolve_reports:
  assumes "net_EINVALID K \<noteq> net_EOK K" and "net_ENOTFOUND K \<noteq> net_EOK K"
  shows "(fst (lwiot_hostname_to_ip K he addr) = - net_EOK K \<longleftrightarrow> (\<exists>a as. he = Some (a # as)))
    \<and> (fst (lwiot_hostname_to_ip K he addr) \<noteq> - net_EOK K \<longrightarrow> snd (lwiot_hostname_to_ip K he addr) = addr)"
  using assms by (auto simp: lwiot_hostname_to_ip_def split: option.split list.split)

end
