(* ===== verification/Sdk_Config.thy ===== *)
theory Sdk_Config
  imports I2c Watchdog Soc
begin

text \<open>
  The options of the SDK that the two builds are configured with, \<^verbatim>\<open>esp32/config/Debug/sdkconfig.h\<close>
  and \<^verbatim>\<open>esp32/config/Release/sdkconfig.h\<close>, which the build installs by its build type, and the
  variants of the code that its preprocessor conditions select with them.
\<close>

section \<open>The configuration headers\<close>

text \<open>A header is its list of macros, in order; each is a number or a string literal.\<close>

datatype cfg_value = Num int | Str string

type_synonym sdkconfig = "(string \<times> cfg_value) list"

definition debug_options_1 :: sdkconfig where
  "debug_options_1 =
    [(''CONFIG_ESP32_PHY_MAX_TX_POWER'', Num 20), (''CONFIG_TRACEMEM_RESERVE_DRAM'', Num 0x0),
     (''CONFIG_FREERTOS_MAX_TASK_NAME_LEN'', Num 16), (''CONFIG_MQTT_TRANSPORT_SSL'', Num 1),
     (''CONFIG_FATFS_LFN_NONE'', Num 1), (''CONFIG_STACK_CHECK'', Num 1), (''CONFIG_MB_SERIAL_TASK_PRIO'', Num 10),
     (''CONFIG_MQTT_PROTOCOL_311'', Num 1), (''CONFIG_TCP_RECVMBOX_SIZE'', Num 6),
     (''CONFIG_FATFS_CODEPAGE_437'', Num 1), (''CONFIG_LWIP_ETHARP_TRUST_IP_MAC'', Num 1),
     (''CONFIG_STACK_CHECK_NORM'', Num 1), (''CONFIG_TCP_WND_DEFAULT'', Num 5744),
     (''CONFIG_PARTITION_TABLE_OFFSET'', Num 0x8000), (''CONFIG_SPIFFS_USE_MAGIC_LENGTH'', Num 1),
     (''CONFIG_ESPTOOLPY_FLASHSIZE_4MB'', Num 1), (''CONFIG_IPC_TASK_STACK_SIZE'', Num 1024),
     (''CONFIG_WIFI_PROV_SCAN_MAX_ENTRIES'', Num 16), (''CONFIG_FATFS_PER_FILE_CACHE'', Num 1),
     (''CONFIG_ESPTOOLPY_FLASHFREQ'', Str ''40m''), (''CONFIG_MBEDTLS_KEY_EXCHANGE_RSA'', Num 1),
     (''CONFIG_UDP_RECVMBOX_SIZE'', Num 6), (''CONFIG_FREERTOS_QUEUE_REGISTRY_SIZE'', Num 0),
     (''CONFIG_MBEDTLS_AES_C'', Num 1), (''CONFIG_MBEDTLS_ECP_DP_SECP521R1_ENABLED'', Num 1),
     (''CONFIG_ESP32_WIFI_SOFTAP_BEACON_MAX_LEN'', Num 752), (''CONFIG_MBEDTLS_GCM_C'', Num 1),
     (''CONFIG_ESPTOOLPY_FLASHSIZE'', Str ''4MB''), (''CONFIG_HEAP_POISONING_DISABLED'', Num 1),
     (''CONFIG_SPIFFS_CACHE_WR'', Num 1), (''CONFIG_BROWNOUT_DET_LVL_SEL_0'', Num 1),
     (''CONFIG_ESP32_WIFI_DYNAMIC_TX_BUFFER'', Num 1), (''CONFIG_SPIFFS_CACHE'', Num 1), (''CONFIG_INT_WDT'', Num 1),
     (''CONFIG_MBEDTLS_SSL_PROTO_TLS1'', Num 1), (''CONFIG_ESP_GRATUITOUS_ARP'', Num 1),
     (''CONFIG_MBEDTLS_ECDSA_C'', Num 1), (''CONFIG_ESPTOOLPY_FLASHFREQ_40M'', Num 1),
     (''CONFIG_LOG_BOOTLOADER_LEVEL_INFO'', Num 1), (''CONFIG_HTTPD_MAX_REQ_HDR_LEN'', Num 512),
     (''CONFIG_BTDM_CONTROLLER_PINNED_TO_CORE'', Num 0), (''CONFIG_FREERTOS_THREAD_LOCAL_STORAGE_POINTERS'', Num 1),
     (''CONFIG_MBEDTLS_ECDH_C'', Num 1), (''CONFIG_MBEDTLS_KEY_EXCHANGE_ELLIPTIC_CURVE'', Num 1),
     (''CONFIG_ESP32_WIFI_STATIC_RX_BUFFER_NUM'', Num 10), (''CONFIG_MBEDTLS_SSL_ALPN'', Num 1),
     (''CONFIG_MBEDTLS_PEM_WRITE_C'', Num 1), (''CONFIG_LOG_DEFAULT_LEVEL_INFO'', Num 1),
     (''CONFIG_BT_RESERVE_DRAM'', Num 0x0), (''CONFIG_APP_COMPILE_TIME_DATE'', Num 1),
     (''CONFIG_FATFS_FS_LOCK'', Num 0), (''CONFIG_IP_LOST_TIMER_INTERVAL'', Num 120),
     (''CONFIG_SPIFFS_META_LENGTH'', Num 4), (''CONFIG_MB_CONTROLLER_NOTIFY_QUEUE_SIZE'', Num 20),
     (''CONFIG_MBEDTLS_ECP_DP_BP384R1_ENABLED'', Num 1), (''CONFIG_MBEDTLS_ECP_DP_SECP256K1_ENABLED'', Num 1),
     (''CONFIG_MB_SERIAL_BUF_SIZE'', Num 256), (''CONFIG_CONSOLE_UART_BAUDRATE'', Num 115200),
     (''CONFIG_LWIP_MAX_SOCKETS'', Num 10), (''CONFIG_LWIP_NETIF_LOOPBACK'', Num 1),
     (''CONFIG_ESP32_PTHREAD_TASK_NAME_DEFAULT'', Str ''pthread''), (''CONFIG_EMAC_TASK_PRIORITY'', Num 20),
     (''CONFIG_TIMER_TASK_STACK_DEPTH'', Num 2048), (''CONFIG_TCP_MSS'', Num 1436),
     (''CONFIG_MBEDTLS_ECP_DP_CURVE25519_ENABLED'', Num 1), (''CONFIG_BTDM_CONTROLLER_BLE_MAX_CONN_EFF'', Num 0),
     (''CONFIG_EFUSE_CODE_SCHEME_COMPAT_3_4'', Num 1), (''CONFIG_FATFS_CODEPAGE'', Num 437),
     (''CONFIG_ULP_COPROC_RESERVE_MEM'', Num 0), (''CONFIG_LWIP_MAX_UDP_PCBS'', Num 16),
     (''CONFIG_ESPTOOLPY_BAUD'', Num 2000000), (''CONFIG_INT_WDT_CHECK_CPU1'', Num 1),
     (''CONFIG_ADC_CAL_LUT_ENABLE'', Num 1), (''CONFIG_FLASHMODE_DIO'', Num 1),
     (''CONFIG_ESPTOOLPY_AFTER_RESET'', Num 1), (''CONFIG_OPTIMIZATION_ASSERTIONS_ENABLED'', Num 1),
     (''CONFIG_LWIP_DHCPS_MAX_STATION_NUM'', Num 32), (''CONFIG_TOOLPREFIX'', Str ''xtensa-esp32-elf-''),
     (''CONFIG_MBEDTLS_ECP_C'', Num 1), (''CONFIG_FREERTOS_IDLE_TASK_STACKSIZE'', Num 1024),
     (''CONFIG_MBEDTLS_RC4_DISABLED'', Num 1), (''CONFIG_CONSOLE_UART_NUM'', Num 0),
     (''CONFIG_ESP32_APPTRACE_LOCK_ENABLE'', Num 1), (''CONFIG_PTHREAD_STACK_MIN'', Num 768),
     (''CONFIG_ESP32_RTC_CLOCK_SOURCE_INTERNAL_RC'', Num 1), (''CONFIG_TCP_OVERSIZE_MSS'', Num 1),
     (''CONFIG_FOUR_UNIVERSAL_MAC_ADDRESS'', Num 1), (''CONFIG_CONSOLE_UART_DEFAULT'', Num 1),
     (''CONFIG_MBEDTLS_SSL_MAX_CONTENT_LEN'', Num 16384), (''CONFIG_NUMBER_OF_UNIVERSAL_MAC_ADDRESS'', Num 4),
     (''CONFIG_ESPTOOLPY_FLASHSIZE_DETECT'', Num 1), (''CONFIG_TIMER_TASK_STACK_SIZE'', Num 3584),
     (''CONFIG_ESP32_ENABLE_COREDUMP_TO_NONE'', Num 1), (''CONFIG_MBEDTLS_X509_CRL_PARSE_C'', Num 1),
     (''CONFIG_FREERTOS_CHECK_MUTEX_GIVEN_BY_OWNER'', Num 1), (''CONFIG_HTTPD_PURGE_BUF_LEN'', Num 32),
     (''CONFIG_UNITY_ENABLE_IDF_TEST_RUNNER'', Num 1), (''CONFIG_MB_SERIAL_TASK_STACK_SIZE'', Num 2048),
     (''CONFIG_LWIP_DHCPS_LEASE_UNIT'', Num 3600), (''CONFIG_EFUSE_MAX_BLK_LEN'', Num 192),
     (''CONFIG_SPIFFS_USE_MAGIC'', Num 1), (''CONFIG_TCPIP_TASK_STACK_SIZE'', Num 2048), (''CONFIG_TASK_WDT'', Num 1),
     (''CONFIG_MAIN_TASK_STACK_SIZE'', Num 4096), (''CONFIG_SPIFFS_PAGE_CHECK'', Num 1),
     (''CONFIG_ESP32_WIFI_TASK_PINNED_TO_CORE_0'', Num 1), (''CONFIG_LWIP_MAX_ACTIVE_TCP'', Num 16),
     (''CONFIG_TASK_WDT_TIMEOUT_S'', Num 5), (''CONFIG_INT_WDT_TIMEOUT_MS'', Num 700),
     (''CONFIG_ESPTOOLPY_FLASHMODE'', Str ''dio''), (''CONFIG_NEWLIB_STDIN_LINE_ENDING_CR'', Num 1),
     (''CONFIG_MBEDTLS_KEY_EXCHANGE_ECDH_RSA'', Num 1), (''CONFIG_ESPTOOLPY_BEFORE'', Str ''default_reset''),
     (''CONFIG_ADC2_DISABLE_DAC'', Num 1), (''CONFIG_ESP32_REV_MIN_0'', Num 1), (''CONFIG_LOG_DEFAULT_LEVEL'', Num 3),
     (''CONFIG_FREERTOS_ASSERT_ON_UNTESTED_FUNCTION'', Num 1), (''CONFIG_TIMER_QUEUE_LENGTH'', Num 10),
     (''CONFIG_ESP32_REV_MIN'', Num 0), (''CONFIG_SUPPRESS_SELECT_DEBUG_OUTPUT'', Num 1),
     (''CONFIG_TCPIP_TASK_AFFINITY_NO_AFFINITY'', Num 1), (''CONFIG_MAKE_WARN_UNDEFINED_VARIABLES'', Num 1),
     (''CONFIG_FATFS_TIMEOUT_MS'', Num 10000), (''CONFIG_ESP32_WIFI_DYNAMIC_RX_BUFFER_NUM'', Num 32),
     (''CONFIG_ESP_HTTP_CLIENT_ENABLE_HTTPS'', Num 1), (''CONFIG_MBEDTLS_CCM_C'', Num 1),
     (''CONFIG_SPI_MASTER_ISR_IN_IRAM'', Num 1), (''CONFIG_ESP32_PHY_MAX_WIFI_TX_POWER'', Num 20),
     (''CONFIG_ESP32_RTC_CLK_CAL_CYCLES'', Num 1024), (''CONFIG_ESP32_WIFI_TX_BA_WIN'', Num 6),
     (''CONFIG_ESP32_WIFI_NVS_ENABLED'', Num 1), (''CONFIG_MDNS_MAX_SERVICES'', Num 10),
     (''CONFIG_IDF_TARGET_ESP32'', Num 1), (''CONFIG_EMAC_CHECK_LINK_PERIOD_MS'', Num 2000),
     (''CONFIG_MBEDTLS_ECP_DP_SECP224R1_ENABLED'', Num 1), (''CONFIG_LIBSODIUM_USE_MBEDTLS_SHA'', Num 1),
     (''CONFIG_DMA_RX_BUF_NUM'', Num 10), (''CONFIG_MBEDTLS_ECP_DP_SECP384R1_ENABLED'', Num 1),
     (''CONFIG_TCP_SYNMAXRTX'', Num 6), (''CONFIG_MBEDTLS_KEY_EXCHANGE_ECDHE_ECDSA'', Num 1)]"

definition debug_options_2 :: sdkconfig where
  "debug_options_2 =
    [(''CONFIG_BTDM_CONTROLLER_BR_EDR_MAX_SYNC_CONN_EFF'', Num 0), (''CONFIG_PYTHON'', Str ''python''),
     (''CONFIG_MBEDTLS_ECP_NIST_OPTIM'', Num 1), (''CONFIG_ESP32_TIME_SYSCALL_USE_RTC_FRC1'', Num 1),
     (''CONFIG_ESPTOOLPY_COMPRESSED'', Num 1),
     (''CONFIG_PARTITION_TABLE_FILENAME'', Str ''partitions_singleapp.csv''),
     (''CONFIG_MB_CONTROLLER_STACK_SIZE'', Num 4096), (''CONFIG_TCP_SND_BUF_DEFAULT'', Num 5744),
     (''CONFIG_GARP_TMR_INTERVAL'', Num 60), (''CONFIG_LWIP_DHCP_MAX_NTP_SERVERS'', Num 1),
     (''CONFIG_TCP_MSL'', Num 60000), (''CONFIG_MBEDTLS_SSL_PROTO_TLS1_1'', Num 1),
     (''CONFIG_LWIP_SO_REUSE_RXTOALL'', Num 1), (''CONFIG_MB_CONTROLLER_NOTIFY_TIMEOUT'', Num 20),
     (''CONFIG_ESP32_WIFI_MGMT_SBUF_NUM'', Num 32), (''CONFIG_PARTITION_TABLE_SINGLE_APP'', Num 1),
     (''CONFIG_UNITY_ENABLE_FLOAT'', Num 1), (''CONFIG_ESP32_WIFI_RX_BA_WIN'', Num 6),
     (''CONFIG_MBEDTLS_X509_CSR_PARSE_C'', Num 1), (''CONFIG_SPIFFS_USE_MTIME'', Num 1),
     (''CONFIG_EMAC_TASK_STACK_SIZE'', Num 3072), (''CONFIG_MB_QUEUE_LENGTH'', Num 20),
     (''CONFIG_MBEDTLS_KEY_EXCHANGE_ECDHE_RSA'', Num 1), (''CONFIG_LWIP_DHCP_DOES_ARP_CHECK'', Num 1),
     (''CONFIG_FREERTOS_TASK_FUNCTION_WRAPPER'', Num 1), (''CONFIG_SYSTEM_EVENT_TASK_STACK_SIZE'', Num 2048),
     (''CONFIG_BOOTLOADER_VDDSDIO_BOOST_1_9V'', Num 1), (''CONFIG_ESP32_DEEP_SLEEP_WAKEUP_DELAY'', Num 2000),
     (''CONFIG_BROWNOUT_DET_LVL'', Num 0), (''CONFIG_MBEDTLS_PEM_PARSE_C'', Num 1),
     (''CONFIG_SPIFFS_GC_MAX_RUNS'', Num 10), (''CONFIG_ESP32_APPTRACE_DEST_NONE'', Num 1),
     (''CONFIG_MBEDTLS_INTERNAL_MEM_ALLOC'', Num 1), (''CONFIG_MBEDTLS_SSL_PROTO_TLS1_2'', Num 1),
     (''CONFIG_MBEDTLS_KEY_EXCHANGE_DHE_RSA'', Num 1), (''CONFIG_ESP32_WIFI_DYNAMIC_TX_BUFFER_NUM'', Num 32),
     (''CONFIG_HTTPD_MAX_URI_LEN'', Num 512), (''CONFIG_MBEDTLS_ECP_DP_BP256R1_ENABLED'', Num 1),
     (''CONFIG_MBEDTLS_ECP_DP_SECP224K1_ENABLED'', Num 1), (''CONFIG_TASK_WDT_CHECK_IDLE_TASK_CPU1'', Num 1),
     (''CONFIG_ESP32_DEFAULT_CPU_FREQ_MHZ'', Num 240), (''CONFIG_MBEDTLS_HARDWARE_AES'', Num 1),
     (''CONFIG_FREERTOS_HZ'', Num 1000), (''CONFIG_LOG_COLORS'', Num 1),
     (''CONFIG_ESP32_PHY_CALIBRATION_AND_DATA_STORAGE'', Num 1), (''CONFIG_ADC_CAL_EFUSE_TP_ENABLE'', Num 1),
     (''CONFIG_FREERTOS_ASSERT_FAIL_ABORT'', Num 1), (''CONFIG_BROWNOUT_DET'', Num 1),
     (''CONFIG_ESP32_XTAL_FREQ'', Num 40), (''CONFIG_MONITOR_BAUD_115200B'', Num 1),
     (''CONFIG_LOG_BOOTLOADER_LEVEL'', Num 3), (''CONFIG_MBEDTLS_TLS_ENABLED'', Num 1),
     (''CONFIG_LWIP_MAX_RAW_PCBS'', Num 16), (''CONFIG_MBEDTLS_SSL_SESSION_TICKETS'', Num 1),
     (''CONFIG_SPIFFS_MAX_PARTITIONS'', Num 3), (''CONFIG_ESP_ERR_TO_NAME_LOOKUP'', Num 1),
     (''CONFIG_MBEDTLS_SSL_RENEGOTIATION'', Num 1), (''CONFIG_ESPTOOLPY_BEFORE_RESET'', Num 1),
     (''CONFIG_MB_EVENT_QUEUE_TIMEOUT'', Num 20), (''CONFIG_ESPTOOLPY_BAUD_OTHER_VAL'', Num 115200),
     (''CONFIG_SPIFFS_OBJ_NAME_LEN'', Num 32), (''CONFIG_ESP32_PTHREAD_TASK_PRIO_DEFAULT'', Num 5),
     (''CONFIG_BTDM_CONTROLLER_BR_EDR_MAX_ACL_CONN_EFF'', Num 0), (''CONFIG_ESPTOOLPY_BAUD_2MB'', Num 1),
     (''CONFIG_PARTITION_TABLE_MD5'', Num 1), (''CONFIG_TCPIP_RECVMBOX_SIZE'', Num 32),
     (''CONFIG_ESP32_DEFAULT_CPU_FREQ_240'', Num 1), (''CONFIG_TCP_MAXRTX'', Num 12),
     (''CONFIG_ESPTOOLPY_AFTER'', Str ''hard_reset''), (''CONFIG_TCPIP_TASK_AFFINITY'', Num 0x7FFFFFFF),
     (''CONFIG_LWIP_SO_REUSE'', Num 1), (''CONFIG_ESP32_XTAL_FREQ_40'', Num 1), (''CONFIG_DMA_TX_BUF_NUM'', Num 10),
     (''CONFIG_LWIP_MAX_LISTENING_TCP'', Num 16), (''CONFIG_FREERTOS_INTERRUPT_BACKTRACE'', Num 1),
     (''CONFIG_WL_SECTOR_SIZE'', Num 4096), (''CONFIG_ESP32_DEBUG_OCDAWARE'', Num 1),
     (''CONFIG_MQTT_TRANSPORT_WEBSOCKET'', Num 1), (''CONFIG_TIMER_TASK_PRIORITY'', Num 1),
     (''CONFIG_MBEDTLS_TLS_CLIENT'', Num 1), (''CONFIG_ESP32_DEFAULT_PTHREAD_CORE_NO_AFFINITY'', Num 1),
     (''CONFIG_MBEDTLS_ECP_DP_SECP256R1_ENABLED'', Num 1), (''CONFIG_MONITOR_BAUD'', Num 115200),
     (''CONFIG_ESP32_PTHREAD_TASK_CORE_DEFAULT'', Num (-1)), (''CONFIG_ESP32_DEBUG_STUBS_ENABLE'', Num 1),
     (''CONFIG_TCPIP_LWIP'', Num 1), (''CONFIG_REDUCE_PHY_TX_POWER'', Num 1),
     (''CONFIG_BOOTLOADER_WDT_TIME_MS'', Num 9000), (''CONFIG_FREERTOS_CORETIMER_0'', Num 1),
     (''CONFIG_PARTITION_TABLE_CUSTOM_FILENAME'', Str ''partitions.csv''), (''CONFIG_MBEDTLS_HAVE_TIME'', Num 1),
     (''CONFIG_FREERTOS_CHECK_STACKOVERFLOW_CANARY'', Num 1), (''CONFIG_TCP_QUEUE_OOSEQ'', Num 1),
     (''CONFIG_ADC_CAL_EFUSE_VREF_ENABLE'', Num 1), (''CONFIG_MBEDTLS_TLS_SERVER'', Num 1),
     (''CONFIG_MBEDTLS_TLS_SERVER_AND_CLIENT'', Num 1), (''CONFIG_FREERTOS_ISR_STACKSIZE'', Num 1536),
     (''CONFIG_SUPPORT_TERMIOS'', Num 1), (''CONFIG_OPENSSL_ASSERT_DO_NOTHING'', Num 1),
     (''CONFIG_IDF_TARGET'', Str ''esp32''), (''CONFIG_WL_SECTOR_SIZE_4096'', Num 1),
     (''CONFIG_OPTIMIZATION_LEVEL_DEBUG'', Num 1), (''CONFIG_FREERTOS_NO_AFFINITY'', Num 0x7FFFFFFF),
     (''CONFIG_ESP32_WIFI_AMPDU_TX_ENABLED'', Num 1), (''CONFIG_HTTPD_ERR_RESP_NO_DELAY'', Num 1),
     (''CONFIG_MB_TIMER_INDEX'', Num 0), (''CONFIG_MBEDTLS_ECP_DP_SECP192R1_ENABLED'', Num 1),
     (''CONFIG_MBEDTLS_ECP_DP_BP512R1_ENABLED'', Num 1), (''CONFIG_MBEDTLS_KEY_EXCHANGE_ECDH_ECDSA'', Num 1),
     (''CONFIG_SPI_SLAVE_ISR_IN_IRAM'', Num 1), (''CONFIG_SYSTEM_EVENT_QUEUE_SIZE'', Num 32),
     (''CONFIG_ESP32_WIFI_TX_BUFFER_TYPE'', Num 1), (''CONFIG_BOOTLOADER_WDT_ENABLE'', Num 1),
     (''CONFIG_ESP32_WIFI_AMPDU_RX_ENABLED'', Num 1), (''CONFIG_LWIP_LOOPBACK_MAX_PBUFS'', Num 8),
     (''CONFIG_MB_TIMER_GROUP'', Num 0), (''CONFIG_SPI_FLASH_ROM_DRIVER_PATCH'', Num 1),
     (''CONFIG_MQTT_TRANSPORT_WEBSOCKET_SECURE'', Num 1), (''CONFIG_SPIFFS_PAGE_SIZE'', Num 256),
     (''CONFIG_MBEDTLS_ECP_DP_SECP192K1_ENABLED'', Num 1), (''CONFIG_ESP32_DPORT_WORKAROUND'', Num 1),
     (''CONFIG_TASK_WDT_CHECK_IDLE_TASK_CPU0'', Num 1), (''CONFIG_ESP32_PTHREAD_TASK_STACK_SIZE_DEFAULT'', Num 3072),
     (''CONFIG_LWIP_SO_RCVBUF'', Num 1), (''CONFIG_MB_TIMER_PORT_ENABLED'', Num 1),
     (''CONFIG_MONITOR_BAUD_OTHER_VAL'', Num 115200), (''CONFIG_NEWLIB_STDOUT_LINE_ENDING_CRLF'', Num 1),
     (''CONFIG_ESPTOOLPY_PORT'', Str ''/dev/ttyS6''), (''CONFIG_SPI_FLASH_WRITING_DANGEROUS_REGIONS_ABORTS'', Num 1),
     (''CONFIG_TASK_WDT_PANIC'', Num 1), (''CONFIG_UNITY_ENABLE_DOUBLE'', Num 1),
     (''CONFIG_ESP32_PANIC_PRINT_HALT'', Num 1), (''CONFIG_ESP32_WIFI_IRAM_OPT'', Num 1)]"

definition release_options_1 :: sdkconfig where
  "release_options_1 =
    [(''CONFIG_ESP32_PHY_MAX_TX_POWER'', Num 20), (''CONFIG_TRACEMEM_RESERVE_DRAM'', Num 0x0),
     (''CONFIG_FREERTOS_MAX_TASK_NAME_LEN'', Num 16), (''CONFIG_MQTT_TRANSPORT_SSL'', Num 1),
     (''CONFIG_FATFS_LFN_NONE'', Num 1), (''CONFIG_STACK_CHECK'', Num 1), (''CONFIG_MB_SERIAL_TASK_PRIO'', Num 10),
     (''CONFIG_MQTT_PROTOCOL_311'', Num 1), (''CONFIG_TCP_RECVMBOX_SIZE'', Num 6),
     (''CONFIG_FATFS_CODEPAGE_437'', Num 1), (''CONFIG_LWIP_ETHARP_TRUST_IP_MAC'', Num 1),
     (''CONFIG_STACK_CHECK_NORM'', Num 1), (''CONFIG_TCP_WND_DEFAULT'', Num 5744),
     (''CONFIG_PARTITION_TABLE_OFFSET'', Num 0x8000), (''CONFIG_SPIFFS_USE_MAGIC_LENGTH'', Num 1),
     (''CONFIG_ESPTOOLPY_FLASHSIZE_4MB'', Num 1), (''CONFIG_IPC_TASK_STACK_SIZE'', Num 1024),
     (''CONFIG_WIFI_PROV_SCAN_MAX_ENTRIES'', Num 16), (''CONFIG_FATFS_PER_FILE_CACHE'', Num 1),
     (''CONFIG_ESPTOOLPY_FLASHFREQ'', Str ''40m''), (''CONFIG_MBEDTLS_KEY_EXCHANGE_RSA'', Num 1),
     (''CONFIG_UDP_RECVMBOX_SIZE'', Num 6), (''CONFIG_FREERTOS_QUEUE_REGISTRY_SIZE'', Num 0),
     (''CONFIG_MBEDTLS_AES_C'', Num 1), (''CONFIG_MBEDTLS_ECP_DP_SECP521R1_ENABLED'', Num 1),
     (''CONFIG_ESP32_WIFI_SOFTAP_BEACON_MAX_LEN'', Num 752), (''CONFIG_MBEDTLS_GCM_C'', Num 1),
     (''CONFIG_ESPTOOLPY_FLASHSIZE'', Str ''4MB''), (''CONFIG_HEAP_POISONING_DISABLED'', Num 1),
     (''CONFIG_SPIFFS_CACHE_WR'', Num 1), (''CONFIG_BROWNOUT_DET_LVL_SEL_0'', Num 1),
     (''CONFIG_ESP32_WIFI_DYNAMIC_TX_BUFFER'', Num 1), (''CONFIG_SPIFFS_CACHE'', Num 1), (''CONFIG_INT_WDT'', Num 1),
     (''CONFIG_MBEDTLS_SSL_PROTO_TLS1'', Num 1), (''CONFIG_ESP_GRATUITOUS_ARP'', Num 1),
     (''CONFIG_MBEDTLS_ECDSA_C'', Num 1), (''CONFIG_ESPTOOLPY_FLASHFREQ_40M'', Num 1),
     (''CONFIG_HTTPD_MAX_REQ_HDR_LEN'', Num 512), (''CONFIG_BTDM_CONTROLLER_PINNED_TO_CORE'', Num 0),
     (''CONFIG_FREERTOS_THREAD_LOCAL_STORAGE_POINTERS'', Num 1), (''CONFIG_MBEDTLS_ECDH_C'', Num 1),
     (''CONFIG_MBEDTLS_KEY_EXCHANGE_ELLIPTIC_CURVE'', Num 1), (''CONFIG_ESP32_WIFI_STATIC_RX_BUFFER_NUM'', Num 10),
     (''CONFIG_MBEDTLS_SSL_ALPN'', Num 1), (''CONFIG_MBEDTLS_PEM_WRITE_C'', Num 1),
     (''CONFIG_LOG_DEFAULT_LEVEL_INFO'', Num 1), (''CONFIG_BT_RESERVE_DRAM'', Num 0x0),
     (''CONFIG_APP_COMPILE_TIME_DATE'', Num 1), (''CONFIG_LOG_BOOTLOADER_LEVEL_ERROR'', Num 1),
     (''CONFIG_FATFS_FS_LOCK'', Num 0), (''CONFIG_IP_LOST_TIMER_INTERVAL'', Num 120),
     (''CONFIG_SPIFFS_META_LENGTH'', Num 4), (''CONFIG_MB_CONTROLLER_NOTIFY_QUEUE_SIZE'', Num 20),
     (''CONFIG_MBEDTLS_ECP_DP_BP384R1_ENABLED'', Num 1), (''CONFIG_MBEDTLS_ECP_DP_SECP256K1_ENABLED'', Num 1),
     (''CONFIG_MB_SERIAL_BUF_SIZE'', Num 256), (''CONFIG_CONSOLE_UART_BAUDRATE'', Num 115200),
     (''CONFIG_LWIP_MAX_SOCKETS'', Num 10), (''CONFIG_LWIP_NETIF_LOOPBACK'', Num 1),
     (''CONFIG_ESP32_PTHREAD_TASK_NAME_DEFAULT'', Str ''pthread''), (''CONFIG_EMAC_TASK_PRIORITY'', Num 20),
     (''CONFIG_TIMER_TASK_STACK_DEPTH'', Num 2048), (''CONFIG_TCP_MSS'', Num 1436),
     (''CONFIG_MBEDTLS_ECP_DP_CURVE25519_ENABLED'', Num 1), (''CONFIG_BTDM_CONTROLLER_BLE_MAX_CONN_EFF'', Num 0),
     (''CONFIG_EFUSE_CODE_SCHEME_COMPAT_3_4'', Num 1), (''CONFIG_FATFS_CODEPAGE'', Num 437),
     (''CONFIG_ULP_COPROC_RESERVE_MEM'', Num 0), (''CONFIG_LWIP_MAX_UDP_PCBS'', Num 16),
     (''CONFIG_ESPTOOLPY_BAUD'', Num 2000000), (''CONFIG_INT_WDT_CHECK_CPU1'', Num 1),
     (''CONFIG_ADC_CAL_LUT_ENABLE'', Num 1), (''CONFIG_FLASHMODE_DIO'', Num 1),
     (''CONFIG_ESPTOOLPY_AFTER_RESET'', Num 1), (''CONFIG_OPTIMIZATION_ASSERTIONS_ENABLED'', Num 1),
     (''CONFIG_LWIP_DHCPS_MAX_STATION_NUM'', Num 32), (''CONFIG_TOOLPREFIX'', Str ''xtensa-esp32-elf-''),
     (''CONFIG_MBEDTLS_ECP_C'', Num 1), (''CONFIG_FREERTOS_IDLE_TASK_STACKSIZE'', Num 1024),
     (''CONFIG_MBEDTLS_RC4_DISABLED'', Num 1), (''CONFIG_CONSOLE_UART_NUM'', Num 0),
     (''CONFIG_ESP32_APPTRACE_LOCK_ENABLE'', Num 1), (''CONFIG_PTHREAD_STACK_MIN'', Num 768),
     (''CONFIG_ESP32_RTC_CLOCK_SOURCE_INTERNAL_RC'', Num 1), (''CONFIG_TCP_OVERSIZE_MSS'', Num 1),
     (''CONFIG_FOUR_UNIVERSAL_MAC_ADDRESS'', Num 1), (''CONFIG_CONSOLE_UART_DEFAULT'', Num 1),
     (''CONFIG_MBEDTLS_SSL_MAX_CONTENT_LEN'', Num 16384), (''CONFIG_NUMBER_OF_UNIVERSAL_MAC_ADDRESS'', Num 4),
     (''CONFIG_ESPTOOLPY_FLASHSIZE_DETECT'', Num 1), (''CONFIG_TIMER_TASK_STACK_SIZE'', Num 3584),
     (''CONFIG_ESP32_ENABLE_COREDUMP_TO_NONE'', Num 1), (''CONFIG_MBEDTLS_X509_CRL_PARSE_C'', Num 1),
     (''CONFIG_FREERTOS_CHECK_MUTEX_GIVEN_BY_OWNER'', Num 1), (''CONFIG_HTTPD_PURGE_BUF_LEN'', Num 32),
     (''CONFIG_UNITY_ENABLE_IDF_TEST_RUNNER'', Num 1), (''CONFIG_MB_SERIAL_TASK_STACK_SIZE'', Num 2048),
     (''CONFIG_LWIP_DHCPS_LEASE_UNIT'', Num 3600), (''CONFIG_EFUSE_MAX_BLK_LEN'', Num 192),
     (''CONFIG_SPIFFS_USE_MAGIC'', Num 1), (''CONFIG_TCPIP_TASK_STACK_SIZE'', Num 2048), (''CONFIG_TASK_WDT'', Num 1),
     (''CONFIG_MAIN_TASK_STACK_SIZE'', Num 4096), (''CONFIG_SPIFFS_PAGE_CHECK'', Num 1),
     (''CONFIG_ESP32_WIFI_TASK_PINNED_TO_CORE_0'', Num 1), (''CONFIG_LWIP_MAX_ACTIVE_TCP'', Num 16),
     (''CONFIG_TASK_WDT_TIMEOUT_S'', Num 5), (''CONFIG_INT_WDT_TIMEOUT_MS'', Num 700),
     (''CONFIG_ESPTOOLPY_FLASHMODE'', Str ''dio''), (''CONFIG_NEWLIB_STDIN_LINE_ENDING_CR'', Num 1),
     (''CONFIG_MBEDTLS_KEY_EXCHANGE_ECDH_RSA'', Num 1), (''CONFIG_ESPTOOLPY_BEFORE'', Str ''default_reset''),
     (''CONFIG_ADC2_DISABLE_DAC'', Num 1), (''CONFIG_ESP32_REV_MIN_0'', Num 1), (''CONFIG_LOG_DEFAULT_LEVEL'', Num 3),
     (''CONFIG_FREERTOS_ASSERT_ON_UNTESTED_FUNCTION'', Num 1), (''CONFIG_TIMER_QUEUE_LENGTH'', Num 10),
     (''CONFIG_ESP32_REV_MIN'', Num 0), (''CONFIG_SUPPRESS_SELECT_DEBUG_OUTPUT'', Num 1),
     (''CONFIG_TCPIP_TASK_AFFINITY_NO_AFFINITY'', Num 1), (''CONFIG_MAKE_WARN_UNDEFINED_VARIABLES'', Num 1),
     (''CONFIG_FATFS_TIMEOUT_MS'', Num 10000), (''CONFIG_ESP32_WIFI_DYNAMIC_RX_BUFFER_NUM'', Num 32),
     (''CONFIG_ESP_HTTP_CLIENT_ENABLE_HTTPS'', Num 1), (''CONFIG_MBEDTLS_CCM_C'', Num 1),
     (''CONFIG_SPI_MASTER_ISR_IN_IRAM'', Num 1), (''CONFIG_ESP32_PHY_MAX_WIFI_TX_POWER'', Num 20),
     (''CONFIG_ESP32_RTC_CLK_CAL_CYCLES'', Num 1024), (''CONFIG_ESP32_WIFI_TX_BA_WIN'', Num 6),
     (''CONFIG_ESP32_WIFI_NVS_ENABLED'', Num 1), (''CONFIG_MDNS_MAX_SERVICES'', Num 10),
     (''CONFIG_IDF_TARGET_ESP32'', Num 1), (''CONFIG_EMAC_CHECK_LINK_PERIOD_MS'', Num 2000),
     (''CONFIG_MBEDTLS_ECP_DP_SECP224R1_ENABLED'', Num 1), (''CONFIG_LIBSODIUM_USE_MBEDTLS_SHA'', Num 1),
     (''CONFIG_DMA_RX_BUF_NUM'', Num 10), (''CONFIG_MBEDTLS_ECP_DP_SECP384R1_ENABLED'', Num 1),
     (''CONFIG_TCP_SYNMAXRTX'', Num 6), (''CONFIG_ESP32_PANIC_SILENT_REBOOT'', Num 1)]"

definition release_options_2 :: sdkconfig where
  "release_options_2 =
    [(''CONFIG_MBEDTLS_KEY_EXCHANGE_ECDHE_ECDSA'', Num 1),
     (''CONFIG_BTDM_CONTROLLER_BR_EDR_MAX_SYNC_CONN_EFF'', Num 0), (''CONFIG_PYTHON'', Str ''python''),
     (''CONFIG_MBEDTLS_ECP_NIST_OPTIM'', Num 1), (''CONFIG_ESP32_TIME_SYSCALL_USE_RTC_FRC1'', Num 1),
     (''CONFIG_ESPTOOLPY_COMPRESSED'', Num 1),
     (''CONFIG_PARTITION_TABLE_FILENAME'', Str ''partitions_singleapp.csv''),
     (''CONFIG_MB_CONTROLLER_STACK_SIZE'', Num 4096), (''CONFIG_TCP_SND_BUF_DEFAULT'', Num 5744),
     (''CONFIG_GARP_TMR_INTERVAL'', Num 60), (''CONFIG_LWIP_DHCP_MAX_NTP_SERVERS'', Num 1),
     (''CONFIG_TCP_MSL'', Num 60000), (''CONFIG_MBEDTLS_SSL_PROTO_TLS1_1'', Num 1),
     (''CONFIG_LWIP_SO_REUSE_RXTOALL'', Num 1), (''CONFIG_MB_CONTROLLER_NOTIFY_TIMEOUT'', Num 20),
     (''CONFIG_ESP32_WIFI_MGMT_SBUF_NUM'', Num 32), (''CONFIG_PARTITION_TABLE_SINGLE_APP'', Num 1),
     (''CONFIG_UNITY_ENABLE_FLOAT'', Num 1), (''CONFIG_ESP32_WIFI_RX_BA_WIN'', Num 6),
     (''CONFIG_MBEDTLS_X509_CSR_PARSE_C'', Num 1), (''CONFIG_SPIFFS_USE_MTIME'', Num 1),
     (''CONFIG_EMAC_TASK_STACK_SIZE'', Num 3072), (''CONFIG_MB_QUEUE_LENGTH'', Num 20),
     (''CONFIG_MBEDTLS_KEY_EXCHANGE_ECDHE_RSA'', Num 1), (''CONFIG_LWIP_DHCP_DOES_ARP_CHECK'', Num 1),
     (''CONFIG_SYSTEM_EVENT_TASK_STACK_SIZE'', Num 2048), (''CONFIG_BOOTLOADER_VDDSDIO_BOOST_1_9V'', Num 1),
     (''CONFIG_ESP32_DEEP_SLEEP_WAKEUP_DELAY'', Num 2000), (''CONFIG_BROWNOUT_DET_LVL'', Num 0),
     (''CONFIG_MBEDTLS_PEM_PARSE_C'', Num 1), (''CONFIG_SPIFFS_GC_MAX_RUNS'', Num 10),
     (''CONFIG_ESP32_APPTRACE_DEST_NONE'', Num 1), (''CONFIG_MBEDTLS_INTERNAL_MEM_ALLOC'', Num 1),
     (''CONFIG_MBEDTLS_SSL_PROTO_TLS1_2'', Num 1), (''CONFIG_MBEDTLS_KEY_EXCHANGE_DHE_RSA'', Num 1),
     (''CONFIG_ESP32_WIFI_DYNAMIC_TX_BUFFER_NUM'', Num 32), (''CONFIG_HTTPD_MAX_URI_LEN'', Num 512),
     (''CONFIG_MBEDTLS_ECP_DP_BP256R1_ENABLED'', Num 1), (''CONFIG_MBEDTLS_ECP_DP_SECP224K1_ENABLED'', Num 1),
     (''CONFIG_TASK_WDT_CHECK_IDLE_TASK_CPU1'', Num 1), (''CONFIG_ESP32_DEFAULT_CPU_FREQ_MHZ'', Num 240),
     (''CONFIG_MBEDTLS_HARDWARE_AES'', Num 1), (''CONFIG_FREERTOS_HZ'', Num 1000), (''CONFIG_LOG_COLORS'', Num 1),
     (''CONFIG_ESP32_PHY_CALIBRATION_AND_DATA_STORAGE'', Num 1), (''CONFIG_ADC_CAL_EFUSE_TP_ENABLE'', Num 1),
     (''CONFIG_FREERTOS_ASSERT_FAIL_ABORT'', Num 1), (''CONFIG_BROWNOUT_DET'', Num 1),
     (''CONFIG_ESP32_XTAL_FREQ'', Num 40), (''CONFIG_MONITOR_BAUD_115200B'', Num 1),
     (''CONFIG_LOG_BOOTLOADER_LEVEL'', Num 1), (''CONFIG_MBEDTLS_TLS_ENABLED'', Num 1),
     (''CONFIG_LWIP_MAX_RAW_PCBS'', Num 16), (''CONFIG_MBEDTLS_SSL_SESSION_TICKETS'', Num 1),
     (''CONFIG_SPIFFS_MAX_PARTITIONS'', Num 3), (''CONFIG_ESP_ERR_TO_NAME_LOOKUP'', Num 1),
     (''CONFIG_MBEDTLS_SSL_RENEGOTIATION'', Num 1), (''CONFIG_ESPTOOLPY_BEFORE_RESET'', Num 1),
     (''CONFIG_MB_EVENT_QUEUE_TIMEOUT'', Num 20), (''CONFIG_ESPTOOLPY_BAUD_OTHER_VAL'', Num 115200),
     (''CONFIG_SPIFFS_OBJ_NAME_LEN'', Num 32), (''CONFIG_ESP32_PTHREAD_TASK_PRIO_DEFAULT'', Num 5),
     (''CONFIG_BTDM_CONTROLLER_BR_EDR_MAX_ACL_CONN_EFF'', Num 0), (''CONFIG_ESPTOOLPY_BAUD_2MB'', Num 1),
     (''CONFIG_PARTITION_TABLE_MD5'', Num 1), (''CONFIG_TCPIP_RECVMBOX_SIZE'', Num 32),
     (''CONFIG_ESP32_DEFAULT_CPU_FREQ_240'', Num 1), (''CONFIG_TCP_MAXRTX'', Num 12),
     (''CONFIG_ESPTOOLPY_AFTER'', Str ''hard_reset''), (''CONFIG_TCPIP_TASK_AFFINITY'', Num 0x7FFFFFFF),
     (''CONFIG_LWIP_SO_REUSE'', Num 1), (''CONFIG_ESP32_XTAL_FREQ_40'', Num 1), (''CONFIG_DMA_TX_BUF_NUM'', Num 10),
     (''CONFIG_LWIP_MAX_LISTENING_TCP'', Num 16), (''CONFIG_FREERTOS_INTERRUPT_BACKTRACE'', Num 1),
     (''CONFIG_WL_SECTOR_SIZE'', Num 4096), (''CONFIG_ESP32_DEBUG_OCDAWARE'', Num 1),
     (''CONFIG_MQTT_TRANSPORT_WEBSOCKET'', Num 1), (''CONFIG_TIMER_TASK_PRIORITY'', Num 1),
     (''CONFIG_MBEDTLS_TLS_CLIENT'', Num 1), (''CONFIG_ESP32_DEFAULT_PTHREAD_CORE_NO_AFFINITY'', Num 1),
     (''CONFIG_MBEDTLS_ECP_DP_SECP256R1_ENABLED'', Num 1), (''CONFIG_MONITOR_BAUD'', Num 115200),
     (''CONFIG_ESP32_PTHREAD_TASK_CORE_DEFAULT'', Num (-1)), (''CONFIG_ESP32_DEBUG_STUBS_ENABLE'', Num 1),
     (''CONFIG_TCPIP_LWIP'', Num 1), (''CONFIG_REDUCE_PHY_TX_POWER'', Num 1),
     (''CONFIG_BOOTLOADER_WDT_TIME_MS'', Num 9000), (''CONFIG_FREERTOS_CORETIMER_0'', Num 1),
     (''CONFIG_PARTITION_TABLE_CUSTOM_FILENAME'', Str ''partitions.csv''), (''CONFIG_MBEDTLS_HAVE_TIME'', Num 1),
     (''CONFIG_FREERTOS_CHECK_STACKOVERFLOW_CANARY'', Num 1), (''CONFIG_TCP_QUEUE_OOSEQ'', Num 1),
     (''CONFIG_ADC_CAL_EFUSE_VREF_ENABLE'', Num 1), (''CONFIG_MBEDTLS_TLS_SERVER'', Num 1),
     (''CONFIG_MBEDTLS_TLS_SERVER_AND_CLIENT'', Num 1), (''CONFIG_FREERTOS_ISR_STACKSIZE'', Num 1536),
     (''CONFIG_SUPPORT_TERMIOS'', Num 1), (''CONFIG_OPENSSL_ASSERT_DO_NOTHING'', Num 1),
     (''CONFIG_IDF_TARGET'', Str ''esp32''), (''CONFIG_WL_SECTOR_SIZE_4096'', Num 1),
     (''CONFIG_FREERTOS_NO_AFFINITY'', Num 0x7FFFFFFF), (''CONFIG_ESP32_WIFI_AMPDU_TX_ENABLED'', Num 1),
     (''CONFIG_HTTPD_ERR_RESP_NO_DELAY'', Num 1), (''CONFIG_MB_TIMER_INDEX'', Num 0),
     (''CONFIG_MBEDTLS_ECP_DP_SECP192R1_ENABLED'', Num 1), (''CONFIG_MBEDTLS_ECP_DP_BP512R1_ENABLED'', Num 1),
     (''CONFIG_MBEDTLS_KEY_EXCHANGE_ECDH_ECDSA'', Num 1), (''CONFIG_SPI_SLAVE_ISR_IN_IRAM'', Num 1),
     (''CONFIG_SYSTEM_EVENT_QUEUE_SIZE'', Num 32), (''CONFIG_ESP32_WIFI_TX_BUFFER_TYPE'', Num 1),
     (''CONFIG_BOOTLOADER_WDT_ENABLE'', Num 1), (''CONFIG_ESP32_WIFI_AMPDU_RX_ENABLED'', Num 1),
     (''CONFIG_LWIP_LOOPBACK_MAX_PBUFS'', Num 8), (''CONFIG_MB_TIMER_GROUP'', Num 0),
     (''CONFIG_SPI_FLASH_ROM_DRIVER_PATCH'', Num 1), (''CONFIG_MQTT_TRANSPORT_WEBSOCKET_SECURE'', Num 1),
     (''CONFIG_SPIFFS_PAGE_SIZE'', Num 256), (''CONFIG_MBEDTLS_ECP_DP_SECP192K1_ENABLED'', Num 1),
     (''CONFIG_ESP32_DPORT_WORKAROUND'', Num 1), (''CONFIG_TASK_WDT_CHECK_IDLE_TASK_CPU0'', Num 1),
     (''CONFIG_ESP32_PTHREAD_TASK_STACK_SIZE_DEFAULT'', Num 3072), (''CONFIG_LWIP_SO_RCVBUF'', Num 1),
     (''CONFIG_MB_TIMER_PORT_ENABLED'', Num 1), (''CONFIG_MONITOR_BAUD_OTHER_VAL'', Num 115200),
     (''CONFIG_NEWLIB_STDOUT_LINE_ENDING_CRLF'', Num 1), (''CONFIG_ESPTOOLPY_PORT'', Str ''/dev/ttyS6''),
     (''CONFIG_SPI_FLASH_WRITING_DANGEROUS_REGIONS_ABORTS'', Num 1), (''CONFIG_OPTIMIZATION_LEVEL_RELEASE'', Num 1),
     (''CONFIG_TASK_WDT_PANIC'', Num 1), (''CONFIG_UNITY_ENABLE_DOUBLE'', Num 1),
     (''CONFIG_ESP32_WIFI_IRAM_OPT'', Num 1)]"

definition debug_config :: sdkconfig where
  "debug_config = debug_options_1 @ debug_options_2"

definition release_config :: sdkconfig where
  "release_config = release_options_1 @ release_options_2"

section \<open>The conditions of the code\<close>

text \<open>\<^verbatim>\<open>#ifdef\<close>, and the value of a macro in \<^verbatim>\<open>#if\<close>, which is 0 where it is not defined.\<close>

definition defined :: "sdkconfig \<Rightarrow> string \<Rightarrow> bool" where
  "defined cfg n \<longleftrightarrow> n \<in> fst ` set cfg"

definition macro :: "sdkconfig \<Rightarrow> string \<Rightarrow> int" where
  "macro cfg n = (case map_of cfg n of Some (Num v) \<Rightarrow> v | _ \<Rightarrow> 0)"

text \<open>The SPI driver's locks, the I2C and watchdog code, and the number of cores of a build; the length
  of a tick and \<^verbatim>\<open>portNUM_PROCESSORS\<close> are documented functions of two options.\<close>

definition hal_locks :: "sdkconfig \<Rightarrow> bool" where
  "hal_locks cfg \<longleftrightarrow> \<not> macro cfg ''CONFIG_DISABLE_HAL_LOCKS'' \<noteq> 0"

definition i2c_build :: "sdkconfig \<Rightarrow> i2c_env \<Rightarrow> i2c_env" where
  "i2c_build cfg E = E\<lparr>CONFIG_PATCH_I2C_CLOCK := defined cfg ''CONFIG_PATCH_I2C_CLOCK'',
     portTICK_PERIOD_MS := nat (1000 div macro cfg ''CONFIG_FREERTOS_HZ'')\<rparr>"

definition wdt_build :: "sdkconfig \<Rightarrow> ('c, 'w) wdt_env \<Rightarrow> ('c, 'w) wdt_env" where
  "wdt_build cfg E = E\<lparr>check_idle_cpu0 := defined cfg ''CONFIG_TASK_WDT_CHECK_IDLE_TASK_CPU0'',
     check_idle_cpu1 := defined cfg ''CONFIG_TASK_WDT_CHECK_IDLE_TASK_CPU1''\<rparr>"

definition cores :: "sdkconfig \<Rightarrow> nat" where
  "cores cfg = (if defined cfg ''CONFIG_FREERTOS_UNICORE'' then 1 else 2)"

text \<open>The documented start-up code of the SDK: with \<^verbatim>\<open>CONFIG_TASK_WDT\<close> the task watchdog runs before
  the program does and watches the idle tasks whose checks are defined.\<close>

definition boot_tasks :: "sdkconfig \<Rightarrow> ('c, 'w) wdt_env \<Rightarrow> nat set option" where
  "boot_tasks cfg E = (if defined cfg ''CONFIG_TASK_WDT'' then Some (idles (wdt_build cfg E)) else None)"

section \<open>Looking options up\<close>

lemmas config_defs = debug_config_def release_config_def debug_options_1_def debug_options_2_def
  release_options_1_def release_options_2_def

lemma option_here: "n \<in> fst ` set ((n, v) # xs)" by simp

lemma option_later: "n \<in> fst ` set xs \<Longrightarrow> n \<in> fst ` set (x # xs)" by simp

lemma option_absent: "n \<noteq> a \<Longrightarrow> n \<notin> fst ` set xs \<Longrightarrow> n \<notin> fst ` set ((a, v) # xs)" by auto

lemma option_none: "n \<notin> fst ` set []" by simp

lemma lookup_here: "map_of ((n, v) # xs) n = Some v" by simp

lemma lookup_later: "n \<noteq> a \<Longrightarrow> map_of xs n = r \<Longrightarrow> map_of ((a, v) # xs) n = r" by simp

lemma agree_same: "map_of xs n = map_of ys n \<Longrightarrow> map_of (x # xs) n = map_of (x # ys) n"
  by simp

lemma agree_left: "n \<noteq> a \<Longrightarrow> map_of xs n = map_of ys n \<Longrightarrow> map_of ((a, v) # xs) n = map_of ys n"
  by simp

lemma agree_right: "n \<noteq> a \<Longrightarrow> map_of xs n = map_of ys n \<Longrightarrow> map_of xs n = map_of ((a, v) # ys) n"
  by simp

lemma defines_map_of: "defined cfg n \<longleftrightarrow> map_of cfg n \<noteq> None"
  by (simp add: defined_def map_of_eq_None_iff)

text \<open>The options of the optimisation and diagnostics of a build.\<close>

definition build_options :: "string list" where
  "build_options = [''CONFIG_LOG_BOOTLOADER_LEVEL_INFO'', ''CONFIG_LOG_BOOTLOADER_LEVEL_ERROR'',
     ''CONFIG_LOG_BOOTLOADER_LEVEL'', ''CONFIG_ESP32_PANIC_SILENT_REBOOT'', ''CONFIG_ESP32_PANIC_PRINT_HALT'',
     ''CONFIG_FREERTOS_TASK_FUNCTION_WRAPPER'', ''CONFIG_OPTIMIZATION_LEVEL_DEBUG'',
     ''CONFIG_OPTIMIZATION_LEVEL_RELEASE'']"

lemma configs_agree:
  assumes "n \<notin> set build_options"
  shows "map_of debug_config n = map_of release_config n"
proof -
  have d: "n \<noteq> ''CONFIG_LOG_BOOTLOADER_LEVEL_INFO''" "n \<noteq> ''CONFIG_LOG_BOOTLOADER_LEVEL_ERROR''"
     "n \<noteq> ''CONFIG_LOG_BOOTLOADER_LEVEL''" "n \<noteq> ''CONFIG_ESP32_PANIC_SILENT_REBOOT''"
     "n \<noteq> ''CONFIG_ESP32_PANIC_PRINT_HALT''" "n \<noteq> ''CONFIG_FREERTOS_TASK_FUNCTION_WRAPPER''"
     "n \<noteq> ''CONFIG_OPTIMIZATION_LEVEL_DEBUG''" "n \<noteq> ''CONFIG_OPTIMIZATION_LEVEL_RELEASE''"
    using assms unfolding build_options_def by simp_all
  show ?thesis
    unfolding config_defs append.simps
    by ((rule agree_same | (rule agree_left, rule d) | (rule agree_right, rule d))+, rule refl)
qed

lemma debug_defines:
  "defined debug_config ''CONFIG_TASK_WDT''"
  "defined debug_config ''CONFIG_TASK_WDT_CHECK_IDLE_TASK_CPU0''"
  "defined debug_config ''CONFIG_TASK_WDT_CHECK_IDLE_TASK_CPU1''"
  unfolding defined_def config_defs append.simps by (rule option_here option_later)+

lemma debug_not_defines:
  "\<not> defined debug_config ''CONFIG_PATCH_I2C_CLOCK''"
  "\<not> defined debug_config ''CONFIG_DISABLE_HAL_LOCKS''"
  "\<not> defined debug_config ''CONFIG_FREERTOS_UNICORE''"
  unfolding defined_def config_defs append.simps
  by ((rule option_absent, simp only: list.inject char.inject simp_thms)+, rule option_none)+

lemma debug_ticks: "map_of debug_config ''CONFIG_FREERTOS_HZ'' = Some (Num 1000)"
  unfolding config_defs append.simps
  by (rule lookup_here | (rule lookup_later, simp only: list.inject char.inject simp_thms))+

text \<open>The options that the code depends on.\<close>

definition tested_options :: "string list" where
  "tested_options = [''CONFIG_TASK_WDT'', ''CONFIG_TASK_WDT_CHECK_IDLE_TASK_CPU0'',
     ''CONFIG_TASK_WDT_CHECK_IDLE_TASK_CPU1'', ''CONFIG_PATCH_I2C_CLOCK'', ''CONFIG_DISABLE_HAL_LOCKS'',
     ''CONFIG_FREERTOS_UNICORE'', ''CONFIG_FREERTOS_HZ'']"

lemma tested_agree:
  assumes "n \<in> set tested_options"
  shows "map_of release_config n = map_of debug_config n"
proof -
  have "n \<notin> set build_options"
    using assms by (auto simp: tested_options_def build_options_def)
  then show ?thesis by (rule configs_agree [symmetric])
qed

lemma tested_defines: "n \<in> set tested_options \<Longrightarrow> defined release_config n = defined debug_config n"
  by (simp add: defines_map_of tested_agree)

section \<open>The builds\<close>

lemma both_builds:
  assumes "cfg \<in> {debug_config, release_config}"
  shows "hal_locks cfg" and "\<not> CONFIG_PATCH_I2C_CLOCK (i2c_build cfg E)"
    and "idles (wdt_build cfg W) = {idle_task W 0, idle_task W 1}"
    and "boot_tasks cfg W = Some {idle_task W 0, idle_task W 1}"
    and "cores cfg = 2" and "portTICK_PERIOD_MS (i2c_build cfg E) = 1"
proof -
  have d: "defined cfg n = defined debug_config n" "map_of cfg n = map_of debug_config n"
    if "n \<in> set tested_options" for n
    using that assms tested_defines tested_agree by auto
  have t: "''CONFIG_TASK_WDT'' \<in> set tested_options" "''CONFIG_TASK_WDT_CHECK_IDLE_TASK_CPU0'' \<in> set tested_options"
    "''CONFIG_TASK_WDT_CHECK_IDLE_TASK_CPU1'' \<in> set tested_options"
    "''CONFIG_PATCH_I2C_CLOCK'' \<in> set tested_options" "''CONFIG_DISABLE_HAL_LOCKS'' \<in> set tested_options"
    "''CONFIG_FREERTOS_UNICORE'' \<in> set tested_options" "''CONFIG_FREERTOS_HZ'' \<in> set tested_options"
    by (simp_all add: tested_options_def)
  show "hal_locks cfg"
    using debug_not_defines(2) d(2) [OF t(5)] by (simp add: hal_locks_def macro_def defines_map_of)
  show "\<not> CONFIG_PATCH_I2C_CLOCK (i2c_build cfg E)"
    using debug_not_defines(1) d(1) [OF t(4)] by (simp add: i2c_build_def)
  show i: "idles (wdt_build cfg W) = {idle_task W 0, idle_task W 1}"
    using debug_defines d(1) t by (auto simp: wdt_build_def idles_def)
  show "boot_tasks cfg W = Some {idle_task W 0, idle_task W 1}"
    using debug_defines(1) d(1) [OF t(1)] i by (simp add: boot_tasks_def)
  show "cores cfg = 2"
    using debug_not_defines(3) d(1) [OF t(6)] by (simp add: cores_def)
  show "portTICK_PERIOD_MS (i2c_build cfg E) = 1"
    using debug_ticks d(2) [OF t(7)] by (simp add: i2c_build_def macro_def)
qed

lemma wdt_build_ok: "wdt_ok (wdt_build cfg E) subs = wdt_ok E subs"
  by (simp add: wdt_ok_def wdt_build_def)

text \<open>Property C25. The two builds configure the same program: outside the options of optimisation and
  diagnostics the headers agree on every option.  Both compile the locks of the SPI driver in and the clock
  patch of the I2C code out, run both cores, for which \<open>enter_critical\<close> has a mutex each, and wait for
  an I2C transfer for 500 ticks.  And in both the SDK has the idle tasks watched before the program
  starts, so that \<open>disable\<close> of the watchdog fails, as long as the program has not enabled it; \<open>enable\<close>
  releases exactly these tasks, after which it succeeds.\<close>

theorem builds_configure_the_same:
  assumes "cfg \<in> {debug_config, release_config}"
    and "wdt_ok W subs" and "subs (twdt s) = boot_tasks cfg W"
  shows "(n \<notin> set build_options \<longrightarrow> map_of debug_config n = map_of release_config n)
    \<and> hal_locks cfg
    \<and> cores cfg = portNUM_PROCESSORS \<and> TIMEOUT div portTICK_PERIOD_MS (i2c_build cfg E) = 500
    \<and> patch_i2c_clock (i2c_build cfg E) b = b \<and> patchClock (i2c_build cfg E) port b = b
    \<and> \<not> fst (Watchdog_disable (wdt_build cfg W) s)
    \<and> (let (ok, t) = Watchdog_enable (wdt_build cfg W) tmo s
       in ok \<and> subs (twdt t) = Some {} \<and> fst (Watchdog_disable (wdt_build cfg W) t))"
proof -
  let ?W = "wdt_build cfg W"
  note build = both_builds [OF assms(1)]
  have ok: "wdt_ok ?W subs" using assms(2) by (simp add: wdt_build_ok)
  have s: "subs (twdt s) = Some (idles ?W)" using assms(3) by (simp add: build)
  have fails: "\<not> fst (Watchdog_disable ?W s)"
    using wdt_okD(8) [OF ok, of "twdt s"] s by (auto simp: build Watchdog_disable_def wdt_call_def WDT_OK_def Let_def)
  obtain r t where t: "Watchdog_enable ?W tmo s = (r, t)" by (cases "Watchdog_enable ?W tmo s")
  have "r" using t wdt_okD(1) [OF ok] by (auto simp: Watchdog_enable_def wdt_call_def WDT_OK_def Let_def)
  moreover have "subs (twdt t) = Some {}"
    using use_simulates [OF ok, of "Enable tmo" s] t s by (simp add: machine_at_def)
  moreover from this have "fst (Watchdog_disable ?W t)"
    using wdt_okD(8) [OF ok, of "twdt t"] by (simp add: Watchdog_disable_def wdt_call_def WDT_OK_def Let_def split_def)
  ultimately show ?thesis
    using configs_agree [of n] fails t by (simp add: build patch_i2c_clock_def patchClock_def portNUM_PROCESSORS_def TIMEOUT_def)
qed

lemma builds_configure_the_same_witness:
  "map_of debug_config ''CONFIG_FREERTOS_HZ'' = map_of release_config ''CONFIG_FREERTOS_HZ''
   \<and> \<not> fst (Watchdog_disable (wdt_build release_config demo_wdt) \<lparr>core = False, twdt = Some {100, 101}\<rparr>)
   \<and> patchClock (i2c_build release_config demo_i2c) 0 idle_i2c = idle_i2c"
proof -
  let ?s = "\<lparr>core = False, twdt = Some {100, 101}\<rparr> :: (bool, nat set option) wdt_state"
  have r: "release_config \<in> {debug_config, release_config}" by simp
  have "twdt ?s = boot_tasks release_config demo_wdt"
    by (simp add: both_builds(4) [OF r]) (simp add: demo_wdt_def)
  note p = builds_configure_the_same [OF r demo_wdt_ok this]
  have "''CONFIG_FREERTOS_HZ'' \<notin> set build_options" by (simp add: build_options_def)
  then show ?thesis
    using p [of "''CONFIG_FREERTOS_HZ''" demo_i2c idle_i2c 0 0] by blast
qed

end
