(* ===== verification/Spiffs.thy ===== *)
theory Spiffs
  imports Prelude
begin

text \<open>
  The flash file system, \<^verbatim>\<open>esp32/spiffs.cpp\<close>.  The state is the object and the SDK's virtual file
  system (\<open>'v\<close>), in which the partition is registered or not.
\<close>

record spiffs_config =
  base_path :: string
  max_files :: int
  format_if_mount_failed :: bool
  partition_label :: "string option"

record spiffs =
  mount_point :: string
  max_open :: int
  is_mounted :: bool
  fs_config :: spiffs_config

text \<open>\<open>spiffs_info\<close> gives the error code and the two sizes of \<open>esp_spiffs_info\<close>.\<close>

record 'v vfs_env =
  vfs_register :: "spiffs_config \<Rightarrow> 'v \<Rightarrow> int \<times> 'v"
  vfs_unregister :: "'v \<Rightarrow> 'v"
  spiffs_info :: "'v \<Rightarrow> int \<times> nat \<times> nat"

definition VFS_OK :: int where "VFS_OK = 0"

definition SpiFFS_ctor :: "string \<Rightarrow> int \<Rightarrow> spiffs" where
  "SpiFFS_ctor mnt mx = \<lparr>mount_point = mnt, max_open = mx, is_mounted = False,
     fs_config = \<lparr>base_path = mnt, max_files = mx, format_if_mount_failed = False, partition_label = None\<rparr>\<rparr>"

definition SpiFFS_mount :: "'v vfs_env \<Rightarrow> bool \<Rightarrow> spiffs \<times> 'v \<Rightarrow> bool \<times> (spiffs \<times> 'v)" where
  "SpiFFS_mount E format_failure x =
     (case x of (this, v) \<Rightarrow>
        let this = this\<lparr>fs_config := (fs_config this)\<lparr>format_if_mount_failed := format_failure\<rparr>\<rparr> in
        case vfs_register E (fs_config this) v of (ret, v) \<Rightarrow>
          let this = this\<lparr>is_mounted := (ret = VFS_OK)\<rparr> in (is_mounted this, (this, v)))"

definition SpiFFS_size :: "'v vfs_env \<Rightarrow> spiffs \<times> 'v \<Rightarrow> nat" where
  "SpiFFS_size E x = (case spiffs_info E (snd x) of (ret, tot, used) \<Rightarrow> if ret \<noteq> VFS_OK then 0 else tot)"

definition SpiFFS_used :: "'v vfs_env \<Rightarrow> spiffs \<times> 'v \<Rightarrow> nat" where
  "SpiFFS_used E x = (case spiffs_info E (snd x) of (ret, tot, used) \<Rightarrow> if ret \<noteq> VFS_OK then 0 else used)"

definition SpiFFS_unmount :: "'v vfs_env \<Rightarrow> spiffs \<times> 'v \<Rightarrow> spiffs \<times> 'v" where
  "SpiFFS_unmount E x = (case x of (this, v) \<Rightarrow> (this\<lparr>is_mounted := False\<rparr>, vfs_unregister E v))"

definition SpiFFS_mounted :: "spiffs \<times> 'v \<Rightarrow> bool" where
  "SpiFFS_mounted x = is_mounted (fst x)"

definition SpiFFS_dtor :: "'v vfs_env \<Rightarrow> spiffs \<times> 'v \<Rightarrow> 'v" where
  "SpiFFS_dtor E x = (if \<not> is_mounted (fst x) then snd x else snd (SpiFFS_unmount E x))"

section \<open>The documented file system\<close>

text \<open>Registering fails without effect when the partition is registered already; when it succeeds the
  partition is registered, when it fails it is as before; sizes are reported while it is registered.\<close>

definition vfs_ok :: "'v vfs_env \<Rightarrow> ('v \<Rightarrow> bool) \<Rightarrow> bool" where
  "vfs_ok E registered \<longleftrightarrow> (\<forall>c v.
     (registered v \<longrightarrow> fst (vfs_register E c v) \<noteq> 0 \<and> snd (vfs_register E c v) = v)
     \<and> (registered (snd (vfs_register E c v)) \<longleftrightarrow> registered v \<or> fst (vfs_register E c v) = 0)
     \<and> \<not> registered (vfs_unregister E v)
     \<and> (fst (spiffs_info E v) = 0 \<longleftrightarrow> registered v))"

datatype fs_use = Mount bool | Unmount

fun use_fs :: "'v vfs_env \<Rightarrow> fs_use \<Rightarrow> spiffs \<times> 'v \<Rightarrow> spiffs \<times> 'v" where
  "use_fs E (Mount f) x = snd (SpiFFS_mount E f x)"
| "use_fs E Unmount x = SpiFFS_unmount E x"

definition run_fs :: "'v vfs_env \<Rightarrow> fs_use list \<Rightarrow> spiffs \<times> 'v \<Rightarrow> spiffs \<times> 'v" where
  "run_fs E us = fold (use_fs E) us"

lemmas fs_defs = SpiFFS_mount_def SpiFFS_unmount_def SpiFFS_dtor_def SpiFFS_mounted_def VFS_OK_def Let_def split_def

lemma vfs_okD:
  assumes "vfs_ok E registered"
  shows "registered v \<Longrightarrow> fst (vfs_register E c v) \<noteq> 0"
    "registered v \<Longrightarrow> snd (vfs_register E c v) = v"
    "registered (snd (vfs_register E c v)) \<longleftrightarrow> registered v \<or> fst (vfs_register E c v) = 0"
    "\<not> registered (vfs_unregister E v)" "fst (spiffs_info E v) = 0 \<longleftrightarrow> registered v"
  using assms unfolding vfs_ok_def by blast+

lemma mounted_registered:
  assumes "vfs_ok E registered" and "is_mounted (fst x) \<longrightarrow> registered (snd x)"
  shows "is_mounted (fst (run_fs E us x)) \<longrightarrow> registered (snd (run_fs E us x))"
  using assms(2)
proof (induction us arbitrary: x)
  case Nil
  then show ?case by (simp add: run_fs_def)
next
  case (Cons u us)
  have "is_mounted (fst (use_fs E u x)) \<longrightarrow> registered (snd (use_fs E u x))"
    using vfs_okD [OF assms(1)] by (cases u) (simp_all add: fs_defs)
  then show ?case using Cons.IH [of "use_fs E u x"] by (simp add: run_fs_def)
qed

text \<open>A client that asks \<open>mounted\<close> before it mounts.\<close>

definition careful :: "'v vfs_env \<Rightarrow> fs_use \<Rightarrow> spiffs \<times> 'v \<Rightarrow> spiffs \<times> 'v" where
  "careful E u x = (if SpiFFS_mounted x \<and> u \<noteq> Unmount then x else use_fs E u x)"

lemma careful_agrees:
  assumes "vfs_ok E registered" and "is_mounted (fst x) \<longleftrightarrow> registered (snd x)"
  shows "is_mounted (fst (fold (careful E) us x)) \<longleftrightarrow> registered (snd (fold (careful E) us x))"
  using assms(2)
proof (induction us arbitrary: x)
  case Nil
  then show ?case by simp
next
  case (Cons u us)
  have "is_mounted (fst (careful E u x)) \<longleftrightarrow> registered (snd (careful E u x))"
    using Cons.prems vfs_okD [OF assms(1)] by (cases u) (auto simp: careful_def fs_defs)
  then show ?case using Cons.IH [of "careful E u x"] by simp
qed

text \<open>Property C26. The object's flag and the partition, from a fresh object on an unregistered partition: whatever is
  called, a set flag means a registered partition; a client that asks \<open>mounted\<close> before mounting sees
  the exact state, and destroying the object leaves nothing registered; but mounting a mounted file
  system reports failure, clears the flag, and the destructor then leaves the partition registered.\<close>

theorem spiffs_flag:
  assumes "vfs_ok E registered" and "\<not> registered v" and "fst (vfs_register E c v) = 0"
    and "c = (fs_config (SpiFFS_ctor mnt mx))\<lparr>format_if_mount_failed := f\<rparr>"
  shows "let x = (SpiFFS_ctor mnt mx, v) in
    (is_mounted (fst (run_fs E us x)) \<longrightarrow> registered (snd (run_fs E us x)))
    \<and> (let y = fold (careful E) us x in (SpiFFS_mounted y \<longleftrightarrow> registered (snd y)) \<and> \<not> registered (SpiFFS_dtor E y)
          \<and> (\<not> SpiFFS_mounted y \<longrightarrow> SpiFFS_size E y = 0 \<and> SpiFFS_used E y = 0))
    \<and> fst (SpiFFS_mount E f x)
    \<and> (let y = snd (SpiFFS_mount E f x); z = snd (SpiFFS_mount E g y) in
        \<not> fst (SpiFFS_mount E g y) \<and> registered (snd z) \<and> \<not> SpiFFS_mounted z \<and> registered (SpiFFS_dtor E z))"
proof -
  note ok = vfs_okD [OF assms(1)]
  let ?x = "(SpiFFS_ctor mnt mx, v)"
  have fresh: "\<not> is_mounted (fst ?x)" by (simp add: SpiFFS_ctor_def)
  then have "is_mounted (fst (run_fs E us ?x)) \<longrightarrow> registered (snd (run_fs E us ?x))"
    by (intro mounted_registered [OF assms(1)]) simp
  moreover have agrees: "is_mounted (fst (fold (careful E) us ?x)) \<longleftrightarrow> registered (snd (fold (careful E) us ?x))"
    using fresh assms(2) by (intro careful_agrees [OF assms(1)]) simp
  moreover have "\<not> registered (SpiFFS_dtor E y) \<and> (\<not> SpiFFS_mounted y \<longrightarrow> SpiFFS_size E y = 0 \<and> SpiFFS_used E y = 0)"
    if "is_mounted (fst y) \<longleftrightarrow> registered (snd y)" for y
    using that ok(4,5) by (auto simp: fs_defs SpiFFS_size_def SpiFFS_used_def)
  moreover have "let y = snd (SpiFFS_mount E f ?x); z = snd (SpiFFS_mount E g y) in fst (SpiFFS_mount E f ?x)
      \<and> \<not> fst (SpiFFS_mount E g y) \<and> registered (snd z) \<and> \<not> SpiFFS_mounted z \<and> registered (SpiFFS_dtor E z)"
    using ok(1-3) assms(3,4) by (simp add: fs_defs)
  ultimately show ?thesis by (simp add: SpiFFS_mounted_def Let_def)
qed

text \<open>A virtual file system with one partition, for the witness.\<close>

definition demo_vfs :: "bool vfs_env" where
  "demo_vfs = \<lparr>vfs_register = (\<lambda>c v. if v then (259, v) else (0, True)), vfs_unregister = (\<lambda>v. False),
     spiffs_info = (\<lambda>v. if v then (0, 1000, 10) else (259, 0, 0))\<rparr>"

lemma spiffs_flag_witness:
  "\<not> SpiFFS_dtor demo_vfs (fold (careful demo_vfs) [Mount True, Mount True] (SpiFFS_ctor ''/storage'' 4, False))
   \<and> SpiFFS_dtor demo_vfs (snd (SpiFFS_mount demo_vfs True (snd (SpiFFS_mount demo_vfs True (SpiFFS_ctor ''/storage'' 4, False)))))"
proof -
  have ok: "vfs_ok demo_vfs (\<lambda>v. v)" by (auto simp: vfs_ok_def demo_vfs_def)
  have r: "fst (vfs_register demo_vfs c False) = 0" for c by (simp add: demo_vfs_def)
  have "\<not> False" by simp
  from spiffs_flag [where us = "[Mount True, Mount True]" and g = True, OF ok this r refl, of "''/storage''" 4 True]
  show ?thesis unfolding Let_def by blast
qed

end
