(* ===== verification/Spec2Isabelle.thy ===== *)
theory Spec2Isabelle
  imports Spi_Object Spi_Settings Spi_Hang I2c_Wire Wifi_Life Station_Former Pwm_Timer Analog Uart Sdk_Config Spiffs
begin

text \<open>
  Verification of the ESP32 port of lwIoT (\<^verbatim>\<open>src/esp32\<close>): the drivers and classes that connect the
  lwIoT core library to Espressif's SDK.

  \<^bold>\<open>The program.\<close>  The port has a C layer (the SPI driver \<^verbatim>\<open>esp32spi.c\<close>, the I2C HAL
  \<^verbatim>\<open>soc/i2chal.c\<close>, the WiFi subsystem \<^verbatim>\<open>esp32_wifi.c\<close>, the SoC functions \<^verbatim>\<open>soc/esp32.c\<close>) and C++ classes
  on top of it and of the SDK.  The SPI driver owns an array of four controllers with one mutex each,
  routes their signals through the C entry points of the GPIO chip and moves data between memory and
  the 64-byte FIFO of a controller; the class \<open>SpiBus\<close> uses it for one bus and frames its transfers by
  a chip-select pin.  The I2C classes queue commands on a link of the SDK and run the link.  The WiFi
  classes share the subsystem's state and are informed by its event handler.  The other classes (PWM,
  converters, serial port, watchdog, file system) each keep a small state of their own in front of an
  SDK driver.

  \<^bold>\<open>How it is modelled.\<close>  A C function is a function on an explicit state; one that can fail or hang
  returns \<open>Inl\<close> with the reason (\<open>MutexDeadlock\<close>, \<open>NullBuffer\<close>, a read outside an array, an abort), and a
  function body is a list of such statements run by \<open>exec\<close> in the order of the source.  Registers
  are 32-bit words, with bit-fields at positions that are parameters constrained only to be distinct
  and in range; pins and lengths are words of their C width, and memory is a map from addresses to
  bytes, so that buffers may overlap.  Calls into the SDK are recorded in order; their results, and
  everything else outside the repository (the hardware behind the registers, the core library's base
  classes), are parameters.  What the code relies on is stated as named hypotheses
  (\<open>pads_ok\<close>, \<open>levels_ok\<close>, \<open>routes_ok\<close>, \<open>controller_ok\<close>, \<open>duplex_ok\<close>, \<open>write_ok\<close>, \<open>layout_ok\<close>, \<open>wdt_ok\<close>, \<open>vfs_ok\<close>, \<open>mux_ok\<close>,
  \<open>uart_ok\<close>, \<open>mcpwm_ok\<close>, \<open>mode_driver\<close>, \<open>fresh_links\<close>, \<open>wire_ok\<close>, \<open>reports\<close>), each shown to hold for a concrete
  instance.

  \<^bold>\<open>The theories.\<close>
  \<^item> \<open>Prelude\<close>: statements that can fail, register bits, byte-addressed memory; the collections \<open>stmt\<close>,
    \<open>regs\<close> and \<open>mems\<close>.
  \<^item> \<open>Gpio\<close> (\<^verbatim>\<open>esp32gpiochip.cpp\<close>, \<^verbatim>\<open>esp32gpio.h\<close>): modes, levels, interrupt registration and the service
    routine.  The routine stays inside its table and dispatches each reported pin once; the
    bookkeeping is well-formed in every state reachable by \<open>gpio_step\<close>; a registered handler is called
    once for its pin, and a detached one is still called for a latched bit.
  \<^item> \<open>Gpio_Pins\<close>: the same calls on the pins of a documented driver.  Over any sequence of uses each pin
    follows the machine of its own last mode and level; an output pin reads false, and pins on an
    open-drain line read the conjunction of their levels.
  \<^item> \<open>Spi_Device\<close>, \<open>Spi_Config\<close>, \<open>Spi_Transfer\<close>, \<open>Spi_Clock\<close> (\<^verbatim>\<open>esp32spi.c\<close>, \<^verbatim>\<open>esp32spi.h\<close>): the controllers,
    every configuration call, every transfer and the clock calculators.  Proved in \<open>Spi_Config\<close> and
    \<open>Spi_Clock\<close>: the start of a bus determines all its registers; setters and getters are inverse;
    a transaction is the three setters; the divider search is optimal among the settings it ranges
    over, grants more for higher requests and grants a granted frequency again.
  \<^item> \<open>Spi_Duplex\<close>, \<open>Spi_Order\<close>, \<open>Spi_Burst\<close>: the transfers against an abstract peripheral, a function from
    the bytes shifted out to the bytes shifted in.  The chunked loops exchange the caller's buffer
    through memory, for buffers that overlap in any way, and refine one exchange of it when the
    destination does not run ahead of the source; the byte-swapping macros are reversals of bytes; the calls for use inside a
    transaction and the locking calls agree; where lengths are not multiples of four the excess
    stores and the lost bytes are stated.
  \<^item> \<open>Spi_Locks\<close>: the driver's calls as data (\<open>bus_op\<close>, \<open>burst_op\<close>).  No sequence gets stuck or loses the
    mutex, transactions bracket, NULL buses are ignored except by two functions.  The locale
    \<open>transfer_class\<close> is the induction over the transfers that such facts share: a class of statements
    closed under sequencing that holds the register, FIFO and waiting statements holds every transfer.
  \<^item> \<open>Spi_Hang\<close>: the same calls with a controller that stops.  Exactly the calls that start a transaction
    wait for ever.
  \<^item> \<open>Tasks\<close>, \<open>Spi_Tasks\<close>: several tasks on one bus, interleaved statement by statement.  The locale
    \<open>exclusive_lock\<close> proves for any lock that brackets are serialised and never deadlock; \<open>Spi_Tasks\<close>
    interprets it on the bus mutex, for single calls and for whole transactions, and shows that the
    calls that read the bit order before locking are not serialised.
  \<^item> \<open>Spi_Settings\<close>: a bus as the machine of its settings (clock divider, data mode, bit order, chip-select
    lines and options).  Every call and transaction acts on the registers as the machine says, the
    transfers (by a second interpretation of \<open>transfer_class\<close>) leave them alone, and no call on one bus
    touches another.
  \<^item> \<open>Spi_Bus\<close> (\<^verbatim>\<open>spibus.cpp\<close>): the class, on the interface \<open>clock_port\<close>; its cached divider is always right.
  \<^item> \<open>I2c\<close> (\<^verbatim>\<open>soc/i2chal.c\<close>, \<^verbatim>\<open>hardwarei2calgorithm.cpp\<close>, \<^verbatim>\<open>esp32i2calgorithm.cpp\<close>) and \<open>I2c_Class\<close>: HAL and class
    both interpret the locale \<open>i2c_bus\<close> and make the same driver calls; the allocated links over any
    sequence of HAL calls, of which \<open>i2c_setup\<close> leaks those that are pending; vector transfers; the life of
    a message-level object.  \<open>I2c_Wire\<close> shows, for a driver that runs links as documented against any
    device, that the links of the message-level class transfer and store what the messages say.
  \<^item> \<open>Wifi\<close> (\<^verbatim>\<open>esp32_wifi.c\<close>, \<^verbatim>\<open>esp32_sta.cpp\<close>, \<^verbatim>\<open>esp32_ap.cpp\<close>): start-up and each of its failures, modes as a
    semilattice, events, the DHCP range.  \<open>Wifi_Life\<close> shows that a program that starts the subsystem and
    uses the three in any way implements an abstract machine, unless the start-up fails or a name does
    not fit, and that the SDK's driver is initialised once and first.  \<open>Station_Former\<close> (\<^verbatim>\<open>esp32_station.cpp\<close>, which
    is not in the build list) shows that the older station class behaves as its successor.
  \<^item> \<open>Pwm\<close>, \<open>Pwm_Timer\<close> (\<^verbatim>\<open>esp32pwmchannel.cpp\<close>, \<^verbatim>\<open>esp32pwmtimer.cpp\<close>): the channels, and a timer's outputs over a
    whole program as a machine, for a driver given by \<open>mcpwm_ok\<close>.
  \<^item> \<open>Analog\<close>, \<open>Uart\<close>, \<open>Watchdog\<close>, \<open>Spiffs\<close>, \<open>Soc\<close>: the remaining classes and the SoC functions, each
    opening with its source files.  A port refines a serial line, the watchdog a machine of its
    subscribed tasks.
  \<^item> \<open>Sdk_Config\<close> (\<^verbatim>\<open>config/Debug/sdkconfig.h\<close>, \<^verbatim>\<open>config/Release/sdkconfig.h\<close>): the options of the two builds, and
    the variants that the conditions of the code select with them.  Both builds run the same model.
  \<^item> \<open>Spi_Object\<close> and this theory compose the class, the driver and the GPIO chip over the whole life of a
    bus object: first as the calls the GPIO driver sees (\<open>spi_object_life\<close>), then as what becomes of the
    pins and of the routes of their signals (\<open>spi_object_pins\<close>).

  \<^bold>\<open>Loops and waiting.\<close>  The loops over buffers recurse on the number of bytes left and the scans of the
  interrupt routine and of the divider search on the distance to their bound, so all are total.
  The wait for the controller's \<^verbatim>\<open>usr\<close> bit may run for ever: it is \<open>while_option\<close>, where \<open>None\<close> is a hang, and
  \<open>controller_ok\<close> (the bit is cleared eventually) is the hypothesis under which the transfers are
  proved to return.  Taking a mutex that is held is \<open>MutexDeadlock\<close> for a single task and a wait
  for one of several tasks.

  \<^bold>\<open>Bounds.\<close>  Nothing is bounded by fuel.  Between tasks, one statement is a register access, one of the
  runs of FIFO accesses, a busy-wait, or the loop of a multi-chunk transfer, all of which run under
  the mutex; interrupts of the SDK's own drivers are not modelled.

  \<^bold>\<open>Not modelled.\<close>  The core library \<^verbatim>\<open>lwiot-core\<close> is a submodule that is not in the tree: its base classes
  are parameters, and the programs under \<^verbatim>\<open>tests\<close>, which exercise them, are left out.  The
  generated text form of the configurations (\<^verbatim>\<open>sdkconfig\<close>) has the same options and names the unset ones.  The driver is modelled
  with HAL locks enabled, as both configurations have it (\<open>hal_locks\<close> in \<open>Sdk_Config\<close>).  \<open>lwiot_udelay\<close>, \<open>System::restart\<close> and \<open>DacChip::begin\<close> only
  forward one call, the destructor of \<open>PwmTimer\<close> only frees its channels; debug output has no effect on the state and is omitted.
\<close>

section \<open>A bus object from construction to destruction\<close>

text \<open>Property C4. The life of an SPI bus object, through the class, the driver and the GPIO chip: construction on a
  startable bus, any sequence of frequency changes and transfers, and destruction all return; the
  GPIO driver is asked, in this order and for nothing else, to attach the three signals, to frame
  every transfer by the chip-select pin going low and high, and to detach the signals and make their
  pins inputs; at the end the bus is stopped, its configuration cleared, and its mutex free.\<close>

theorem spi_object_life:
  assumes "controller_ok E xact" and "duplex_ok E xact peer" and "layout_ok (layout E)"
    and "\<forall>u \<in> set us. use_ok u" and "num \<le> 3" and "startable E (unat num) s"
  shows "\<exists>this t this' t' u. SpiBus_ctor K E clk miso mosi num s = Inr (this, t)
    \<and> exec (map (use_bus K E (chip_select p)) us) (this, t) = Inr (this', t')
    \<and> SpiBus_dtor E this' t' = Inr u
    \<and> gpio_calls u = gpio_calls s @ attach_log (sdk E) (unat num) clk miso mosi @ frames p us
        @ detach_log (sdk E) (unat num) clk miso mosi
    \<and> stopped_dev (dev_at u (unat num)) \<and> lock_at u (unat num) = Some False"
  by (rule object_runs [OF assms, of K clk miso mosi p]) auto

lemma spi_object_life_witness:
  "\<exists>this t this' t' u. SpiBus_ctor esp32_clk demo_env 18 19 23 3 (demo_state None (\<lambda>_. 0)) = Inr (this, t)
    \<and> exec (map (use_bus esp32_clk demo_env (chip_select 5)) [Xfer (Some 0) (Some 0) 100]) (this, t) = Inr (this', t')
    \<and> SpiBus_dtor demo_env this' t' = Inr u
    \<and> gpio_calls u = attach_log esp32_sdk 3 18 19 23 @ [gpio_set_level 5 0, gpio_set_level 5 1] @ detach_log esp32_sdk 3 18 19 23"
proof -
  have "layout_ok (layout demo_env)" by (simp add: esp32_layout_ok)
  moreover have "\<forall>u \<in> set [Xfer (Some 0) (Some 0) 100]. use_ok u" by (simp add: no_clobber_def)
  moreover have "(3 :: 8 word) \<le> 3" by simp
  moreover have "startable demo_env (unat (3 :: 8 word)) (demo_state None (\<lambda>_. 0))" by (simp add: startable_def)
  moreover have "gpio_calls (demo_state None (\<lambda>_. 0)) = []" by (simp add: demo_state_def)
  ultimately show ?thesis
    using spi_object_life [OF demo_controller_ok demo_duplex_ok, of "[Xfer (Some 0) (Some 0) 100]" 3
        "demo_state None (\<lambda>_. 0)" esp32_clk 18 19 23 5]
    by (auto simp del: exec.simps list.map)
qed

text \<open>Property C5. The same life seen at the pins of a documented driver: after construction and any uses the
  clock and data-out pins are push-pull outputs that carry the controller's signals, the data-in pin
  is a floating input that feeds the controller, and the chip-select pin, high before, is as it was;
  after destruction the three pins are floating inputs, their outputs belong to the GPIO registers
  again and the controller's data-in signal is cut off.  No other pin is ever changed.\<close>

theorem spi_object_pins:
  assumes "controller_ok E xact" and "duplex_ok E xact peer" and "layout_ok (layout E)"
    and "\<forall>u \<in> set us. use_ok u" and "num \<le> 3" and "startable E (unat num) s"
    and "routes_ok D P" and "P \<subseteq> {0..}" and "distinct [ck, mi, mo, p]" and "{ck, mi, mo, p} \<subseteq> P"
    and "ck = sint (sck_pin (unat num) clk)" "mi = sint (miso_pin (unat num) miso)"
      "mo = sint (mosi_pin (unat num) mosi)"
    and "latch (pads D d p)"
  shows "\<exists>this t this' t' u. SpiBus_ctor K E clk miso mosi num s = Inr (this, t)
    \<and> exec (map (use_bus K E (chip_select p)) us) (this, t) = Inr (this', t')
    \<and> SpiBus_dtor E this' t' = Inr u
    \<and> pins_attached D (sdk E) (unat num) ck mi mo (driven_calls D s t' d)
    \<and> pins_released D (sdk E) (unat num) ck mi mo (driven_calls D s u d)
    \<and> (\<forall>q \<in> P - {ck, mi, mo}. pads D (driven_calls D s t' d) q = pads D d q
          \<and> pads D (driven_calls D s u d) q = pads D d q
          \<and> out_sig D (driven_calls D s t' d) q = out_sig D d q
          \<and> out_sig D (driven_calls D s u d) q = out_sig D d q)"
proof -
  let ?on = "attach_log (sdk E) (unat num) clk miso mosi" and ?off = "detach_log (sdk E) (unat num) clk miso mosi"
  obtain this t this' t' u where life: "SpiBus_ctor K E clk miso mosi num s = Inr (this, t)"
    "exec (map (use_bus K E (chip_select p)) us) (this, t) = Inr (this', t')" "SpiBus_dtor E this' t' = Inr u"
    and log: "gpio_calls t' = gpio_calls s @ ?on @ frames p us" "gpio_calls u = gpio_calls t' @ ?off"
    by (rule object_runs [OF assms(1-6)])
  let ?a = "fold (drive D) ?on d"
  let ?b = "fold (drive D) (frames p us) ?a"
  have d: "driven_calls D s t' d = ?b" "driven_calls D s u d = fold (drive D) ?off ?b"
    by (simp_all add: driven_calls_def log)
  have "distinct [ck, mi, mo]" "{ck, mi, mo} \<subseteq> P" using assms(9,10) by auto
  note on = attach_pins [OF assms(7,8) this assms(11-13), where d = d and K = "sdk E"]
    and off = detach_pins [OF assms(7,8) this assms(11-13), where d = ?b and K = "sdk E"]
  have "latch (pads D ?a p)" using on(2) [of p] assms(9,10,14) by simp
  then have uses: "pads D ?b q = pads D ?a q" "out_sig D ?b q = out_sig D ?a q" "in_pin D ?b = in_pin D ?a" if "q \<in> P" for q
    using frames_pins [OF assms(7) that, of p ?a us] by auto
  have "p \<in> P" using assms(10) by simp
  have "pins_attached D (sdk E) (unat num) ck mi mo (driven_calls D s t' d)"
    using on(1) uses(1,2) uses(3) [OF \<open>p \<in> P\<close>] assms(10) by (simp add: d(1) pins_attached_def)
  moreover have "pins_released D (sdk E) (unat num) ck mi mo (driven_calls D s u d)"
    unfolding d(2) by (rule off(1))
  moreover have "\<forall>q \<in> P - {ck, mi, mo}. pads D (driven_calls D s t' d) q = pads D d q
      \<and> pads D (driven_calls D s u d) q = pads D d q
      \<and> out_sig D (driven_calls D s t' d) q = out_sig D d q
      \<and> out_sig D (driven_calls D s u d) q = out_sig D d q"
    using on(2) off(2) uses(1,2) unfolding d by simp
  ultimately show ?thesis using life by blast
qed

text \<open>A driver that keeps pins and routes as functions, for the witness.\<close>

type_synonym demo_pins = "(int \<Rightarrow> pad) \<times> (int \<Rightarrow> 32 word) \<times> (32 word \<Rightarrow> 32 word)"

fun demo_route :: "gpio_call \<Rightarrow> demo_pins \<Rightarrow> demo_pins" where
  "demo_route c (x, out, inp) =
     (if is_matrix c then x else demo_drive c x,
      case c of gpio_matrix_out q f a b \<Rightarrow> out(uint q := f) | _ \<Rightarrow> out,
      case c of gpio_matrix_in q f a \<Rightarrow> inp(f := q) | _ \<Rightarrow> inp)"

definition demo_driver :: "demo_pins pin_driver" where
  "demo_driver = \<lparr>drive = demo_route, pads = fst, out_sig = \<lambda>d. fst (snd d), in_pin = \<lambda>d. snd (snd d)\<rparr>"

lemma demo_driver_ok: "routes_ok demo_driver P"
  unfolding routes_ok_def pads_ok_def demo_driver_def
  by (auto simp: demo_drive_def split: gpio_call.splits)

definition demo_reset_pins :: demo_pins where
  "demo_reset_pins = (\<lambda>q. \<lparr>pad_dir = None, pull_up = False, pull_down = False, latch = (q = 5)\<rparr>, \<lambda>_. 0x100, \<lambda>_. 0)"

lemma spi_object_pins_witness:
  "\<exists>t u. pins_attached demo_driver esp32_sdk 3 18 19 23 (driven_calls demo_driver (demo_state None (\<lambda>_. 0)) t demo_reset_pins)
     \<and> pins_released demo_driver esp32_sdk 3 18 19 23 (driven_calls demo_driver (demo_state None (\<lambda>_. 0)) u demo_reset_pins)
     \<and> pads demo_driver (driven_calls demo_driver (demo_state None (\<lambda>_. 0)) u demo_reset_pins) 5 = fst demo_reset_pins 5"
proof -
  let ?P = "{0..33} :: int set" and ?us = "[Xfer (Some 0) (Some 0) 100]"
  have a: "layout_ok (layout demo_env)" by (simp add: esp32_layout_ok)
  have b: "\<forall>u \<in> set ?us. use_ok u" by (simp add: no_clobber_def)
  have c: "(3 :: 8 word) \<le> 3" by simp
  have e: "startable demo_env (unat (3 :: 8 word)) (demo_state None (\<lambda>_. 0))" by (simp add: startable_def)
  have f: "?P \<subseteq> {0..}" "distinct [18, 19, 23, 5 :: int]" "{18, 19, 23, 5 :: int} \<subseteq> ?P" by auto
  have g: "18 = sint (sck_pin (unat (3 :: 8 word)) 18)" "19 = sint (miso_pin (unat (3 :: 8 word)) 19)"
    "23 = sint (mosi_pin (unat (3 :: 8 word)) 23)"
    by (simp_all add: sck_pin_def miso_pin_def mosi_pin_def pin_or_default_def)
  have h: "latch (pads demo_driver demo_reset_pins 5)" by (simp add: demo_driver_def demo_reset_pins_def)
  have p: "pads demo_driver demo_reset_pins 5 = fst demo_reset_pins 5" by (simp add: demo_driver_def)
  have "sdk demo_env = esp32_sdk" by (simp add: demo_env_def)
  with spi_object_pins [OF demo_controller_ok demo_duplex_ok a b c e demo_driver_ok f g h, of esp32_clk] p
  show ?thesis by fastforce
qed

end
